theory Spec2Isabelle
  imports Main "HOL-Library.AList" "HOL-Library.Multiset" "HOL-Library.Sublist"
    "HOL-Library.Char_ord" "HOL-Library.List_Lexorder"
begin

section \<open>Go values\<close>

text \<open>
  The provider moves data between the typed models of the Grafana client and the untyped
  trees of the plugin SDK, which are Go values of type \<open>interface{}\<close>. A value of that
  type is modelled by \<open>val\<close>: the nil interface, a bool, a string, an \<open>int\<close>, a \<open>float64\<close>
  (the type of every number of a decoded JSON document; it is given by its 64 bits, read as
  a number), a \<open>[]interface{}\<close>, a \<open>map[string]interface{}\<close> and a \<open>map[string]string\<close>.
  The last two are different dynamic types: a type assertion to one fails on the other. A Go
  map is an association list read with \<open>map_of\<close> and written with \<open>AList.update\<close>.

  A slice that may be nil is a \<open>list option\<close>: \<open>None\<close> is the nil slice, \<open>Some []\<close> the
  empty one. A failed type assertion or a nil dereference is a run-time panic, the value
  \<open>Inl\<close> of type \<open>fault\<close>.
\<close>

datatype val =
    VNil
  | VBool bool
  | VStr string
  | VNum int
  | VFloat nat
  | VList "val list"
  | VMap "(string \<times> val) list"
  | VStrMap "(string \<times> string) list"

datatype fault = TypeAssertion | NilDereference

fun mapM :: "('a \<Rightarrow> fault + 'b) \<Rightarrow> 'a list \<Rightarrow> fault + 'b list" where
  "mapM f [] = Inr []"
| "mapM f (x # xs) =
     (case f x of
        Inl e \<Rightarrow> Inl e
      | Inr y \<Rightarrow> (case mapM f xs of Inl e \<Rightarrow> Inl e | Inr ys \<Rightarrow> Inr (y # ys)))"

text \<open>The type assertions \<open>v.(string)\<close>, \<open>v.([]interface{})\<close> and
  \<open>v.(map[string]interface{})\<close>.\<close>

fun assertString :: "val \<Rightarrow> fault + string" where
  "assertString (VStr s) = Inr s"
| "assertString _ = Inl TypeAssertion"

fun assertList :: "val \<Rightarrow> fault + val list" where
  "assertList (VList vs) = Inr vs"
| "assertList _ = Inl TypeAssertion"

fun assertMap :: "val \<Rightarrow> fault + (string \<times> val) list" where
  "assertMap (VMap m) = Inr m"
| "assertMap _ = Inl TypeAssertion"

text \<open>The test \<open>v, ok := m[k]; ok && v != nil\<close>: the entry, when it is there and is not
  the nil interface.\<close>

definition lookupNonNil :: "(string \<times> val) list \<Rightarrow> string \<Rightarrow> val option" where
  "lookupNonNil m k = (case map_of m k of Some VNil \<Rightarrow> None | r \<Rightarrow> r)"

section \<open>Mute timings: the interval codec\<close>

record TimeIntervalRange =
  StartTime :: string
  EndTime :: string

record TimeInterval =
  Times :: "TimeIntervalRange list option"
  Weekdays :: "string list option"
  DaysOfMonth :: "string list option"
  Months :: "string list option"
  Years :: "string list option"
  Location :: string

text \<open>Modelled from the spec: \<open>common.StringSliceToList\<close> and \<open>common.ListToStringSlice\<close>
  are not among the sources. The spec calls the fields ordered sequences of range
  expressions; the helpers are taken as the element-wise conversions their names say,
  each returning a non-nil slice, an element that is not a string read as the empty
  string.\<close>

definition StringSliceToList :: "string list \<Rightarrow> val list" where
  "StringSliceToList xs = map VStr xs"

definition ListToStringSlice :: "val list \<Rightarrow> string list" where
  "ListToStringSlice vs = map (\<lambda>v. case v of VStr s \<Rightarrow> s | _ \<Rightarrow> []) vs"

definition packTimeRange :: "TimeIntervalRange \<Rightarrow> val" where
  "packTimeRange t = VStrMap [(''start'', StartTime t), (''end'', EndTime t)]"

definition unpackTimeRange :: "val \<Rightarrow> fault + TimeIntervalRange" where
  "unpackTimeRange raw =
     (case assertMap raw of
        Inl e \<Rightarrow> Inl e
      | Inr vals \<Rightarrow>
          (case assertString (case map_of vals ''start'' of Some v \<Rightarrow> v | None \<Rightarrow> VNil) of
             Inl e \<Rightarrow> Inl e
           | Inr s \<Rightarrow>
               (case assertString (case map_of vals ''end'' of Some v \<Rightarrow> v | None \<Rightarrow> VNil) of
                  Inl e \<Rightarrow> Inl e
                | Inr e \<Rightarrow> Inr \<lparr>StartTime = s, EndTime = e\<rparr>)))"

text \<open>One pass of the loop of \<open>packIntervals\<close>: the map \<open>in\<close> gets a key for every field
  that is not nil (not empty, for the location); \<open>setSome\<close> is the guarded assignment.\<close>

definition setSome :: "string \<Rightarrow> val option \<Rightarrow> (string \<times> val) list \<Rightarrow> (string \<times> val) list" where
  "setSome k v m = (case v of None \<Rightarrow> m | Some x \<Rightarrow> AList.update k x m)"

definition packInterval :: "TimeInterval \<Rightarrow> val" where
  "packInterval ti =
     VMap (
       setSome ''location'' (if Location ti = [] then None else Some (VStr (Location ti))) (
       setSome ''years'' (map_option (\<lambda>xs. VList (StringSliceToList xs)) (Years ti)) (
       setSome ''months'' (map_option (\<lambda>xs. VList (StringSliceToList xs)) (Months ti)) (
       setSome ''days_of_month'' (map_option (\<lambda>xs. VList (StringSliceToList xs)) (DaysOfMonth ti)) (
       setSome ''weekdays'' (map_option (\<lambda>xs. VList (StringSliceToList xs)) (Weekdays ti)) (
       setSome ''times'' (map_option (\<lambda>ts. VList (map packTimeRange ts)) (Times ti))
         []))))))"

definition packIntervals :: "TimeInterval list option \<Rightarrow> val list option" where
  "packIntervals nts = (case nts of None \<Rightarrow> None | Some ts \<Rightarrow> Some (map packInterval ts))"

text \<open>One optional string-list field of \<open>unpackIntervals\<close>.\<close>

definition unpackStrings :: "(string \<times> val) list \<Rightarrow> string \<Rightarrow> fault + string list option" where
  "unpackStrings block k =
     (case lookupNonNil block k of
        None \<Rightarrow> Inr None
      | Some vals \<Rightarrow>
          (case assertList vals of Inl e \<Rightarrow> Inl e | Inr vs \<Rightarrow> Inr (Some (ListToStringSlice vs))))"

definition unpackInterval :: "val \<Rightarrow> fault + TimeInterval" where
  "unpackInterval r =
     (case assertMap r of
        Inl e \<Rightarrow> Inl e
      | Inr block \<Rightarrow>
     (case (case lookupNonNil block ''times'' of
              None \<Rightarrow> Inr None
            | Some vals \<Rightarrow>
                (case assertList vals of
                   Inl e \<Rightarrow> Inl e
                 | Inr vs \<Rightarrow> (case mapM unpackTimeRange vs of Inl e \<Rightarrow> Inl e | Inr ts \<Rightarrow> Inr (Some ts)))) of
        Inl e \<Rightarrow> Inl e
      | Inr tms \<Rightarrow>
     (case unpackStrings block ''weekdays'' of
        Inl e \<Rightarrow> Inl e
      | Inr wds \<Rightarrow>
     (case unpackStrings block ''days_of_month'' of
        Inl e \<Rightarrow> Inl e
      | Inr doms \<Rightarrow>
     (case unpackStrings block ''months'' of
        Inl e \<Rightarrow> Inl e
      | Inr mths \<Rightarrow>
     (case unpackStrings block ''years'' of
        Inl e \<Rightarrow> Inl e
      | Inr yrs \<Rightarrow>
     (case (case lookupNonNil block ''location'' of
              None \<Rightarrow> Inr []
            | Some v \<Rightarrow> assertString v) of
        Inl e \<Rightarrow> Inl e
      | Inr loc \<Rightarrow>
          Inr \<lparr>Times = tms, Weekdays = wds, DaysOfMonth = doms, Months = mths,
               Years = yrs, Location = loc\<rparr>)))))))"

definition unpackIntervals :: "val list option \<Rightarrow> fault + TimeInterval list option" where
  "unpackIntervals raw =
     (case raw of
        None \<Rightarrow> Inr None
      | Some rs \<Rightarrow> (case mapM unpackInterval rs of Inl e \<Rightarrow> Inl e | Inr ts \<Rightarrow> Inr (Some ts)))"


subsection \<open>Month names in a range\<close>

text \<open>\<open>strings.ReplaceAll s old new\<close> replaces the occurrences of \<open>old\<close> in \<open>s\<close>, found from
  left to right and not overlapping. For an empty \<open>old\<close> Go inserts \<open>new\<close> before every
  character and at the end; the first equation says so for single-byte characters, and no
  key of the table below is empty.\<close>

fun ReplaceAll :: "string \<Rightarrow> string \<Rightarrow> string \<Rightarrow> string" where
  "ReplaceAll s [] new = new @ concat (map (\<lambda>c. c # new) s)"
| "ReplaceAll [] (a # old) new = []"
| "ReplaceAll (c # s) (a # old) new =
     (if prefix (a # old) (c # s) then new @ ReplaceAll (drop (length old) s) (a # old) new
      else c # ReplaceAll s (a # old) new)"

text \<open>\<open>fmt.Sprint\<close> of an \<open>int\<close>: its decimal digits.\<close>

definition digitChar :: "nat \<Rightarrow> char" where
  "digitChar n = (''0123456789'' ! n)"

fun decimal :: "nat \<Rightarrow> string" where
  "decimal n = (if n < 10 then [digitChar n] else decimal (n div 10) @ [digitChar (n mod 10)])"

declare decimal.simps [simp del]

definition Sprint :: "int \<Rightarrow> string" where
  "Sprint i = (if i < 0 then CHR ''-'' # decimal (nat (- i)) else decimal (nat i))"

definition monthNums :: "(string \<times> int) list" where
  "monthNums =
     [(''january'', 1), (''february'', 2), (''march'', 3), (''april'', 4), (''may'', 5),
      (''june'', 6), (''july'', 7), (''august'', 8), (''september'', 9), (''october'', 10),
      (''november'', 11), (''december'', 12)]"

text \<open>The loop of \<open>suppressMonthDiff\<close> ranges over a Go map, whose iteration order is not
  fixed: \<open>order\<close> is the order of one run, a permutation of \<open>monthNums\<close>. The key \<open>k\<close> and
  the resource data \<open>d\<close> are not read.\<close>

definition normalizeMonths :: "(string \<times> int) list \<Rightarrow> string \<Rightarrow> string" where
  "normalizeMonths order s = fold (\<lambda>(k, v) acc. ReplaceAll acc k (Sprint v)) order s"

definition suppressMonthDiff ::
  "(string \<times> int) list \<Rightarrow> string \<Rightarrow> string \<Rightarrow> string \<Rightarrow> 'd \<Rightarrow> bool" where
  "suppressMonthDiff order k oldValue newValue d =
     (normalizeMonths order oldValue = normalizeMonths order newValue)"

text \<open>Two notions for the proof that the order does not matter. \<open>apart a b\<close>: no occurrence
  of \<open>b\<close> starts inside \<open>a\<close>, whatever follows \<open>a\<close>. \<open>separated tbl\<close>: the keys of the table are
  pairwise apart and share no character with any replacement. \<open>rendered\<close> is the table with
  its numbers printed.\<close>

definition apart :: "string \<Rightarrow> string \<Rightarrow> bool" where
  "apart a b = list_all (\<lambda>u. u = [] \<or> (\<not> prefix b u \<and> \<not> prefix u b)) (suffixes a)"

definition separated :: "(string \<times> string) list \<Rightarrow> bool" where
  "separated tbl =
     list_all (\<lambda>p. fst p \<noteq> [] \<and> snd p \<noteq> [] \<and>
       list_all (\<lambda>q. list_all (\<lambda>c. c \<notin> set (snd q)) (fst p) \<and> (p = q \<or> apart (fst p) (fst q))) tbl) tbl"

definition rendered :: "(string \<times> string) list" where
  "rendered =
     [(''january'', ''1''), (''february'', ''2''), (''march'', ''3''), (''april'', ''4''),
      (''may'', ''5''), (''june'', ''6''), (''july'', ''7''), (''august'', ''8''),
      (''september'', ''9''), (''october'', ''10''), (''november'', ''11''),
      (''december'', ''12'')]"

text \<open>The map inside a packed interval, for the proofs.\<close>

definition packedBlock :: "TimeInterval \<Rightarrow> (string \<times> val) list" where
  "packedBlock ti = (case packInterval ti of VMap m \<Rightarrow> m | _ \<Rightarrow> [])"

section \<open>Contact points: notifiers and their codecs\<close>

text \<open>The contact point of the Grafana client, \<open>models.EmbeddedContactPoint\<close>. \<open>Type\<close> is a
  \<open>*string\<close> (\<open>None\<close> is the nil pointer) and \<open>Settings\<close> an \<open>interface{}\<close>.\<close>

record EmbeddedContactPoint =
  DisableResolveMessage :: bool
  Name :: string
  Settings :: val
  Type :: "string option"
  UID :: string

text \<open>The resource data of the plugin SDK, as far as the contact point reads and writes
  it: the identifier, whether the resource is new, the attributes \<open>name\<close> and \<open>org_id\<close>,
  the \<open>intervals\<close> of a mute timing, and for every notifier field the list of its
  instances (\<open>Set.List()\<close>), each a \<open>map[string]interface{}\<close>. \<open>GetOk\<close> is not ok on a field
  without instances.\<close>

record ResourceData =
  Id :: string
  IsNewResource :: bool
  nameAttr :: string
  orgIdAttr :: string
  intervalsAttr :: "val list"
  instances :: "string \<Rightarrow> val list"

definition GetOk :: "ResourceData \<Rightarrow> string \<Rightarrow> val list option" where
  "GetOk d f = (if instances d f = [] then None else Some (instances d f))"

definition SetInstances :: "string \<Rightarrow> val list \<Rightarrow> ResourceData \<Rightarrow> ResourceData" where
  "SetInstances f pts d = d\<lparr>instances := (instances d)(f := pts)\<rparr>"

record notifierMeta =
  field :: string
  typeStr :: string
  desc :: string
  secureFields :: "string list"

text \<open>The notifier kinds are the empty struct types listed in \<open>notifiers\<close>. Their methods
  (the interface \<open>notifier\<close>) are implemented in a file that is not among the sources: they
  are the parameter \<open>N\<close>, a record of the methods by kind. \<open>pack\<close> returns a value or an
  error, \<open>unpack\<close> a contact point; both can panic on a malformed tree.\<close>

datatype notifier =
    alertmanagerNotifier | dingDingNotifier | discordNotifier | emailNotifier
  | googleChatNotifier | kafkaNotifier | lineNotifier | oncallNotifier | opsGenieNotifier
  | pagerDutyNotifier | pushoverNotifier | sensugoNotifier | slackNotifier | teamsNotifier
  | telegramNotifier | threemaNotifier | victorOpsNotifier | webexNotifier | webhookNotifier
  | wecomNotifier

definition notifiers :: "notifier list" where
  "notifiers =
     [alertmanagerNotifier, dingDingNotifier, discordNotifier, emailNotifier,
      googleChatNotifier, kafkaNotifier, lineNotifier, oncallNotifier, opsGenieNotifier,
      pagerDutyNotifier, pushoverNotifier, sensugoNotifier, slackNotifier, teamsNotifier,
      telegramNotifier, threemaNotifier, victorOpsNotifier, webexNotifier, webhookNotifier,
      wecomNotifier]"

text \<open>An error value of Go: an error of the API client with its HTTP status, which is a
  \<open>*runtime.APIError\<close> or one of the typed responses of the client, or any other error. Each
  carries its text.\<close>

datatype error =
    RuntimeAPIError int string
  | ResponseError int string
  | OtherError string

fun ErrorText :: "error \<Rightarrow> string" where
  "ErrorText (RuntimeAPIError c s) = s"
| "ErrorText (ResponseError c s) = s"
| "ErrorText (OtherError s) = s"

record methods =
  meta :: "notifier \<Rightarrow> notifierMeta"
  pack :: "notifier \<Rightarrow> EmbeddedContactPoint \<Rightarrow> ResourceData \<Rightarrow> fault + error + val"
  unpack :: "notifier \<Rightarrow> val \<Rightarrow> string \<Rightarrow> fault + EmbeddedContactPoint"

record statePair =
  tfState :: "(string \<times> val) list"
  gfState :: EmbeddedContactPoint

subsection \<open>Unpacking the declared notifiers\<close>

text \<open>\<open>unpackPointConfig\<close> deletes from the settings every key whose value is the empty
  string. The comparison \<open>v == ""\<close> of an \<open>interface{}\<close> with a string holds for the string
  \<open>""\<close> only.\<close>

definition unpackPointConfig ::
  "methods \<Rightarrow> notifier \<Rightarrow> val \<Rightarrow> string \<Rightarrow> fault + EmbeddedContactPoint" where
  "unpackPointConfig N n raw nm =
     (case unpack N n raw nm of
        Inl e \<Rightarrow> Inl e
      | Inr pt \<Rightarrow>
          (case assertMap (Settings pt) of
             Inl e \<Rightarrow> Inl e
           | Inr settings \<Rightarrow>
               Inr (pt\<lparr>Settings := VMap (filter (\<lambda>(k, v). v \<noteq> VStr []) settings)\<rparr>)))"

definition unpackPoint :: "methods \<Rightarrow> notifier \<Rightarrow> string \<Rightarrow> val \<Rightarrow> fault + statePair" where
  "unpackPoint N n nm p =
     (case assertMap p of
        Inl e \<Rightarrow> Inl e
      | Inr tf \<Rightarrow>
          (case unpackPointConfig N n p nm of
             Inl e \<Rightarrow> Inl e
           | Inr gf \<Rightarrow> Inr \<lparr>tfState = tf, gfState = gf\<rparr>))"

fun unpackKinds :: "methods \<Rightarrow> ResourceData \<Rightarrow> notifier list \<Rightarrow> fault + statePair list" where
  "unpackKinds N d [] = Inr []"
| "unpackKinds N d (n # ns) =
     (case (case GetOk d (field (meta N n)) of
              None \<Rightarrow> Inr []
            | Some points \<Rightarrow> mapM (unpackPoint N n (nameAttr d)) points) of
        Inl e \<Rightarrow> Inl e
      | Inr here \<Rightarrow>
          (case unpackKinds N d ns of Inl e \<Rightarrow> Inl e | Inr rest \<Rightarrow> Inr (here @ rest)))"

definition unpackContactPoints :: "methods \<Rightarrow> ResourceData \<Rightarrow> fault + statePair list" where
  "unpackContactPoints N d = unpackKinds N d notifiers"

subsection \<open>Packing the records of the backend\<close>

definition unpackCommonNotifierFields ::
  "(string \<times> val) list \<Rightarrow> fault + string \<times> bool \<times> (string \<times> val) list" where
  "unpackCommonNotifierFields raw =
     (case map_of raw ''uid'' of
        Some (VStr u) \<Rightarrow>
          (case map_of raw ''disable_resolve_message'' of
             Some (VBool b) \<Rightarrow>
               (case map_of raw ''settings'' of
                  Some (VMap s) \<Rightarrow> Inr (u, b, s)
                | _ \<Rightarrow> Inl TypeAssertion)
           | _ \<Rightarrow> Inl TypeAssertion)
      | _ \<Rightarrow> Inl TypeAssertion)"

definition packCommonNotifierFields :: "EmbeddedContactPoint \<Rightarrow> (string \<times> val) list" where
  "packCommonNotifierFields p =
     [(''uid'', VStr (UID p)), (''disable_resolve_message'', VBool (DisableResolveMessage p))]"

text \<open>\<open>packSettings\<close> replaces every value of the settings by \<open>fmt.Sprintf("%#v", v)\<close>, the
  Go syntax of the value. That function is the library's; it is the parameter \<open>sprintf\<close>.\<close>

definition packSettings ::
  "(val \<Rightarrow> string) \<Rightarrow> EmbeddedContactPoint \<Rightarrow> fault + (string \<times> val) list" where
  "packSettings sprintf p =
     (case assertMap (Settings p) of
        Inl e \<Rightarrow> Inl e
      | Inr m \<Rightarrow> Inr (map (\<lambda>(k, v). (k, VStr (sprintf v))) m))"

text \<open>\<open>packNotifierStringField\<close> moves a setting of the backend into the declared form and
  deletes it from the settings; the two maps are returned as they are afterwards.\<close>

definition packNotifierStringField ::
  "(string \<times> val) list \<Rightarrow> (string \<times> val) list \<Rightarrow> string \<Rightarrow> string \<Rightarrow>
     fault + (string \<times> val) list \<times> (string \<times> val) list" where
  "packNotifierStringField gfSettings tfSettings gfKey tfKey =
     (case lookupNonNil gfSettings gfKey of
        None \<Rightarrow> Inr (gfSettings, tfSettings)
      | Some v \<Rightarrow>
          (case assertString v of
             Inl e \<Rightarrow> Inl e
           | Inr s \<Rightarrow> Inr (AList.delete gfKey gfSettings, AList.update tfKey (VStr s) tfSettings)))"

text \<open>\<open>packSecureFields\<close> writes into \<open>tfSettings\<close>; \<open>state\<close> is the declared entry, \<open>None\<close>
  the nil map that \<open>getNotifierConfigFromStateWithUID\<close> returns when it finds no entry.\<close>

fun packSecureFields ::
  "(string \<times> val) list \<Rightarrow> (string \<times> val) list option \<Rightarrow> string list \<Rightarrow>
     fault + (string \<times> val) list" where
  "packSecureFields tfSettings st [] = Inr tfSettings"
| "packSecureFields tfSettings st (tfKey # ks) =
     (case lookupNonNil (case st of None \<Rightarrow> [] | Some m \<Rightarrow> m) tfKey of
        None \<Rightarrow> packSecureFields tfSettings st ks
      | Some v \<Rightarrow>
          (case assertString v of
             Inl e \<Rightarrow> Inl e
           | Inr s \<Rightarrow> packSecureFields (AList.update tfKey (VStr s) tfSettings) st ks))"

definition unpackNotifierStringField ::
  "(string \<times> val) list \<Rightarrow> (string \<times> val) list \<Rightarrow> string \<Rightarrow> string \<Rightarrow>
     fault + (string \<times> val) list" where
  "unpackNotifierStringField tfSettings gfSettings tfKey gfKey =
     (case lookupNonNil tfSettings tfKey of
        None \<Rightarrow> Inr gfSettings
      | Some v \<Rightarrow>
          (case assertString v of
             Inl e \<Rightarrow> Inl e
           | Inr s \<Rightarrow> Inr (AList.update gfKey (VStr s) gfSettings)))"

text \<open>The loop of \<open>getNotifierConfigFromStateWithUID\<close>: the first entry whose \<open>uid\<close> is the
  string \<open>uid\<close>.\<close>

fun findConfig :: "val list \<Rightarrow> string \<Rightarrow> fault + (string \<times> val) list option" where
  "findConfig [] uid = Inr None"
| "findConfig (pt # pts) uid =
     (case assertMap pt of
        Inl e \<Rightarrow> Inl e
      | Inr config \<Rightarrow>
          if map_of config ''uid'' = Some (VStr uid) then Inr (Some config)
          else findConfig pts uid)"

definition getNotifierConfigFromStateWithUID ::
  "methods \<Rightarrow> ResourceData \<Rightarrow> notifier \<Rightarrow> string \<Rightarrow> fault + (string \<times> val) list option" where
  "getNotifierConfigFromStateWithUID N d n uid =
     (case GetOk d (field (meta N n)) of
        None \<Rightarrow> Inr None
      | Some points \<Rightarrow> findConfig points uid)"

text \<open>\<open>packContactPoints\<close>. The map \<open>pointsPerNotifier\<close> is a function from the kind to its
  list, the empty list for a kind that is no key of the map. A record whose type is that
  of a kind is packed by the kind and appended to its list; the \<open>continue\<close> goes on with
  the next kind. The name is set from every record. The last loop sets the field of every
  kind that has a list; it ranges over a Go map, here in the order of \<open>notifiers\<close>, and
  the order is without effect when no two kinds have the same field.\<close>

fun packInto ::
  "methods \<Rightarrow> EmbeddedContactPoint \<Rightarrow> ResourceData \<Rightarrow> (notifier \<Rightarrow> val list) \<Rightarrow> notifier list \<Rightarrow>
     fault + error + (notifier \<Rightarrow> val list)" where
  "packInto N p d acc [] = Inr (Inr acc)"
| "packInto N p d acc (n # ns) =
     (case Type p of
        None \<Rightarrow> Inl NilDereference
      | Some t \<Rightarrow>
          if t = typeStr (meta N n) then
            (case pack N n p d of
               Inl e \<Rightarrow> Inl e
             | Inr (Inl err) \<Rightarrow> Inr (Inl err)
             | Inr (Inr packed) \<Rightarrow> packInto N p d (acc(n := acc n @ [packed])) ns)
          else packInto N p d acc ns)"

fun packAll ::
  "methods \<Rightarrow> EmbeddedContactPoint list \<Rightarrow> ResourceData \<Rightarrow> (notifier \<Rightarrow> val list) \<Rightarrow>
     (fault + error + (notifier \<Rightarrow> val list)) \<times> ResourceData" where
  "packAll N [] d acc = (Inr (Inr acc), d)"
| "packAll N (p # ps) d acc =
     (let d' = d\<lparr>nameAttr := Name p\<rparr> in
      case packInto N p d' acc notifiers of
        Inl e \<Rightarrow> (Inl e, d')
      | Inr (Inl err) \<Rightarrow> (Inr (Inl err), d')
      | Inr (Inr acc') \<Rightarrow> packAll N ps d' acc')"

text \<open>A record is recognized when its type is that of some kind of the registry.\<close>

definition ofKind :: "methods \<Rightarrow> notifier \<Rightarrow> EmbeddedContactPoint \<Rightarrow> bool" where
  "ofKind N n p = (Type p = Some (typeStr (meta N n)))"

definition recognized :: "methods \<Rightarrow> EmbeddedContactPoint \<Rightarrow> bool" where
  "recognized N p = list_ex (\<lambda>n. Type p = Some (typeStr (meta N n))) notifiers"

definition setPacked :: "methods \<Rightarrow> (notifier \<Rightarrow> val list) \<Rightarrow> ResourceData \<Rightarrow> ResourceData" where
  "setPacked N acc d =
     fold (\<lambda>n d. SetInstances (field (meta N n)) (acc n) d) (filter (\<lambda>n. acc n \<noteq> []) notifiers) d"

definition packContactPoints ::
  "methods \<Rightarrow> EmbeddedContactPoint list \<Rightarrow> ResourceData \<Rightarrow> (fault + error + unit) \<times> ResourceData" where
  "packContactPoints N ps d =
     (case packAll N ps d (\<lambda>n. []) of
        (Inl e, d') \<Rightarrow> (Inl e, d')
      | (Inr (Inl err), d') \<Rightarrow> (Inr (Inl err), d')
      | (Inr (Inr acc), d') \<Rightarrow> (Inr (Inr ()), setPacked N acc d'))"

text \<open>Modelled from the spec: the pack of a kind is not among the sources. Of it, the spec
  (4.2) says that the common fields are always packed and that the fields listed in
  \<open>secureFields\<close> are carried forward from the declared entry with the UID of the record.
  \<open>packCarryForward\<close> is that part of a pack, made of the functions of the source.\<close>

definition packCarryForward ::
  "methods \<Rightarrow> notifier \<Rightarrow> EmbeddedContactPoint \<Rightarrow> ResourceData \<Rightarrow> fault + (string \<times> val) list" where
  "packCarryForward N n p d =
     (case getNotifierConfigFromStateWithUID N d n (UID p) of
        Inl e \<Rightarrow> Inl e
      | Inr st \<Rightarrow> packSecureFields (packCommonNotifierFields p) st (secureFields (meta N n)))"

text \<open>An instance of the interface, for the examples: every kind has a field and a type
  of its own, \<open>unpack\<close> reads the common fields and \<open>pack\<close> writes them, with the secure
  fields carried forward and the settings packed. The settings of the examples are strings
  of printable ASCII characters without a double quote or a backslash, and \<open>exampleSyntax\<close>
  is the Go syntax of such a string, the string between two double quotes, and of a bool; on
  every other value it is a placeholder and not the library's function.\<close>

definition exampleSyntax :: "val \<Rightarrow> string" where
  "exampleSyntax v =
     (case v of
        VStr s \<Rightarrow> CHR 0x22 # s @ [CHR 0x22]
      | VBool b \<Rightarrow> (if b then ''true'' else ''false'')
      | _ \<Rightarrow> ''?'')"

fun kindTag :: "notifier \<Rightarrow> string" where
  "kindTag alertmanagerNotifier = ''alertmanager''"
| "kindTag dingDingNotifier = ''dingding''"
| "kindTag discordNotifier = ''discord''"
| "kindTag emailNotifier = ''email''"
| "kindTag googleChatNotifier = ''googlechat''"
| "kindTag kafkaNotifier = ''kafka''"
| "kindTag lineNotifier = ''line''"
| "kindTag oncallNotifier = ''oncall''"
| "kindTag opsGenieNotifier = ''opsgenie''"
| "kindTag pagerDutyNotifier = ''pagerduty''"
| "kindTag pushoverNotifier = ''pushover''"
| "kindTag sensugoNotifier = ''sensugo''"
| "kindTag slackNotifier = ''slack''"
| "kindTag teamsNotifier = ''teams''"
| "kindTag telegramNotifier = ''telegram''"
| "kindTag threemaNotifier = ''threema''"
| "kindTag victorOpsNotifier = ''victorops''"
| "kindTag webexNotifier = ''webex''"
| "kindTag webhookNotifier = ''webhook''"
| "kindTag wecomNotifier = ''wecom''"

definition exampleMeta :: "notifier \<Rightarrow> notifierMeta" where
  "exampleMeta n =
     \<lparr>field = kindTag n, typeStr = kindTag n, desc = [],
      secureFields = (if n = webhookNotifier then [''basic_auth_password''] else [])\<rparr>"

definition exampleUnpack :: "notifier \<Rightarrow> val \<Rightarrow> string \<Rightarrow> fault + EmbeddedContactPoint" where
  "exampleUnpack n raw nm =
     (case assertMap raw of
        Inl e \<Rightarrow> Inl e
      | Inr m \<Rightarrow>
          (case unpackCommonNotifierFields m of
             Inl e \<Rightarrow> Inl e
           | Inr (u, b, s) \<Rightarrow>
               Inr \<lparr>DisableResolveMessage = b, Name = nm, Settings = VMap s,
                    Type = Some (kindTag n), UID = u\<rparr>))"

definition examplePack ::
  "notifier \<Rightarrow> EmbeddedContactPoint \<Rightarrow> ResourceData \<Rightarrow> fault + error + val" where
  "examplePack n p d =
     (case packCarryForward \<lparr>meta = exampleMeta, pack = (\<lambda>n p d. Inl TypeAssertion),
             unpack = exampleUnpack\<rparr> n p d of
        Inl e \<Rightarrow> Inl e
      | Inr tf \<Rightarrow>
          (case packSettings exampleSyntax p of
             Inl e \<Rightarrow> Inl e
           | Inr s \<Rightarrow> Inr (Inr (VMap (AList.update ''settings'' (VMap s) tf)))))"

definition exampleMethods :: methods where
  "exampleMethods = \<lparr>meta = exampleMeta, pack = examplePack, unpack = exampleUnpack\<rparr>"

section \<open>The backend and the plugin runtime\<close>

text \<open>Diagnostics of the plugin SDK: a list of diagnostics, each an error or a warning;
  the empty list is success.\<close>

datatype severity = Error | Warning

datatype diagnostic = Diagnostic severity string

definition FromErr :: "error \<Rightarrow> diagnostic list" where
  "FromErr err = [Diagnostic Error (ErrorText err)]"

definition Errorf :: "string \<Rightarrow> diagnostic list" where
  "Errorf s = [Diagnostic Error s]"

fun isError :: "diagnostic \<Rightarrow> bool" where
  "isError (Diagnostic Error s) = True"
| "isError (Diagnostic Warning s) = False"

definition HasError :: "diagnostic list \<Rightarrow> bool" where
  "HasError ds = list_ex isError ds"

text \<open>The API client is a black box: each operation takes the state \<open>'b\<close> of the backend
  and returns its result, a value or an error, with the state afterwards. \<open>OrgID\<close> is the
  organization of the client.\<close>

record MuteTimeInterval =
  mtName :: string
  TimeIntervals :: "TimeInterval list option"

record 'b client =
  OrgID :: int
  GetContactpoints :: "string option \<Rightarrow> 'b \<Rightarrow> (error + EmbeddedContactPoint list) \<times> 'b"
  PostContactpoints :: "EmbeddedContactPoint \<Rightarrow> 'b \<Rightarrow> (error + EmbeddedContactPoint) \<times> 'b"
  PutContactpoint :: "string \<Rightarrow> EmbeddedContactPoint \<Rightarrow> 'b \<Rightarrow> (error + unit) \<times> 'b"
  DeleteContactpoints :: "string \<Rightarrow> 'b \<Rightarrow> (error + unit) \<times> 'b"
  GetMuteTiming :: "string \<Rightarrow> 'b \<Rightarrow> (error + MuteTimeInterval) \<times> 'b"
  PostMuteTiming :: "MuteTimeInterval \<Rightarrow> 'b \<Rightarrow> (error + MuteTimeInterval) \<times> 'b"
  PutMuteTiming :: "string \<Rightarrow> MuteTimeInterval \<Rightarrow> 'b \<Rightarrow> (error + unit) \<times> 'b"
  DeleteMuteTiming :: "string \<Rightarrow> 'b \<Rightarrow> (error + unit) \<times> 'b"

text \<open>The calls made are kept in a log beside the state of the backend, each with whether
  it failed.\<close>

datatype call =
    GetCall "string option"
  | PostCall EmbeddedContactPoint
  | PutCall string EmbeddedContactPoint
  | DeleteCall string
  | GetMuteCall string
  | PostMuteCall MuteTimeInterval
  | PutMuteCall string MuteTimeInterval
  | DeleteMuteCall string

record 'b world =
  backend :: 'b
  calls :: "(call \<times> bool) list"

definition perform :: "call \<Rightarrow> ('b \<Rightarrow> (error + 'a) \<times> 'b) \<Rightarrow> 'b world \<Rightarrow> (error + 'a) \<times> 'b world" where
  "perform c f w =
     (case f (backend w) of
        (r, b) \<Rightarrow> (r, \<lparr>backend = b, calls = calls w @ [(c, isl r)]\<rparr>))"

definition doGet :: "'b client \<Rightarrow> string option \<Rightarrow> 'b world \<Rightarrow> (error + EmbeddedContactPoint list) \<times> 'b world" where
  "doGet cl nm = perform (GetCall nm) (GetContactpoints cl nm)"

definition doPost :: "'b client \<Rightarrow> EmbeddedContactPoint \<Rightarrow> 'b world \<Rightarrow> (error + EmbeddedContactPoint) \<times> 'b world" where
  "doPost cl p = perform (PostCall p) (PostContactpoints cl p)"

definition doPut :: "'b client \<Rightarrow> string \<Rightarrow> EmbeddedContactPoint \<Rightarrow> 'b world \<Rightarrow> (error + unit) \<times> 'b world" where
  "doPut cl uid p = perform (PutCall uid p) (PutContactpoint cl uid p)"

definition doDelete :: "'b client \<Rightarrow> string \<Rightarrow> 'b world \<Rightarrow> (error + unit) \<times> 'b world" where
  "doDelete cl uid = perform (DeleteCall uid) (DeleteContactpoints cl uid)"

text \<open>Modelled from the spec: the helpers of the package \<open>common\<close> and of the provider that
  the two resources call are not among the sources.
  \<^item> \<open>IsNotFoundError\<close>: the structured "not found" of the API, the status 404 (spec 1).
  \<^item> \<open>WarnMissing\<close>: the soft warning that removes the resource from the tracked state
    (spec 7); the identifier is set to the empty string. The text of the warning is not
    specified.
  \<^item> \<open>CheckReadError\<close>: no error, go on; not found, the warning of \<open>WarnMissing\<close>; any
    other error is fatal (spec 7).
  \<^item> \<open>MakeOrgResourceID\<close>, \<open>SplitOrgResourceID\<close>: the identifier is the pair of the
    organization and the name (spec 6), written as the decimal organization, a colon and
    the name; an identifier without a colon has the organization 0.
  \<^item> \<open>OAPIClientFromNewOrgResource\<close>, \<open>OAPIClientFromExistingOrgResource\<close>: the
    organization is that of the data, respectively of the identifier, and that of the
    client when it is 0.\<close>

fun IsNotFoundError :: "error \<Rightarrow> bool" where
  "IsNotFoundError (RuntimeAPIError c s) = (c = 404)"
| "IsNotFoundError (ResponseError c s) = (c = 404)"
| "IsNotFoundError (OtherError s) = False"

definition WarnMissing :: "string \<Rightarrow> ResourceData \<Rightarrow> diagnostic list \<times> ResourceData" where
  "WarnMissing resourceType d =
     ([Diagnostic Warning (resourceType @ '' '' @ Id d @ '' no longer exists'')], d\<lparr>Id := []\<rparr>)"

definition CheckReadError ::
  "string \<Rightarrow> ResourceData \<Rightarrow> error option \<Rightarrow> diagnostic list \<times> bool \<times> ResourceData" where
  "CheckReadError resourceType d err =
     (case err of
        None \<Rightarrow> ([], False, d)
      | Some e \<Rightarrow>
          if \<not> IsNotFoundError e
          then (Errorf (''error reading '' @ resourceType @ '' with ID '' @ Id d @ '': '' @ ErrorText e),
                True, d)
          else (case WarnMissing resourceType d of (ds, d') \<Rightarrow> (ds, True, d')))"

definition digitVal :: "char \<Rightarrow> nat option" where
  "digitVal c = (if CHR ''0'' \<le> c \<and> c \<le> CHR ''9'' then Some (of_char c - 48) else None)"

fun parseNat :: "nat \<Rightarrow> string \<Rightarrow> nat option" where
  "parseNat acc [] = Some acc"
| "parseNat acc (c # cs) =
     (case digitVal c of None \<Rightarrow> None | Some v \<Rightarrow> parseNat (acc * 10 + v) cs)"

text \<open>\<open>strconv.ParseInt\<close> in base 10 with its error dropped: 0 for a string that is no
  number.\<close>

definition ParseInt :: "string \<Rightarrow> int" where
  "ParseInt s =
     (case s of
        [] \<Rightarrow> 0
      | c # cs \<Rightarrow>
          if c = CHR ''-'' \<or> c = CHR ''+'' then
            (if cs = [] then 0
             else case parseNat 0 cs of
                    None \<Rightarrow> 0
                  | Some n \<Rightarrow> if c = CHR ''-'' then - int n else int n)
          else (case parseNat 0 s of None \<Rightarrow> 0 | Some n \<Rightarrow> int n))"

definition MakeOrgResourceID :: "int \<Rightarrow> string \<Rightarrow> string" where
  "MakeOrgResourceID orgID resourceID = Sprint orgID @ '':'' @ resourceID"

definition SplitOrgResourceID :: "string \<Rightarrow> int \<times> string" where
  "SplitOrgResourceID ident =
     (if CHR '':'' \<in> set ident
      then (ParseInt (takeWhile (\<lambda>c. c \<noteq> CHR '':'') ident),
            tl (dropWhile (\<lambda>c. c \<noteq> CHR '':'') ident))
      else (0, ident))"

definition OAPIClientFromNewOrgResource :: "'b client \<Rightarrow> ResourceData \<Rightarrow> int" where
  "OAPIClientFromNewOrgResource cl d =
     (let orgID = ParseInt (orgIdAttr d) in if orgID = 0 then OrgID cl else orgID)"

definition OAPIClientFromExistingOrgResource :: "'b client \<Rightarrow> string \<Rightarrow> int \<times> string" where
  "OAPIClientFromExistingOrgResource cl ident =
     (case SplitOrgResourceID ident of
        (orgID, rest) \<Rightarrow> (if orgID = 0 then OrgID cl else orgID, rest))"

text \<open>Modelled from the spec: \<open>retry.RetryContext\<close> belongs to the plugin SDK. The function
  is tried again after a retryable error until the time is up (spec 4.4: retry with
  backoff up to a total budget); then, and after an error that is not retryable, the
  error is returned. Time is counted in milliseconds: \<open>wait i\<close> is the time from the
  start of the attempt \<open>i\<close> to the start of the next, at least one millisecond. The backoff
  is not specified, so \<open>wait\<close> is a parameter.\<close>

datatype 'a attempt =
    Succeeded 'a
  | RetryableError error
  | NonRetryableError error
  | Panicked fault

function retryLoop ::
  "nat \<Rightarrow> (nat \<Rightarrow> nat) \<Rightarrow> nat \<Rightarrow> nat \<Rightarrow> ('w \<Rightarrow> 'a attempt \<times> 'w) \<Rightarrow> 'w \<Rightarrow> (fault + error + 'a) \<times> 'w" where
  "retryLoop timeout wait elapsed i f w =
     (case f w of
        (Succeeded x, w') \<Rightarrow> (Inr (Inr x), w')
      | (NonRetryableError e, w') \<Rightarrow> (Inr (Inl e), w')
      | (Panicked e, w') \<Rightarrow> (Inl e, w')
      | (RetryableError e, w') \<Rightarrow>
          if timeout \<le> elapsed + max 1 (wait i) then (Inr (Inl e), w')
          else retryLoop timeout wait (elapsed + max 1 (wait i)) (Suc i) f w')"
  by pat_completeness auto
termination
  by (relation "measure (\<lambda>(timeout, wait, elapsed, i, f, w). timeout - elapsed)") auto

definition RetryContext ::
  "nat \<Rightarrow> (nat \<Rightarrow> nat) \<Rightarrow> ('w \<Rightarrow> 'a attempt \<times> 'w) \<Rightarrow> 'w \<Rightarrow> (fault + error + 'a) \<times> 'w" where
  "RetryContext timeout wait f w = retryLoop timeout wait 0 0 f w"

definition Minute :: nat where
  "Minute = 60 * 1000"

declare retryLoop.simps [simp del]

section \<open>Contact points: read, update, delete\<close>

text \<open>\<open>strings.Split s sep\<close> for a separator of one character.\<close>

fun Split :: "string \<Rightarrow> char \<Rightarrow> string list" where
  "Split [] sep = [[]]"
| "Split (c # cs) sep =
     (if c = sep then [] # Split cs sep
      else (case Split cs sep of [] \<Rightarrow> [[c]] | x # xs \<Rightarrow> (c # x) # xs))"

text \<open>The deprecated identifier of a contact point lists the UIDs of its notifiers. The
  loop over all the contact points keeps those whose UID is listed, in \<open>points\<close>, and
  compares the name of each with that of the first kept; \<open>i\<close> is the index in the payload.\<close>

definition differentName :: "EmbeddedContactPoint \<Rightarrow> EmbeddedContactPoint \<Rightarrow> error" where
  "differentName p q =
     OtherError (''contact point with UID '' @ UID p @ '' has a different name ('' @ Name p @
       '') than the contact point with UID '' @ UID q @ '' ('' @ Name q @ '')'')"

definition notFound :: "string \<Rightarrow> error" where
  "notFound uid = OtherError (''contact point with UID '' @ uid @ '' was not found'')"

fun matchUIDs ::
  "string list \<Rightarrow> nat \<Rightarrow> EmbeddedContactPoint list \<Rightarrow> EmbeddedContactPoint list \<Rightarrow>
     error + EmbeddedContactPoint list" where
  "matchUIDs uids i [] points = Inr points"
| "matchUIDs uids i (p # payload) points =
     (if UID p \<notin> set uids then matchUIDs uids (Suc i) payload points
      else if i > 0 \<and> Name p \<noteq> Name (hd (points @ [p])) then Inl (differentName p (hd (points @ [p])))
      else matchUIDs uids (Suc i) payload (points @ [p]))"

text \<open>The last loop of the import ranges over the Go map of the listed UIDs: \<open>order\<close>
  gives the order of that range for the keys of the map.\<close>

definition legacyPoints ::
  "'b client \<Rightarrow> (string list \<Rightarrow> string list) \<Rightarrow> ResourceData \<Rightarrow> 'b world \<Rightarrow>
     (error + EmbeddedContactPoint list) \<times> 'b world" where
  "legacyPoints cl order d w =
     (let uids = Split (Id d) (CHR '';'') in
      case doGet cl None w of
        (Inl err, w') \<Rightarrow> (Inl err, w')
      | (Inr payload, w') \<Rightarrow>
          (case matchUIDs uids 0 payload [] of
             Inl err \<Rightarrow> (Inl err, w')
           | Inr points \<Rightarrow>
               (case find (\<lambda>uid. uid \<notin> UID ` set points) (order (remdups uids)) of
                  Some uid \<Rightarrow> (Inl (notFound uid), w')
                | None \<Rightarrow> (Inr points, w'))))"

text \<open>The functions of the resource return diagnostics, unless a type assertion or a nil
  pointer panics, together with the resource data and the world as they have become.\<close>

definition readContactPoint ::
  "methods \<Rightarrow> 'b client \<Rightarrow> (string list \<Rightarrow> string list) \<Rightarrow> ResourceData \<Rightarrow> 'b world \<Rightarrow>
     (fault + diagnostic list) \<times> ResourceData \<times> 'b world" where
  "readContactPoint N cl order d w =
     (case OAPIClientFromExistingOrgResource cl (Id d) of
        (orgID, nm) \<Rightarrow>
     (case doGet cl (Some nm) w of
        (Inl err, w1) \<Rightarrow> (Inr (FromErr err), d, w1)
      | (Inr found, w1) \<Rightarrow>
     (case (if found = [] then legacyPoints cl order d w1 else (Inr found, w1)) of
        (Inl err, w2) \<Rightarrow> (Inr (FromErr err), d, w2)
      | (Inr points, w2) \<Rightarrow>
          if points = [] then
            (case WarnMissing ''contact point'' d of (ds, d') \<Rightarrow> (Inr ds, d', w2))
          else
            (case packContactPoints N points d of
               (Inl e, d') \<Rightarrow> (Inl e, d', w2)
             | (Inr (Inl err), d') \<Rightarrow> (Inr (FromErr err), d', w2)
             | (Inr (Inr u), d') \<Rightarrow>
                 (Inr [],
                  d'\<lparr>orgIdAttr := Sprint orgID,
                     Id := MakeOrgResourceID orgID (Name (hd points))\<rparr>,
                  w2)))))"

text \<open>The closure given to \<open>RetryContext\<close>: one create call. The assertion
  \<open>err.(*runtime.APIError)\<close> is made only in an organization above 1, and panics on an
  error of another type.\<close>

definition createAttempt ::
  "'b client \<Rightarrow> int \<Rightarrow> EmbeddedContactPoint \<Rightarrow> 'b world \<Rightarrow> string attempt \<times> 'b world" where
  "createAttempt cl orgID gf w =
     (case doPost cl gf w of
        (Inl err, w') \<Rightarrow>
          (if orgID > 1 then
             (case err of
                RuntimeAPIError c s \<Rightarrow> if c = 500 then RetryableError err else NonRetryableError err
              | _ \<Rightarrow> Panicked TypeAssertion)
           else NonRetryableError err, w')
      | (Inr resp, w') \<Rightarrow> (Succeeded (UID resp), w'))"

text \<open>The world after a create call that has \<open>failed\<close> or not and has left the backend in
  \<open>b\<close>.\<close>

definition posted :: "'b world \<Rightarrow> EmbeddedContactPoint \<Rightarrow> bool \<Rightarrow> 'b \<Rightarrow> 'b world" where
  "posted w gf failed b = \<lparr>backend = b, calls = calls w @ [(PostCall gf, failed)]\<rparr>"

text \<open>The loop over the declared instances. It returns the instances with their UIDs
  written into \<open>tfState\<close> and the processed UIDs, or the diagnostics of the first failure.\<close>

fun applyPoints ::
  "'b client \<Rightarrow> int \<Rightarrow> (nat \<Rightarrow> nat) \<Rightarrow> statePair list \<Rightarrow> string list \<Rightarrow> 'b world \<Rightarrow>
     (fault + diagnostic list + statePair list \<times> string list) \<times> 'b world" where
  "applyPoints cl orgID wait [] processed w = (Inr (Inr ([], processed)), w)"
| "applyPoints cl orgID wait (p # ps) processed w =
     (case assertString (case map_of (tfState p) ''uid'' of Some v \<Rightarrow> v | None \<Rightarrow> VNil) of
        Inl e \<Rightarrow> (Inl e, w)
      | Inr uid \<Rightarrow>
     (case (if uid \<noteq> [] then
              (case doPut cl uid (gfState p) w of
                 (Inl err, w') \<Rightarrow> (Inr (Inl err), w')
               | (Inr u, w') \<Rightarrow> (Inr (Inr uid), w'))
            else RetryContext (2 * Minute) wait (createAttempt cl orgID (gfState p)) w) of
        (Inl e, w') \<Rightarrow> (Inl e, w')
      | (Inr (Inl err), w') \<Rightarrow> (Inr (Inl (FromErr err)), w')
      | (Inr (Inr uid'), w') \<Rightarrow>
          (case applyPoints cl orgID wait ps (processed @ [uid']) w' of
             (Inr (Inr (ps', done)), w'') \<Rightarrow>
               (Inr (Inr (p\<lparr>tfState := AList.update ''uid'' (VStr uid') (tfState p)\<rparr> # ps', done)), w'')
           | r \<Rightarrow> r)))"

definition removeFailed :: "EmbeddedContactPoint \<Rightarrow> error \<Rightarrow> diagnostic list" where
  "removeFailed p err =
     Errorf (''failed to remove contact point notifier with UID '' @ UID p @
       '' from contact point '' @ Name p @ '': '' @ ErrorText err)"

fun deleteStale ::
  "'b client \<Rightarrow> string list \<Rightarrow> EmbeddedContactPoint list \<Rightarrow> 'b world \<Rightarrow> diagnostic list \<times> 'b world" where
  "deleteStale cl processed [] w = ([], w)"
| "deleteStale cl processed (p # ps) w =
     (if UID p \<in> set processed then deleteStale cl processed ps w
      else (case doDelete cl (UID p) w of
              (Inl err, w') \<Rightarrow> (removeFailed p err, w')
            | (Inr u, w') \<Rightarrow> deleteStale cl processed ps w'))"

definition fetchCurrent ::
  "'b client \<Rightarrow> ResourceData \<Rightarrow> 'b world \<Rightarrow> (error + EmbeddedContactPoint list) \<times> 'b world" where
  "fetchCurrent cl d w =
     (if IsNewResource d then (Inr [], w)
      else (case doGet cl (Some (nameAttr d)) w of
              (Inl err, w') \<Rightarrow> if \<not> IsNotFoundError err then (Inl err, w') else (Inr [], w')
            | (Inr payload, w') \<Rightarrow> (Inr payload, w')))"

definition updateContactPoint ::
  "methods \<Rightarrow> 'b client \<Rightarrow> (nat \<Rightarrow> nat) \<Rightarrow> (string list \<Rightarrow> string list) \<Rightarrow> ResourceData \<Rightarrow> 'b world \<Rightarrow>
     (fault + diagnostic list) \<times> ResourceData \<times> 'b world" where
  "updateContactPoint N cl wait order d w =
     (let orgID = OAPIClientFromNewOrgResource cl d in
      case unpackContactPoints N d of
        Inl e \<Rightarrow> (Inl e, d, w)
      | Inr ps \<Rightarrow>
     (case fetchCurrent cl d w of
        (Inl err, w1) \<Rightarrow> (Inr (FromErr err), d, w1)
      | (Inr currentPoints, w1) \<Rightarrow>
     (case applyPoints cl orgID wait ps [] w1 of
        (Inl e, w2) \<Rightarrow> (Inl e, d, w2)
      | (Inr (Inl ds), w2) \<Rightarrow> (Inr ds, d, w2)
      | (Inr (Inr (ps', processedUIDs)), w2) \<Rightarrow>
     (case deleteStale cl processedUIDs currentPoints w2 of
        (ds, w3) \<Rightarrow>
          if ds \<noteq> [] then (Inr ds, d, w3)
          else readContactPoint N cl order
                 (d\<lparr>Id := MakeOrgResourceID orgID (nameAttr d)\<rparr>) w3))))"

fun deleteEach :: "'b client \<Rightarrow> EmbeddedContactPoint list \<Rightarrow> 'b world \<Rightarrow> diagnostic list \<times> 'b world" where
  "deleteEach cl [] w = ([], w)"
| "deleteEach cl (cp # cps) w =
     (case doDelete cl (UID cp) w of
        (Inl err, w') \<Rightarrow> (FromErr err, w')
      | (Inr u, w') \<Rightarrow> deleteEach cl cps w')"

definition deleteContactPoint ::
  "'b client \<Rightarrow> ResourceData \<Rightarrow> 'b world \<Rightarrow> diagnostic list \<times> ResourceData \<times> 'b world" where
  "deleteContactPoint cl d w =
     (case OAPIClientFromExistingOrgResource cl (Id d) of
        (orgID, nm) \<Rightarrow>
     (case doGet cl (Some nm) w of
        (resp, w1) \<Rightarrow>
     (case CheckReadError ''contact point'' d (case resp of Inl err \<Rightarrow> Some err | Inr r \<Rightarrow> None) of
        (ds, shouldReturn, d1) \<Rightarrow>
          if shouldReturn then (ds, d1, w1)
          else (case deleteEach cl (case resp of Inl err \<Rightarrow> [] | Inr payload \<Rightarrow> payload) w1 of
                  (ds', w2) \<Rightarrow> (ds', d1, w2)))))"

section \<open>Mute timings: read, create, update, delete\<close>

definition storeIntervals :: "val list option \<Rightarrow> val list" where
  "storeIntervals v = (case v of None \<Rightarrow> [] | Some l \<Rightarrow> l)"

definition readMuteTiming ::
  "'b client \<Rightarrow> ResourceData \<Rightarrow> 'b world \<Rightarrow> diagnostic list \<times> ResourceData \<times> 'b world" where
  "readMuteTiming cl d w =
     (case OAPIClientFromExistingOrgResource cl (Id d) of
        (orgID, nm) \<Rightarrow>
     (case perform (GetMuteCall nm) (GetMuteTiming cl nm) w of
        (resp, w1) \<Rightarrow>
     (case CheckReadError ''mute timing'' d (case resp of Inl err \<Rightarrow> Some err | Inr r \<Rightarrow> None) of
        (ds, shouldReturn, d1) \<Rightarrow>
          if shouldReturn then (ds, d1, w1)
          else (case resp of
                  Inl err \<Rightarrow> (ds, d1, w1)
                | Inr mt \<Rightarrow>
                    ([],
                     d1\<lparr>Id := MakeOrgResourceID orgID (mtName mt), orgIdAttr := Sprint orgID,
                        nameAttr := mtName mt,
                        intervalsAttr := storeIntervals (packIntervals (TimeIntervals mt))\<rparr>,
                     w1)))))"

definition createMuteTiming ::
  "'b client \<Rightarrow> ResourceData \<Rightarrow> 'b world \<Rightarrow> (fault + diagnostic list) \<times> ResourceData \<times> 'b world" where
  "createMuteTiming cl d w =
     (let orgID = OAPIClientFromNewOrgResource cl d in
      case unpackIntervals (Some (intervalsAttr d)) of
        Inl e \<Rightarrow> (Inl e, d, w)
      | Inr tis \<Rightarrow>
          (let body = \<lparr>mtName = nameAttr d, TimeIntervals = tis\<rparr> in
           case perform (PostMuteCall body) (PostMuteTiming cl body) w of
             (Inl err, w1) \<Rightarrow> (Inr (FromErr err), d, w1)
           | (Inr resp, w1) \<Rightarrow>
               (case readMuteTiming cl (d\<lparr>Id := MakeOrgResourceID orgID (mtName resp)\<rparr>) w1 of
                  (ds, d', w2) \<Rightarrow> (Inr ds, d', w2))))"

definition updateMuteTiming ::
  "'b client \<Rightarrow> ResourceData \<Rightarrow> 'b world \<Rightarrow> (fault + diagnostic list) \<times> ResourceData \<times> 'b world" where
  "updateMuteTiming cl d w =
     (case OAPIClientFromExistingOrgResource cl (Id d) of
        (orgID, nm) \<Rightarrow>
     (case unpackIntervals (Some (intervalsAttr d)) of
        Inl e \<Rightarrow> (Inl e, d, w)
      | Inr tis \<Rightarrow>
          (let body = \<lparr>mtName = nm, TimeIntervals = tis\<rparr> in
           case perform (PutMuteCall nm body) (PutMuteTiming cl nm body) w of
             (Inl err, w1) \<Rightarrow> (Inr (FromErr err), d, w1)
           | (Inr u, w1) \<Rightarrow>
               (case readMuteTiming cl d w1 of (ds, d', w2) \<Rightarrow> (Inr ds, d', w2)))))"

definition deleteMuteTiming ::
  "'b client \<Rightarrow> ResourceData \<Rightarrow> 'b world \<Rightarrow> diagnostic list \<times> ResourceData \<times> 'b world" where
  "deleteMuteTiming cl d w =
     (case OAPIClientFromExistingOrgResource cl (Id d) of
        (orgID, nm) \<Rightarrow>
     (case perform (DeleteMuteCall nm) (DeleteMuteTiming cl nm) w of
        (resp, w1) \<Rightarrow>
     (case CheckReadError ''mute timing'' d (case resp of Inl err \<Rightarrow> Some err | Inr r \<Rightarrow> None) of
        (ds, shouldReturn, d1) \<Rightarrow> (ds, d1, w1))))"

section \<open>A backend in memory\<close>

text \<open>Modelled from the spec: the backend is a remote service. This one keeps the contract
  of spec 6 in memory: the contact points are a list of records; a listing returns those
  of the name, or all; a create call gives the record a UID that no record has, and not
  the empty one; an update call replaces the record of the UID and fails with status 404
  when there is none; a delete call removes the records of the UID. To observe the retry
  policy, the create calls first fail with the errors of \<open>postFailures\<close>, one after the
  other. The mute timings are a list of records with distinct names.\<close>

record memory =
  store :: "EmbeddedContactPoint list"
  postFailures :: "error list"
  timings :: "MuteTimeInterval list"

definition freshUID :: "EmbeddedContactPoint list \<Rightarrow> string" where
  "freshUID s = replicate (Suc (foldr (\<lambda>p m. max (length (UID p)) m) s 0)) (CHR ''u'')"

definition memGet :: "string option \<Rightarrow> memory \<Rightarrow> (error + EmbeddedContactPoint list) \<times> memory" where
  "memGet nm b =
     (Inr (case nm of None \<Rightarrow> store b | Some n \<Rightarrow> filter (\<lambda>p. Name p = n) (store b)), b)"

definition memPost :: "EmbeddedContactPoint \<Rightarrow> memory \<Rightarrow> (error + EmbeddedContactPoint) \<times> memory" where
  "memPost p b =
     (case postFailures b of
        e # es \<Rightarrow> (Inl e, b\<lparr>postFailures := es\<rparr>)
      | [] \<Rightarrow> (Inr (p\<lparr>UID := freshUID (store b)\<rparr>),
               b\<lparr>store := store b @ [p\<lparr>UID := freshUID (store b)\<rparr>]\<rparr>))"

definition memPut :: "string \<Rightarrow> EmbeddedContactPoint \<Rightarrow> memory \<Rightarrow> (error + unit) \<times> memory" where
  "memPut uid p b =
     (if list_ex (\<lambda>q. UID q = uid) (store b)
      then (Inr (), b\<lparr>store := map (\<lambda>q. if UID q = uid then p\<lparr>UID := uid\<rparr> else q) (store b)\<rparr>)
      else (Inl (ResponseError 404 ''contact point not found''), b))"

definition memDelete :: "string \<Rightarrow> memory \<Rightarrow> (error + unit) \<times> memory" where
  "memDelete uid b = (Inr (), b\<lparr>store := filter (\<lambda>q. UID q \<noteq> uid) (store b)\<rparr>)"

definition memGetMute :: "string \<Rightarrow> memory \<Rightarrow> (error + MuteTimeInterval) \<times> memory" where
  "memGetMute nm b =
     (case find (\<lambda>t. mtName t = nm) (timings b) of
        None \<Rightarrow> (Inl (ResponseError 404 ''mute timing not found''), b)
      | Some t \<Rightarrow> (Inr t, b))"

definition memPostMute :: "MuteTimeInterval \<Rightarrow> memory \<Rightarrow> (error + MuteTimeInterval) \<times> memory" where
  "memPostMute t b =
     (if list_ex (\<lambda>x. mtName x = mtName t) (timings b)
      then (Inl (ResponseError 400 ''mute timing exists''), b)
      else (Inr t, b\<lparr>timings := timings b @ [t]\<rparr>))"

definition memPutMute :: "string \<Rightarrow> MuteTimeInterval \<Rightarrow> memory \<Rightarrow> (error + unit) \<times> memory" where
  "memPutMute nm t b =
     (if list_ex (\<lambda>x. mtName x = nm) (timings b)
      then (Inr (), b\<lparr>timings := map (\<lambda>x. if mtName x = nm then t else x) (timings b)\<rparr>)
      else (Inl (ResponseError 404 ''mute timing not found''), b))"

definition memDeleteMute :: "string \<Rightarrow> memory \<Rightarrow> (error + unit) \<times> memory" where
  "memDeleteMute nm b =
     (if list_ex (\<lambda>x. mtName x = nm) (timings b)
      then (Inr (), b\<lparr>timings := filter (\<lambda>x. mtName x \<noteq> nm) (timings b)\<rparr>)
      else (Inl (ResponseError 404 ''mute timing not found''), b))"

definition memoryClient :: "int \<Rightarrow> memory client" where
  "memoryClient org =
     \<lparr>OrgID = org, GetContactpoints = memGet, PostContactpoints = memPost,
      PutContactpoint = memPut, DeleteContactpoints = memDelete, GetMuteTiming = memGetMute,
      PostMuteTiming = memPostMute, PutMuteTiming = memPutMute,
      DeleteMuteTiming = memDeleteMute\<rparr>"

section \<open>Data for the examples\<close>

text \<open>Two records of the contact point \<open>ops\<close>, a declared instance, resource data without
  instances, and a world with an empty log.\<close>

definition pointA :: EmbeddedContactPoint where
  "pointA = \<lparr>DisableResolveMessage = False, Name = ''ops'',
     Settings = VMap [(''url'', VStr ''http://a'')], Type = Some ''webhook'', UID = ''A''\<rparr>"

definition pointC :: EmbeddedContactPoint where
  "pointC = \<lparr>DisableResolveMessage = False, Name = ''ops'', Settings = VMap [],
     Type = Some ''slack'', UID = ''C''\<rparr>"

definition declared :: "string \<Rightarrow> string \<Rightarrow> val" where
  "declared uid url =
     VMap [(''uid'', VStr uid), (''disable_resolve_message'', VBool False),
           (''settings'', VMap [(''url'', VStr url)])]"

definition dataOf :: "string \<Rightarrow> bool \<Rightarrow> string \<Rightarrow> (string \<Rightarrow> val list) \<Rightarrow> ResourceData" where
  "dataOf ident new org insts =
     \<lparr>Id = ident, IsNewResource = new, nameAttr = ''ops'', orgIdAttr = org, intervalsAttr = [],
      instances = insts\<rparr>"

definition worldOf :: "EmbeddedContactPoint list \<Rightarrow> error list \<Rightarrow> memory world" where
  "worldOf s fs = \<lparr>backend = \<lparr>store = s, postFailures = fs, timings = []\<rparr>, calls = []\<rparr>"

text \<open>A client whose listings and delete calls answer "not found".\<close>

definition goneClient :: "memory client" where
  "goneClient =
     (memoryClient 1)
       \<lparr>GetContactpoints := (\<lambda>nm b. (Inl (ResponseError 404 ''not found''), b)),
        DeleteContactpoints := (\<lambda>uid b. (Inl (ResponseError 404 ''not found''), b))\<rparr>"

text \<open>The resource data of a mute timing that the backend does not have.\<close>

definition nightly :: ResourceData where
  "nightly = \<lparr>Id = ''1:nightly'', IsNewResource = False, nameAttr = ''nightly'', orgIdAttr = ''1'',
      intervalsAttr = [], instances = (\<lambda>f. [])\<rparr>"

text \<open>A new contact point with one declared slack notifier, the pair it unpacks to, the
  error of a backend that is not ready, and a client whose create calls always fail with
  it.\<close>

definition slackOnly :: "string \<Rightarrow> ResourceData" where
  "slackOnly org = dataOf [] True org (\<lambda>f. if f = ''slack'' then [declared [] ''http://c''] else [])"

definition slackPair :: statePair where
  "slackPair =
     \<lparr>tfState = [(''uid'', VStr []), (''disable_resolve_message'', VBool False),
                 (''settings'', VMap [(''url'', VStr ''http://c'')])],
      gfState = \<lparr>DisableResolveMessage = False, Name = ''ops'',
                  Settings = VMap [(''url'', VStr ''http://c'')], Type = Some ''slack'', UID = []\<rparr>\<rparr>"

definition boom :: error where
  "boom = RuntimeAPIError 500 ''alertmanager not ready''"

definition brokenClient :: "memory client" where
  "brokenClient = (memoryClient 2)\<lparr>PostContactpoints := (\<lambda>p b. (Inl boom, b))\<rparr>"

text \<open>A new contact point with a declared slack notifier and a declared webhook notifier,
  none with a UID, the pairs it unpacks to, and a record of another contact point.\<close>

definition bothNew :: ResourceData where
  "bothNew = dataOf [] True ''1''
     (\<lambda>f. if f = ''slack'' then [declared [] ''http://c'']
          else if f = ''webhook'' then [declared [] ''http://b''] else [])"

definition newPairs :: "statePair list" where
  "newPairs =
     [slackPair,
      \<lparr>tfState = [(''uid'', VStr []), (''disable_resolve_message'', VBool False),
                 (''settings'', VMap [(''url'', VStr ''http://b'')])],
       gfState = \<lparr>DisableResolveMessage = False, Name = ''ops'',
                  Settings = VMap [(''url'', VStr ''http://b'')], Type = Some ''webhook'', UID = []\<rparr>\<rparr>]"

definition elsewhere :: EmbeddedContactPoint where
  "elsewhere = \<lparr>DisableResolveMessage = False, Name = ''night'', Settings = VMap [],
     Type = Some ''email'', UID = ''N''\<rparr>"

text \<open>The error of a create call refused with status 400, which the client returns as the
  typed response and not as a \<open>*runtime.APIError\<close>.\<close>

definition badRequest :: error where
  "badRequest = ResponseError 400 ''bad request''"



section \<open>The reconciliation against the reference backend\<close>

text \<open>What the loop of \<open>updateContactPoint\<close> does for one declared instance is decided by
  the \<open>uid\<close> of its declared form: \<open>declaredUID\<close> is that string (empty when there is
  none), \<open>hasUID\<close> says that the declared form holds a string there (the type assertion of
  the loop succeeds), \<open>applyCall\<close> is the call the loop makes for the instance and \<open>withUID\<close>
  the pair with the \<open>uid\<close> that the loop writes back.\<close>

definition declaredUID :: "statePair \<Rightarrow> string" where
  "declaredUID p = (case map_of (tfState p) ''uid'' of Some (VStr u) \<Rightarrow> u | _ \<Rightarrow> [])"

definition hasUID :: "statePair \<Rightarrow> bool" where
  "hasUID p = (case map_of (tfState p) ''uid'' of Some (VStr u) \<Rightarrow> True | _ \<Rightarrow> False)"

definition applyCall :: "statePair \<Rightarrow> call" where
  "applyCall p =
     (if declaredUID p \<noteq> [] then PutCall (declaredUID p) (gfState p) else PostCall (gfState p))"

definition withUID :: "string \<Rightarrow> statePair \<Rightarrow> statePair" where
  "withUID u p = p\<lparr>tfState := AList.update ''uid'' (VStr u) (tfState p)\<rparr>"

text \<open>The effect of the loop on the store of the reference backend: an update replaces the
  record of the UID, a create appends the record under a fresh UID. \<open>memApply\<close> returns the
  store and the processed UIDs.\<close>

definition memReplace :: "string \<Rightarrow> EmbeddedContactPoint \<Rightarrow> EmbeddedContactPoint list \<Rightarrow> EmbeddedContactPoint list" where
  "memReplace uid p s = map (\<lambda>q. if UID q = uid then p\<lparr>UID := uid\<rparr> else q) s"

fun memApply :: "EmbeddedContactPoint list \<Rightarrow> statePair list \<Rightarrow> EmbeddedContactPoint list \<times> string list" where
  "memApply s [] = (s, [])"
| "memApply s (p # ps) =
     (if declaredUID p \<noteq> [] then
        (case memApply (memReplace (declaredUID p) (gfState p) s) ps of
           (s', us) \<Rightarrow> (s', declaredUID p # us))
      else
        (case memApply (s @ [(gfState p)\<lparr>UID := freshUID s\<rparr>]) ps of
           (s', us) \<Rightarrow> (s', freshUID s # us)))"

section \<open>The log of calls\<close>

lemma perform_eq:
  "f (backend w) = (r, b) \<Longrightarrow> perform c f w = (r, \<lparr>backend = b, calls = calls w @ [(c, isl r)]\<rparr>)"
  by (simp add: perform_def)

section \<open>Contact points: the secure fields\<close>

lemma packSecureFields_lookup:
  "packSecureFields tf st ks = Inr packed \<Longrightarrow>
   map_of packed k =
     (if k \<in> set ks \<and> lookupNonNil (case st of None \<Rightarrow> [] | Some m \<Rightarrow> m) k \<noteq> None
      then lookupNonNil (case st of None \<Rightarrow> [] | Some m \<Rightarrow> m) k else map_of tf k)"
proof (induction ks arbitrary: tf)
  case Nil
  then show ?case by simp
next
  case (Cons a ks)
  let ?m = "case st of None \<Rightarrow> [] | Some m \<Rightarrow> m"
  show ?case
  proof (cases "lookupNonNil ?m a")
    case None
    with Cons.prems have "packSecureFields tf st ks = Inr packed" by simp
    from Cons.IH [OF this] None show ?thesis by auto
  next
    case (Some v)
    with Cons.prems obtain s where v: "v = VStr s"
      and r: "packSecureFields (AList.update a (VStr s) tf) st ks = Inr packed"
      by (cases v) (auto split: sum.splits)
    from Cons.IH [OF r] Some v show ?thesis by (auto simp: update_conv')
  qed
qed

lemma findConfig_found:
  "findConfig pts uid = Inr st \<Longrightarrow>
   (case st of
      None \<Rightarrow> \<forall>cfg. VMap cfg \<in> set pts \<longrightarrow> map_of cfg ''uid'' \<noteq> Some (VStr uid)
    | Some cfg \<Rightarrow> VMap cfg \<in> set pts \<and> map_of cfg ''uid'' = Some (VStr uid))"
proof (induction pts)
  case Nil
  then show ?case by auto
next
  case (Cons pt pts)
  from Cons.prems obtain c where c: "pt = VMap c" by (cases pt) auto
  show ?case
  proof (cases "map_of c ''uid'' = Some (VStr uid)")
    case True
    with Cons.prems c show ?thesis by auto
  next
    case False
    with Cons.prems c have "findConfig pts uid = Inr st" by simp
    from Cons.IH [OF this] False c show ?thesis by (auto split: option.splits)
  qed
qed

text \<open>
  C4. In the packed form of a record, a field \<open>k\<close> of the kind's \<open>secureFields\<close> is the
  field \<open>k\<close> of the declared entry of the kind whose \<open>uid\<close> is the UID of the record, the
  first such entry of the resource data; it is absent when that entry does not have it and
  when there is no such entry. The settings of the record play no part.
\<close>

theorem secure_fields_carried_forward:
  assumes ok: "packCarryForward N n p d = Inr packed"
    and k: "k \<in> set (secureFields (meta N n))" "k \<noteq> ''uid''" "k \<noteq> ''disable_resolve_message''"
  shows "\<exists>st. getNotifierConfigFromStateWithUID N d n (UID p) = Inr st
      \<and> (st = None \<longrightarrow>
           (\<forall>cfg. VMap cfg \<in> set (instances d (field (meta N n))) \<longrightarrow>
                  map_of cfg ''uid'' \<noteq> Some (VStr (UID p)))
           \<and> map_of packed k = None)
      \<and> (\<forall>cfg. st = Some cfg \<longrightarrow>
           VMap cfg \<in> set (instances d (field (meta N n)))
           \<and> map_of cfg ''uid'' = Some (VStr (UID p))
           \<and> map_of packed k = lookupNonNil cfg k)
      \<and> packCarryForward N n (p\<lparr>Settings := s\<rparr>) d = Inr packed"
proof -
  from ok obtain st where st: "getNotifierConfigFromStateWithUID N d n (UID p) = Inr st"
    and ps: "packSecureFields (packCommonNotifierFields p) st (secureFields (meta N n)) = Inr packed"
    by (auto simp: packCarryForward_def split: sum.splits)
  have look: "map_of packed k =
      (if lookupNonNil (case st of None \<Rightarrow> [] | Some m \<Rightarrow> m) k \<noteq> None
       then lookupNonNil (case st of None \<Rightarrow> [] | Some m \<Rightarrow> m) k else None)"
    using packSecureFields_lookup [OF ps, of k] k by (simp add: packCommonNotifierFields_def)
  have f: "case st of
      None \<Rightarrow> \<forall>cfg. VMap cfg \<in> set (instances d (field (meta N n))) \<longrightarrow>
                map_of cfg ''uid'' \<noteq> Some (VStr (UID p))
    | Some cfg \<Rightarrow> VMap cfg \<in> set (instances d (field (meta N n))) \<and>
                map_of cfg ''uid'' = Some (VStr (UID p))"
  proof (cases "GetOk d (field (meta N n))")
    case None
    with st show ?thesis
      by (auto simp: getNotifierConfigFromStateWithUID_def GetOk_def split: if_splits)
  next
    case (Some pts)
    with st have "findConfig (instances d (field (meta N n))) (UID p) = Inr st"
      by (auto simp: getNotifierConfigFromStateWithUID_def GetOk_def split: if_splits)
    from findConfig_found [OF this] show ?thesis .
  qed
  have c: "packCommonNotifierFields (p\<lparr>Settings := s\<rparr>) = packCommonNotifierFields p"
    by (simp add: packCommonNotifierFields_def)
  have s: "packCarryForward N n (p\<lparr>Settings := s\<rparr>) d = Inr packed"
    using ok unfolding packCarryForward_def c by simp
  from st look f s show ?thesis
    by (cases st) (auto simp: lookupNonNil_def)
qed

theorem secure_fields_carried_forward_witness:
  "\<exists>packed. packCarryForward exampleMethods webhookNotifier
       \<lparr>DisableResolveMessage = False, Name = ''ops'',
        Settings = VMap [(''basic_auth_password'', VStr ''[REDACTED]'')],
        Type = Some ''webhook'', UID = ''u1''\<rparr>
       \<lparr>Id = ''1:ops'', IsNewResource = False, nameAttr = ''ops'', orgIdAttr = ''1'', intervalsAttr = [],
        instances = (\<lambda>f. if f = ''webhook'' then
          [VMap [(''uid'', VStr ''u0''), (''basic_auth_password'', VStr ''other'')],
           VMap [(''uid'', VStr ''u1''), (''basic_auth_password'', VStr ''s3cret'')]] else [])\<rparr>
     = Inr packed \<and> map_of packed ''basic_auth_password'' = Some (VStr ''s3cret'')"
proof -
  let ?p = "\<lparr>DisableResolveMessage = False, Name = ''ops'',
        Settings = VMap [(''basic_auth_password'', VStr ''[REDACTED]'')],
        Type = Some ''webhook'', UID = ''u1''\<rparr>"
  let ?d = "\<lparr>Id = ''1:ops'', IsNewResource = False, nameAttr = ''ops'', orgIdAttr = ''1'', intervalsAttr = [],
        instances = (\<lambda>f. if f = ''webhook'' then
          [VMap [(''uid'', VStr ''u0''), (''basic_auth_password'', VStr ''other'')],
           VMap [(''uid'', VStr ''u1''), (''basic_auth_password'', VStr ''s3cret'')]] else [])\<rparr>"
  have g: "getNotifierConfigFromStateWithUID exampleMethods ?d webhookNotifier ''u1'' =
     Inr (Some [(''uid'', VStr ''u1''), (''basic_auth_password'', VStr ''s3cret'')])"
    by code_simp
  have ok: "packCarryForward exampleMethods webhookNotifier ?p ?d =
     Inr [(''uid'', VStr ''u1''), (''disable_resolve_message'', VBool False),
          (''basic_auth_password'', VStr ''s3cret'')]"
    by code_simp
  have k: "''basic_auth_password'' \<in> set (secureFields (meta exampleMethods webhookNotifier))"
    "''basic_auth_password'' \<noteq> ''uid''" "''basic_auth_password'' \<noteq> ''disable_resolve_message''"
    by (simp_all add: exampleMethods_def exampleMeta_def)
  from secure_fields_carried_forward [OF ok k, of "VNil"] g
  have "map_of [(''uid'', VStr ''u1''), (''disable_resolve_message'', VBool False),
          (''basic_auth_password'', VStr ''s3cret'')] ''basic_auth_password'' = Some (VStr ''s3cret'')"
    by (simp add: lookupNonNil_def)
  with ok show ?thesis by blast
qed

section \<open>Contact points: the settings\<close>

lemma map_of_filter_distinct:
  "distinct (map fst m) \<Longrightarrow>
   map_of (filter P m) k = (case map_of m k of None \<Rightarrow> None | Some v \<Rightarrow> if P (k, v) then Some v else None)"
proof (induction m)
  case Nil
  then show ?case by simp
next
  case (Cons e m)
  obtain a b where e: "e = (a, b)" by (cases e)
  from Cons.prems e have "map_of m a = None" by (simp add: map_of_eq_None_iff)
  with Cons e show ?case by (auto split: option.splits)
qed

lemma map_of_rendered:
  "map_of (map (\<lambda>(k, v). (k, f v)) m) k = map_option f (map_of m k)"
  by (induction m) auto

text \<open>
  C5, as amended. The pass that removes the keys whose value is the empty string is in
  \<open>unpackPointConfig\<close>, on the way to the backend: of the settings a kind has unpacked it
  removes exactly those keys. \<open>packSettings\<close>, on the read path, removes nothing: the keys
  of the packed settings are those of the remote settings, and the value of each is the
  string that \<open>fmt.Sprintf("%#v")\<close> gives for the remote value, whatever that function is;
  so a key whose remote value is the empty string is in the packed settings.
\<close>

theorem settings_pruned_on_unpack_only:
  "(unpack N n raw nm = Inr pt \<and> Settings pt = VMap m \<and> distinct (map fst m) \<longrightarrow>
      (\<exists>m'. unpackPointConfig N n raw nm = Inr (pt\<lparr>Settings := VMap m'\<rparr>) \<and>
            (\<forall>k. map_of m' k = (if map_of m k = Some (VStr []) then None else map_of m k))))
   \<and> (Settings p = VMap m \<longrightarrow>
      (\<exists>packed. packSettings sprintf p = Inr packed \<and> map fst packed = map fst m \<and>
            (\<forall>k. map_of packed k = map_option (\<lambda>v. VStr (sprintf v)) (map_of m k))))"
  by (auto simp: unpackPointConfig_def packSettings_def map_of_filter_distinct map_of_rendered
      split: option.splits)

theorem settings_pruned_on_unpack_only_witness:
  "(\<exists>m'. unpackPointConfig exampleMethods webhookNotifier
        (VMap [(''uid'', VStr []), (''disable_resolve_message'', VBool False),
               (''settings'', VMap [(''url'', VStr ''http://x''), (''username'', VStr [])])])
        ''ops''
      = Inr \<lparr>DisableResolveMessage = False, Name = ''ops'', Settings = VMap m',
             Type = Some ''webhook'', UID = []\<rparr>
      \<and> map_of m' ''username'' = None \<and> map_of m' ''url'' = Some (VStr ''http://x''))
   \<and> (\<exists>packed. packSettings exampleSyntax \<lparr>DisableResolveMessage = False, Name = ''ops'',
          Settings = VMap [(''url'', VStr ''http://x''), (''username'', VStr [])],
          Type = Some ''webhook'', UID = ''u1''\<rparr> = Inr packed
      \<and> map fst packed = [''url'', ''username'']
      \<and> map_of packed ''username'' = Some (VStr [CHR 0x22, CHR 0x22]))"
proof -
  let ?raw = "VMap [(''uid'', VStr []), (''disable_resolve_message'', VBool False),
               (''settings'', VMap [(''url'', VStr ''http://x''), (''username'', VStr [])])]"
  let ?m = "[(''url'', VStr ''http://x''), (''username'', VStr [])]"
  let ?pt = "\<lparr>DisableResolveMessage = False, Name = ''ops'', Settings = VMap ?m,
             Type = Some ''webhook'', UID = []\<rparr>"
  let ?p = "\<lparr>DisableResolveMessage = False, Name = ''ops'', Settings = VMap ?m,
             Type = Some ''webhook'', UID = ''u1''\<rparr>"
  have u: "unpack exampleMethods webhookNotifier ?raw ''ops'' = Inr ?pt"
    by (simp add: exampleMethods_def exampleUnpack_def unpackCommonNotifierFields_def)
  have h: "Settings ?pt = VMap ?m" "distinct (map fst ?m)" "Settings ?p = VMap ?m"
    by simp_all
  note T = settings_pruned_on_unpack_only
             [of exampleMethods webhookNotifier ?raw "''ops''" ?pt ?m ?p exampleSyntax]
  from T u h obtain m' where
    A: "unpackPointConfig exampleMethods webhookNotifier ?raw ''ops'' = Inr (?pt\<lparr>Settings := VMap m'\<rparr>)"
    and A': "\<forall>k. map_of m' k = (if map_of ?m k = Some (VStr []) then None else map_of ?m k)"
    by blast
  from T h obtain packed where
    B: "packSettings exampleSyntax ?p = Inr packed"
    and B'': "map fst packed = map fst ?m"
    and B': "\<forall>k. map_of packed k = map_option (\<lambda>v. VStr (exampleSyntax v)) (map_of ?m k)"
    by blast
  from A' have "map_of m' ''username'' = None" "map_of m' ''url'' = Some (VStr ''http://x'')"
    by simp_all
  moreover from B' have "map_of packed ''username'' = Some (VStr [CHR 0x22, CHR 0x22])"
    by (simp add: exampleSyntax_def)
  moreover from B'' have "map fst packed = [''url'', ''username'']" by simp
  ultimately show ?thesis using A B by auto
qed

text \<open>The claim as it was stated fails: a remote setting that is the empty string is packed,
  as the two quote characters.\<close>

theorem settings_pruned_counterexample:
  "packSettings exampleSyntax \<lparr>DisableResolveMessage = False, Name = ''ops'',
      Settings = VMap [(''url'', VStr ''http://x''), (''username'', VStr [])],
      Type = Some ''webhook'', UID = ''u1''\<rparr>
   = Inr [(''url'', VStr (CHR 0x22 # ''http://x'' @ [CHR 0x22])), (''username'', VStr [CHR 0x22, CHR 0x22])]"
  by (simp add: packSettings_def exampleSyntax_def)

section \<open>Contact points: packing by type\<close>

lemma distinct_notifiers: "distinct notifiers"
  by (simp add: notifiers_def)

lemma all_notifiers: "n \<in> set notifiers"
  by (cases n) (simp_all add: notifiers_def)


lemma packInto_name:
  "packInto N p (d\<lparr>nameAttr := x\<rparr>\<lparr>nameAttr := y\<rparr>) acc ns = packInto N p (d\<lparr>nameAttr := y\<rparr>) acc ns"
  by simp


lemma packAll_instances:
  "instances (snd (packAll N ps d acc)) = instances d"
  by (induction ps arbitrary: d acc) (auto simp: Let_def split: sum.splits)



lemma packInto_acc:
  assumes "distinct ns" "packInto N p d acc ns = Inr (Inr acc')"
  shows "map (\<lambda>v. Inr (Inr v)) (acc' n) =
         map (\<lambda>v. Inr (Inr v)) (acc n) @ (if n \<in> set ns \<and> ofKind N n p then [pack N n p d] else [])"
  using assms
proof (induction ns arbitrary: acc)
  case Nil
  then show ?case by simp
next
  case (Cons m ns)
  from Cons.prems obtain t where t: "Type p = Some t" by (auto split: option.splits)
  show ?case
  proof (cases "t = typeStr (meta N m)")
    case True
    with Cons.prems t obtain v where v: "pack N m p d = Inr (Inr v)"
      and r: "packInto N p d (acc(m := acc m @ [v])) ns = Inr (Inr acc')"
      by (auto split: sum.splits)
    from Cons.prems have "distinct ns" "m \<notin> set ns" by auto
    with Cons.IH [OF _ r] True t v show ?thesis by (auto simp: ofKind_def)
  next
    case False
    with Cons.prems t have r: "packInto N p d acc ns = Inr (Inr acc')" by simp
    from Cons.prems have "distinct ns" by simp
    with Cons.IH [OF _ r] False t show ?thesis by (auto simp: ofKind_def)
  qed
qed

lemma packAll_acc:
  assumes "fst (packAll N ps d acc) = Inr (Inr acc')"
  shows "map (\<lambda>v. Inr (Inr v)) (acc' n) =
         map (\<lambda>v. Inr (Inr v)) (acc n) @
         map (\<lambda>p. pack N n p (d\<lparr>nameAttr := Name p\<rparr>)) (filter (ofKind N n) ps)"
  using assms
proof (induction ps arbitrary: d acc)
  case Nil
  then show ?case by simp
next
  case (Cons p ps)
  let ?d = "d\<lparr>nameAttr := Name p\<rparr>"
  from Cons.prems obtain acc1 where a: "packInto N p ?d acc notifiers = Inr (Inr acc1)"
    and r: "fst (packAll N ps ?d acc1) = Inr (Inr acc')"
    by (auto simp: Let_def split: sum.splits)
  have 1: "map (\<lambda>v. Inr (Inr v)) (acc1 n) =
           map (\<lambda>v. Inr (Inr v)) (acc n) @ (if ofKind N n p then [pack N n p ?d] else [])"
    using packInto_acc [OF distinct_notifiers a, of n] by (simp add: all_notifiers)
  have 2: "map (\<lambda>v. Inr (Inr v)) (acc' n) =
           map (\<lambda>v. Inr (Inr v)) (acc1 n) @
           map (\<lambda>q. pack N n q (d\<lparr>nameAttr := Name q\<rparr>)) (filter (ofKind N n) ps)"
    using Cons.IH [OF r] by simp
  show ?case by (simp add: 1 2)
qed

lemma fold_SetInstances:
  "\<forall>m\<in>set ns. g m = g n \<longrightarrow> m = n \<Longrightarrow>
   instances (fold (\<lambda>n d. SetInstances (g n) (acc n) d) ns d) (g n) =
     (if n \<in> set ns then acc n else instances d (g n))"
  by (induction ns arbitrary: d) (auto simp: SetInstances_def)

lemma setPacked_instances:
  assumes "distinct (map (\<lambda>n. field (meta N n)) notifiers)"
  shows "instances (setPacked N acc d) (field (meta N n)) =
           (if acc n = [] then instances d (field (meta N n)) else acc n)"
proof -
  have "inj_on (\<lambda>n. field (meta N n)) (set notifiers)"
    using assms by (simp add: distinct_map)
  then have "\<forall>m. field (meta N m) = field (meta N n) \<longrightarrow> m = n"
    by (auto simp: inj_on_def all_notifiers)
  then show ?thesis
    unfolding setPacked_def
    by (subst fold_SetInstances) (auto simp: all_notifiers)
qed

lemma sum_indicator:
  "distinct (map g ns) \<Longrightarrow>
   sum_list (map (\<lambda>n. if g n = t then 1 else 0) ns) = (if t \<in> g ` set ns then 1 else (0::nat))"
  by (induction ns) auto

lemma kinds_count:
  assumes "distinct (map (\<lambda>n. typeStr (meta N n)) notifiers)"
  shows "sum_list (map (\<lambda>n. length (filter (ofKind N n) ps)) notifiers) = length (filter (recognized N) ps)"
proof (induction ps)
  case Nil
  then show ?case by simp
next
  case (Cons p ps)
  have "sum_list (map (\<lambda>n. length (filter (ofKind N n) (p # ps))) notifiers) =
        sum_list (map (\<lambda>n. (if Some (typeStr (meta N n)) = Type p then 1 else 0) + length (filter (ofKind N n) ps)) notifiers)"
    by (intro arg_cong [where f = sum_list] map_cong) (auto simp: ofKind_def)
  also have "\<dots> = sum_list (map (\<lambda>n. if Some (typeStr (meta N n)) = Type p then 1 else 0) notifiers)
                  + sum_list (map (\<lambda>n. length (filter (ofKind N n) ps)) notifiers)"
    by (simp add: sum_list_addf)
  also have "sum_list (map (\<lambda>n. if Some (typeStr (meta N n)) = Type p then 1 else 0) notifiers) =
             (if recognized N p then 1 else (0::nat))"
  proof -
    have d: "distinct (map (\<lambda>n. Some (typeStr (meta N n))) notifiers)"
      using assms by (simp add: distinct_map inj_on_def)
    show ?thesis
      by (subst sum_indicator [OF d]) (auto simp: recognized_def list_ex_iff)
  qed
  finally show ?case using Cons by simp
qed



lemma example_types: "distinct (map (\<lambda>n. typeStr (meta exampleMethods n)) notifiers)"
  by (simp add: exampleMethods_def exampleMeta_def notifiers_def)

lemma example_fields: "distinct (map (\<lambda>n. field (meta exampleMethods n)) notifiers)"
  by (simp add: exampleMethods_def exampleMeta_def notifiers_def)


section \<open>Contact points: the import by UIDs\<close>

lemma matchUIDs_resolved:
  assumes "points \<noteq> [] \<longrightarrow> 0 < i"
  shows "matchUIDs uids i payload points =
     (case find (\<lambda>p. Name p \<noteq> Name (hd (points @ filter (\<lambda>p. UID p \<in> set uids) payload)))
             (filter (\<lambda>p. UID p \<in> set uids) payload) of
        None \<Rightarrow> Inr (points @ filter (\<lambda>p. UID p \<in> set uids) payload)
      | Some p \<Rightarrow> Inl (differentName p (hd (points @ filter (\<lambda>p. UID p \<in> set uids) payload))))"
  using assms
proof (induction payload arbitrary: i points)
  case Nil
  then show ?case by simp
next
  case (Cons p payload)
  show ?case
  proof (cases "UID p \<in> set uids")
    case False
    then show ?thesis using Cons.IH [of points "Suc i"] Cons.prems
      by (simp cong: option.case_cong)
  next
    case True
    show ?thesis
    proof (cases "points = []")
      case True
      with \<open>UID p \<in> set uids\<close> Cons.IH [of "[p]" "Suc i"] show ?thesis
        by (simp cong: option.case_cong)
    next
      case False
      with \<open>UID p \<in> set uids\<close> Cons.IH [of "points @ [p]" "Suc i"] Cons.prems show ?thesis
        by (cases points) (auto cong: option.case_cong)
    qed
  qed
qed

lemma Split_nonempty: "Split s c \<noteq> []"
  by (induction s) (auto split: list.splits)

lemma find_None_iff': "find P xs = None \<longleftrightarrow> (\<forall>x\<in>set xs. \<not> P x)"
  by (induction xs) auto

lemma find_SomeD: "find P xs = Some x \<Longrightarrow> x \<in> set xs \<and> P x"
  by (induction xs) (auto split: if_splits)

text \<open>
  C7, as amended. Let the identifier be a list of UIDs joined by semicolons for which the
  listing by name finds nothing, and let the listing of all contact points succeed; the
  resolved records are the fetched records whose UID is listed.
  \<^item> When every listed UID is the UID of a fetched record, the resolved records have the
    name \<open>shared\<close> and their packing succeeds, the read succeeds and the identifier becomes
    that of the organization and \<open>shared\<close>.
  \<^item> When a resolved record has another name than the first resolved record, the read
    fails with the error that names the UIDs and the names of the two.
  \<^item> When the resolved records have one name and a listed UID is the UID of no fetched
    record, the read fails with the error that names such a UID.
\<close>

theorem legacy_import:
  assumes ids: "uids = Split (Id d) (CHR '';'')"
    and org: "OAPIClientFromExistingOrgResource cl (Id d) = (orgID, nm)"
    and byName: "GetContactpoints cl (Some nm) (backend w) = (Inr [], b1)"
    and listing: "GetContactpoints cl None b1 = (Inr payload, b2)"
    and res: "resolved = filter (\<lambda>p. UID p \<in> set uids) payload"
    and ord: "set (order (remdups uids)) = set uids"
  shows
    "((\<forall>u\<in>set uids. u \<in> UID ` set payload) \<and> (\<forall>p\<in>set resolved. Name p = shared)
        \<and> fst (packContactPoints N resolved d) = Inr (Inr ()) \<longrightarrow>
        fst (readContactPoint N cl order d w) = Inr []
        \<and> Id (fst (snd (readContactPoint N cl order d w))) = MakeOrgResourceID orgID shared)
   \<and> ((\<exists>p\<in>set resolved. Name p \<noteq> Name (hd resolved)) \<longrightarrow>
        (\<exists>p\<in>set resolved. Name p \<noteq> Name (hd resolved)
           \<and> fst (readContactPoint N cl order d w) = Inr (FromErr (differentName p (hd resolved)))))
   \<and> ((\<forall>p\<in>set resolved. Name p = Name (hd resolved)) \<and> (\<exists>u\<in>set uids. u \<notin> UID ` set payload) \<longrightarrow>
        (\<exists>u\<in>set uids. u \<notin> UID ` set payload
           \<and> fst (readContactPoint N cl order d w) = Inr (FromErr (notFound u))))"
proof -
  let ?w1 = "\<lparr>backend = b1, calls = calls w @ [(GetCall (Some nm), False)]\<rparr>"
  let ?w2 = "\<lparr>backend = b2, calls = calls ?w1 @ [(GetCall None, False)]\<rparr>"
  have g1: "doGet cl (Some nm) w = (Inr [], ?w1)"
    using byName by (simp add: doGet_def perform_eq)
  have g2: "doGet cl None ?w1 = (Inr payload, ?w2)"
    using listing by (simp add: doGet_def perform_eq)
  have m: "matchUIDs uids 0 payload [] =
     (case find (\<lambda>p. Name p \<noteq> Name (hd resolved)) resolved of
        None \<Rightarrow> Inr resolved | Some p \<Rightarrow> Inl (differentName p (hd resolved)))"
    using matchUIDs_resolved [of "[]" 0 uids payload] by (simp add: res cong: option.case_cong)
  have uidset: "u \<in> UID ` set resolved \<longleftrightarrow> u \<in> UID ` set payload" if "u \<in> set uids" for u
    using that by (auto simp: res)
  have 1: "fst (readContactPoint N cl order d w) = Inr []
        \<and> Id (fst (snd (readContactPoint N cl order d w))) = MakeOrgResourceID orgID shared"
    if a: "\<forall>u\<in>set uids. u \<in> UID ` set payload" "\<forall>p\<in>set resolved. Name p = shared"
      "fst (packContactPoints N resolved d) = Inr (Inr ())"
  proof -
    have "find (\<lambda>p. Name p \<noteq> Name (hd resolved)) resolved = None"
      using a(2) by (cases resolved) (auto simp: find_None_iff')
    then have m': "matchUIDs uids 0 payload [] = Inr resolved" by (simp add: m)
    have f: "find (\<lambda>uid. uid \<notin> UID ` set resolved) (order (remdups uids)) = None"
      using a(1) ord uidset by (auto simp: find_None_iff')
    have l: "legacyPoints cl order d ?w1 = (Inr resolved, ?w2)"
      using g2 m' f by (simp add: legacyPoints_def ids [symmetric] Let_def)
    have "uids \<noteq> []" using Split_nonempty [of "Id d" "CHR '';''"] ids by simp
    then obtain u where "u \<in> set uids" by (cases uids) auto
    with a(1) uidset have ne: "resolved \<noteq> []" by fastforce
    with a(2) have nm: "Name (hd resolved) = shared" by (cases resolved) auto
    obtain d' where p: "packContactPoints N resolved d = (Inr (Inr ()), d')"
      using a(3) by (cases "packContactPoints N resolved d") auto
    show ?thesis
      by (simp add: readContactPoint_def org g1 l ne p nm)
  qed
  have 2: "\<exists>p\<in>set resolved. Name p \<noteq> Name (hd resolved)
           \<and> fst (readContactPoint N cl order d w) = Inr (FromErr (differentName p (hd resolved)))"
    if a: "\<exists>p\<in>set resolved. Name p \<noteq> Name (hd resolved)"
  proof -
    from a obtain p where f: "find (\<lambda>p. Name p \<noteq> Name (hd resolved)) resolved = Some p"
      by (cases "find (\<lambda>p. Name p \<noteq> Name (hd resolved)) resolved") (auto simp: find_None_iff')
    then have m': "matchUIDs uids 0 payload [] = Inl (differentName p (hd resolved))"
      by (simp add: m)
    have l: "legacyPoints cl order d ?w1 = (Inl (differentName p (hd resolved)), ?w2)"
      using g2 m' by (simp add: legacyPoints_def ids [symmetric] Let_def)
    have "fst (readContactPoint N cl order d w) = Inr (FromErr (differentName p (hd resolved)))"
      by (simp add: readContactPoint_def org g1 l)
    with find_SomeD [OF f] show ?thesis by blast
  qed
  have 3: "\<exists>u\<in>set uids. u \<notin> UID ` set payload
           \<and> fst (readContactPoint N cl order d w) = Inr (FromErr (notFound u))"
    if a: "\<forall>p\<in>set resolved. Name p = Name (hd resolved)" "\<exists>u\<in>set uids. u \<notin> UID ` set payload"
  proof -
    have "find (\<lambda>p. Name p \<noteq> Name (hd resolved)) resolved = None"
      using a(1) by (auto simp: find_None_iff')
    then have m': "matchUIDs uids 0 payload [] = Inr resolved" by (simp add: m)
    from a(2) ord uidset obtain u where
      f: "find (\<lambda>uid. uid \<notin> UID ` set resolved) (order (remdups uids)) = Some u"
      by (cases "find (\<lambda>uid. uid \<notin> UID ` set resolved) (order (remdups uids))")
         (auto simp: find_None_iff')
    from find_SomeD [OF f] ord uidset have u: "u \<in> set uids" "u \<notin> UID ` set payload" by auto
    have l: "legacyPoints cl order d ?w1 = (Inl (notFound u), ?w2)"
      using g2 m' f by (simp add: legacyPoints_def ids [symmetric] Let_def)
    have "fst (readContactPoint N cl order d w) = Inr (FromErr (notFound u))"
      by (simp add: readContactPoint_def org g1 l)
    with u show ?thesis by blast
  qed
  from 1 2 3 show ?thesis by blast
qed

lemma org_legacy:
  "OAPIClientFromExistingOrgResource (memoryClient 1) ''A;C'' = (1, ''A;C'')"
  "OAPIClientFromExistingOrgResource (memoryClient 1) ''A;Z'' = (1, ''A;Z'')"
  "OAPIClientFromExistingOrgResource (memoryClient 1) ''A;C;Z'' = (1, ''A;C;Z'')"
  by (simp_all add: OAPIClientFromExistingOrgResource_def SplitOrgResourceID_def memoryClient_def)

lemma mem_get:
  "GetContactpoints (memoryClient org) nm b =
     (Inr (case nm of None \<Rightarrow> store b | Some n \<Rightarrow> filter (\<lambda>p. Name p = n) (store b)), b)"
  by (simp add: memoryClient_def memGet_def)

lemma pack_AC:
  "fst (packContactPoints exampleMethods [pointA, pointC] (dataOf ''A;C'' False ''1'' (\<lambda>f. []))) = Inr (Inr ())"
  by code_simp

theorem legacy_import_witness:
  "fst (readContactPoint exampleMethods (memoryClient 1) id
          (dataOf ''A;C'' False ''1'' (\<lambda>f. [])) (worldOf [pointA, pointC] [])) = Inr []
   \<and> Id (fst (snd (readContactPoint exampleMethods (memoryClient 1) id
          (dataOf ''A;C'' False ''1'' (\<lambda>f. [])) (worldOf [pointA, pointC] [])))) = ''1:ops''
   \<and> fst (readContactPoint exampleMethods (memoryClient 1) id
          (dataOf ''A;C'' False ''1'' (\<lambda>f. [])) (worldOf [pointA, pointC\<lparr>Name := ''night''\<rparr>] []))
       = Inr (FromErr (differentName (pointC\<lparr>Name := ''night''\<rparr>) pointA))
   \<and> fst (readContactPoint exampleMethods (memoryClient 1) id
          (dataOf ''A;Z'' False ''1'' (\<lambda>f. [])) (worldOf [pointA, pointC] []))
       = Inr (FromErr (notFound ''Z''))"
proof -
  let ?d = "dataOf ''A;C'' False ''1'' (\<lambda>f. [])"
  let ?dz = "dataOf ''A;Z'' False ''1'' (\<lambda>f. [])"
  let ?w = "worldOf [pointA, pointC] []"
  let ?w' = "worldOf [pointA, pointC\<lparr>Name := ''night''\<rparr>] []"
  have 1: "fst (readContactPoint exampleMethods (memoryClient 1) id ?d ?w) = Inr []
    \<and> Id (fst (snd (readContactPoint exampleMethods (memoryClient 1) id ?d ?w))) = MakeOrgResourceID 1 ''ops''"
    using legacy_import [of "[''A'', ''C'']" ?d "memoryClient 1" 1 "''A;C''" ?w "backend ?w"
        "[pointA, pointC]" "backend ?w" "[pointA, pointC]" id "''ops''" exampleMethods] pack_AC
    by (simp add: dataOf_def worldOf_def org_legacy mem_get pointA_def pointC_def)
  have 2: "fst (readContactPoint exampleMethods (memoryClient 1) id ?d ?w')
       = Inr (FromErr (differentName (pointC\<lparr>Name := ''night''\<rparr>) pointA))"
    using legacy_import [of "[''A'', ''C'']" ?d "memoryClient 1" 1 "''A;C''" ?w' "backend ?w'"
        "[pointA, pointC\<lparr>Name := ''night''\<rparr>]" "backend ?w'" "[pointA, pointC\<lparr>Name := ''night''\<rparr>]"
        id "''ops''" exampleMethods]
    by (simp add: dataOf_def worldOf_def org_legacy mem_get pointA_def pointC_def)
  have 3: "fst (readContactPoint exampleMethods (memoryClient 1) id ?dz ?w) = Inr (FromErr (notFound ''Z''))"
    using legacy_import [of "[''A'', ''Z'']" ?dz "memoryClient 1" 1 "''A;Z''" ?w "backend ?w"
        "[pointA, pointC]" "backend ?w" "[pointA]" id "''ops''" exampleMethods]
    by (simp add: dataOf_def worldOf_def org_legacy mem_get pointA_def pointC_def)
  have "MakeOrgResourceID 1 ''ops'' = ''1:ops''"
    by (simp add: MakeOrgResourceID_def Sprint_def digitChar_def decimal.simps)
  with 1 2 3 show ?thesis by simp
qed

text \<open>The claim as it was stated fails where a listed UID is missing and two resolved
  records differ in their names: the error is that of the names, and does not name the
  missing UID \<open>Z\<close>.\<close>

theorem legacy_import_counterexample:
  "fst (readContactPoint exampleMethods (memoryClient 1) id
          (dataOf ''A;C;Z'' False ''1'' (\<lambda>f. [])) (worldOf [pointA, pointC\<lparr>Name := ''night''\<rparr>] []))
   = Inr [Diagnostic Error
       ''contact point with UID C has a different name (night) than the contact point with UID A (ops)'']"
  by code_simp

section \<open>Not found, by path\<close>

lemma CheckReadError_notFound:
  "IsNotFoundError e \<Longrightarrow>
   CheckReadError t d (Some e) = (fst (WarnMissing t d), True, d\<lparr>Id := []\<rparr>)"
  by (simp add: CheckReadError_def WarnMissing_def)

lemma WarnMissing_soft: "\<not> HasError (fst (WarnMissing t d))"
  by (simp add: WarnMissing_def HasError_def)

lemma HasError_FromErr: "HasError (FromErr e)"
  by (simp add: FromErr_def HasError_def)

lemma HasError_removeFailed: "HasError (removeFailed p e)"
  by (simp add: removeFailed_def Errorf_def HasError_def)

text \<open>
  C8, as amended. Let \<open>e\<close> be a "not found" error.
  \<^item> It is taken as missing state, with the warning of \<open>WarnMissing\<close> and no error, by the
    read of a mute timing, by the fetch of the current records of an update (an empty
    list), and also at the head of both delete paths: by \<open>deleteMuteTiming\<close> for its
    delete call and by \<open>deleteContactPoint\<close> for its listing.
  \<^item> It is an error of the operation when it comes from a delete call for a record of
    \<open>deleteContactPoint\<close>, from a delete call for a stale record or an update call of
    \<open>updateContactPoint\<close>, and from the update call of \<open>updateMuteTiming\<close>.
\<close>

theorem not_found_by_path:
  assumes nf: "IsNotFoundError e"
    and nm: "nm = snd (OAPIClientFromExistingOrgResource cl (Id d))"
  shows
    "(GetMuteTiming cl nm (backend w) = (Inl e, b) \<longrightarrow>
        fst (readMuteTiming cl d w) = fst (WarnMissing ''mute timing'' d)
        \<and> \<not> HasError (fst (readMuteTiming cl d w)) \<and> Id (fst (snd (readMuteTiming cl d w))) = [])
   \<and> (\<not> IsNewResource d \<and> GetContactpoints cl (Some (nameAttr d)) (backend w) = (Inl e, b) \<longrightarrow>
        fst (fetchCurrent cl d w) = Inr [])
   \<and> (DeleteMuteTiming cl nm (backend w) = (Inl e, b) \<longrightarrow>
        fst (deleteMuteTiming cl d w) = fst (WarnMissing ''mute timing'' d)
        \<and> \<not> HasError (fst (deleteMuteTiming cl d w)) \<and> Id (fst (snd (deleteMuteTiming cl d w))) = [])
   \<and> (GetContactpoints cl (Some nm) (backend w) = (Inl e, b) \<longrightarrow>
        fst (deleteContactPoint cl d w) = fst (WarnMissing ''contact point'' d)
        \<and> \<not> HasError (fst (deleteContactPoint cl d w))
        \<and> calls (snd (snd (deleteContactPoint cl d w))) = calls w @ [(GetCall (Some nm), True)])
   \<and> (DeleteContactpoints cl (UID cp) (backend w) = (Inl e, b) \<longrightarrow>
        fst (deleteEach cl (cp # cps) w) = FromErr e \<and> HasError (fst (deleteEach cl (cp # cps) w)))
   \<and> (UID cp \<notin> set processed \<and> DeleteContactpoints cl (UID cp) (backend w) = (Inl e, b) \<longrightarrow>
        fst (deleteStale cl processed (cp # cps) w) = removeFailed cp e
        \<and> HasError (fst (deleteStale cl processed (cp # cps) w)))
   \<and> (map_of (tfState p) ''uid'' = Some (VStr uid) \<and> uid \<noteq> [] \<and>
      PutContactpoint cl uid (gfState p) (backend w) = (Inl e, b) \<longrightarrow>
        fst (applyPoints cl orgID wait (p # ps) done w) = Inr (Inl (FromErr e))
        \<and> calls (snd (applyPoints cl orgID wait (p # ps) done w)) = calls w @ [(PutCall uid (gfState p), True)])
   \<and> (unpackIntervals (Some (intervalsAttr d)) = Inr tis \<and>
      PutMuteTiming cl nm \<lparr>mtName = nm, TimeIntervals = tis\<rparr> (backend w) = (Inl e, b) \<longrightarrow>
        fst (updateMuteTiming cl d w) = Inr (FromErr e))"
proof -
  obtain orgID' where o: "OAPIClientFromExistingOrgResource cl (Id d) = (orgID', nm)"
    using nm by (cases "OAPIClientFromExistingOrgResource cl (Id d)") simp
  show ?thesis
    using nf
    by (auto simp: readMuteTiming_def fetchCurrent_def deleteMuteTiming_def deleteContactPoint_def
        updateMuteTiming_def o doGet_def doDelete_def doPut_def perform_eq CheckReadError_notFound
        WarnMissing_soft HasError_FromErr HasError_removeFailed Let_def
        simp del: isl_def)
qed

lemma org_nightly: "OAPIClientFromExistingOrgResource goneClient ''1:nightly'' = (1, ''nightly'')"
  by (simp add: OAPIClientFromExistingOrgResource_def SplitOrgResourceID_def ParseInt_def digitVal_def)

text \<open>The claim as it was stated fails on a delete path: the delete call of a mute timing
  that the backend does not have fails with "not found", and \<open>deleteMuteTiming\<close> returns no
  error.\<close>

theorem not_found_by_path_counterexample:
  "\<not> HasError (fst (deleteMuteTiming (memoryClient 1)
        \<lparr>Id = ''1:nightly'', IsNewResource = False, nameAttr = ''nightly'', orgIdAttr = ''1'',
         intervalsAttr = [], instances = (\<lambda>f. [])\<rparr> (worldOf [] [])))
   \<and> calls (snd (snd (deleteMuteTiming (memoryClient 1)
        \<lparr>Id = ''1:nightly'', IsNewResource = False, nameAttr = ''nightly'', orgIdAttr = ''1'',
         intervalsAttr = [], instances = (\<lambda>f. [])\<rparr> (worldOf [] []))))
      = [(DeleteMuteCall ''nightly'', True)]"
  by code_simp

theorem not_found_by_path_witness:
  "\<not> HasError (fst (readMuteTiming goneClient nightly (worldOf [] [])))
   \<and> fst (fetchCurrent goneClient nightly (worldOf [] [])) = Inr []
   \<and> \<not> HasError (fst (deleteMuteTiming goneClient nightly (worldOf [] [])))
   \<and> \<not> HasError (fst (deleteContactPoint goneClient nightly (worldOf [] [])))
   \<and> HasError (fst (deleteEach goneClient [pointC] (worldOf [pointC] [])))
   \<and> HasError (fst (deleteStale goneClient [''A''] [pointC] (worldOf [pointC] [])))
   \<and> fst (applyPoints goneClient 1 (\<lambda>i. 100)
        [\<lparr>tfState = [(''uid'', VStr ''A'')], gfState = pointA\<rparr>] [] (worldOf [] []))
      = Inr (Inl (FromErr (ResponseError 404 ''contact point not found'')))
   \<and> fst (updateMuteTiming goneClient nightly (worldOf [] []))
      = Inr (FromErr (ResponseError 404 ''mute timing not found''))"
proof -
  let ?w = "worldOf [] []"
  let ?wc = "worldOf [pointC] []"
  let ?nf = "ResponseError 404 ''not found''"
  let ?nfc = "ResponseError 404 ''contact point not found''"
  let ?nfm = "ResponseError 404 ''mute timing not found''"
  let ?p = "\<lparr>tfState = [(''uid'', VStr ''A'')], gfState = pointA\<rparr>"
  have nm: "''nightly'' = snd (OAPIClientFromExistingOrgResource goneClient (Id nightly))"
    by (simp add: nightly_def org_nightly)
  have nf: "IsNotFoundError ?nf" "IsNotFoundError ?nfc" "IsNotFoundError ?nfm" by simp_all
  note T1 = not_found_by_path [OF nf(3) nm, of ?w "backend ?w" pointC "[]" "[''A'']" ?p "''A''" 1
      "\<lambda>i. 100" "[]" "[]" "Some []"]
  note T2 = not_found_by_path [OF nf(1) nm, of ?w "backend ?w" pointC "[]" "[''A'']" ?p "''A''" 1
      "\<lambda>i. 100" "[]" "[]" "Some []"]
  note T3 = not_found_by_path [OF nf(1) nm, of ?wc "backend ?wc" pointC "[]" "[''A'']" ?p "''A''" 1
      "\<lambda>i. 100" "[]" "[]" "Some []"]
  note T4 = not_found_by_path [OF nf(2) nm, of ?w "backend ?w" pointC "[]" "[''A'']" ?p "''A''" 1
      "\<lambda>i. 100" "[]" "[]" "Some []"]
  have pa: "GetMuteTiming goneClient ''nightly'' (backend ?w) = (Inl ?nfm, backend ?w)"
    and pc: "DeleteMuteTiming goneClient ''nightly'' (backend ?w) = (Inl ?nfm, backend ?w)"
    and ph: "PutMuteTiming goneClient ''nightly'' \<lparr>mtName = ''nightly'', TimeIntervals = Some []\<rparr>
               (backend ?w) = (Inl ?nfm, backend ?w)"
    by (simp_all add: goneClient_def memoryClient_def memGetMute_def memDeleteMute_def
        memPutMute_def worldOf_def)
  have pb: "\<not> IsNewResource nightly"
          "GetContactpoints goneClient (Some (nameAttr nightly)) (backend ?w) = (Inl ?nf, backend ?w)"
    and pd: "GetContactpoints goneClient (Some ''nightly'') (backend ?w) = (Inl ?nf, backend ?w)"
    by (simp_all add: goneClient_def memoryClient_def nightly_def)
  have pe: "DeleteContactpoints goneClient (UID pointC) (backend ?wc) = (Inl ?nf, backend ?wc)"
    and pf: "UID pointC \<notin> set [''A'']"
    by (simp_all add: goneClient_def memoryClient_def pointC_def)
  have pg: "map_of (tfState ?p) ''uid'' = Some (VStr ''A'')" "''A'' \<noteq> []"
      "PutContactpoint goneClient ''A'' (gfState ?p) (backend ?w) = (Inl ?nfc, backend ?w)"
    by (simp_all add: goneClient_def memoryClient_def memPut_def worldOf_def)
  have ph': "unpackIntervals (Some (intervalsAttr nightly)) = Inr (Some [])"
    by (simp add: nightly_def unpackIntervals_def)
  from T1 pa have a: "\<not> HasError (fst (readMuteTiming goneClient nightly ?w))" by blast
  from T2 pb have b: "fst (fetchCurrent goneClient nightly ?w) = Inr []" by blast
  from T1 pc have c: "\<not> HasError (fst (deleteMuteTiming goneClient nightly ?w))" by blast
  from T2 pd have d: "\<not> HasError (fst (deleteContactPoint goneClient nightly ?w))" by blast
  from T3 pe have e: "HasError (fst (deleteEach goneClient [pointC] ?wc))" by blast
  from T3 pe pf have f: "HasError (fst (deleteStale goneClient [''A''] [pointC] ?wc))" by blast
  from T4 pg have g: "fst (applyPoints goneClient 1 (\<lambda>i. 100) [?p] [] ?w) = Inr (Inl (FromErr ?nfc))"
    by blast
  from T1 ph ph' have h: "fst (updateMuteTiming goneClient nightly ?w) = Inr (FromErr ?nfm)"
    by blast
  from a b c d e f g h show ?thesis by blast
qed

section \<open>Mute timings: month names in a range\<close>

lemma apart_no_prefix:
  assumes "apart a b" "suffix u a" "u \<noteq> []"
  shows "\<not> prefix b (u @ t)"
proof -
  from assms have "\<not> prefix b u" "\<not> prefix u b"
    by (auto simp: apart_def list_all_iff)
  then show ?thesis by (auto simp: prefix_append)
qed

lemma ReplaceAll_Cons_no_prefix:
  "b \<noteq> [] \<Longrightarrow> \<not> prefix b (c # s) \<Longrightarrow> ReplaceAll (c # s) b nb = c # ReplaceAll s b nb"
  by (cases b) auto

lemma ReplaceAll_prefix:
  "b \<noteq> [] \<Longrightarrow> ReplaceAll (b @ s) b nb = nb @ ReplaceAll s b nb"
  by (cases b) auto

lemma ReplaceAll_skip:
  assumes "b \<noteq> []" "\<And>u. suffix u a \<Longrightarrow> u \<noteq> [] \<Longrightarrow> \<not> prefix b (u @ t)"
  shows "ReplaceAll (a @ t) b nb = a @ ReplaceAll t b nb"
  using assms(2)
proof (induction a)
  case Nil
  then show ?case by simp
next
  case (Cons x a)
  have "\<not> prefix b ((x # a) @ t)" by (rule Cons.prems) auto
  moreover have "ReplaceAll (a @ t) b nb = a @ ReplaceAll t b nb"
  proof (rule Cons.IH)
    fix u assume "suffix u a" "u \<noteq> []"
    then show "\<not> prefix b (u @ t)" using Cons.prems [of u] by (simp add: suffix_Cons)
  qed
  ultimately show ?case using assms(1) by (simp add: ReplaceAll_Cons_no_prefix)
qed

lemma ReplaceAll_inert:
  assumes "b \<noteq> []" "hd b \<notin> set na"
  shows "ReplaceAll (na @ r) b nb = na @ ReplaceAll r b nb"
proof (rule ReplaceAll_skip [OF assms(1)])
  fix u assume u: "suffix u na" "u \<noteq> []"
  then have "hd u \<in> set na" by (metis hd_in_set set_mono_suffix subsetD)
  with assms u show "\<not> prefix b (u @ r)" by (cases b; cases u) auto
qed

lemma prefix_ReplaceAll_back:
  assumes "a \<noteq> []" "na \<noteq> []"
  shows "set u \<inter> set na = {} \<Longrightarrow> prefix u (ReplaceAll t a na) \<Longrightarrow> prefix u t"
proof (induction t arbitrary: u)
  case Nil
  then show ?case using assms by (cases a) auto
next
  case (Cons c t)
  show ?case
  proof (cases u)
    case Nil
    then show ?thesis by simp
  next
    case u: (Cons d u')
    show ?thesis
    proof (cases "prefix a (c # t)")
      case True
      then obtain r where "c # t = a @ r" by (auto simp: prefix_def)
      then have "ReplaceAll (c # t) a na = na @ ReplaceAll r a na"
        using assms by (simp add: ReplaceAll_prefix)
      with Cons.prems u assms have False by (cases na) auto
      then show ?thesis ..
    next
      case False
      then have "ReplaceAll (c # t) a na = c # ReplaceAll t a na"
        using assms by (simp add: ReplaceAll_Cons_no_prefix)
      with Cons.prems u have "d = c" "prefix u' (ReplaceAll t a na)" "set u' \<inter> set na = {}"
        by auto
      with Cons.IH u show ?thesis by simp
    qed
  qed
qed

lemma ReplaceAll_commute:
  assumes ne: "a \<noteq> []" "b \<noteq> []" "na \<noteq> []" "nb \<noteq> []"
    and ab: "apart a b" and ba: "apart b a"
    and ia: "set a \<inter> set nb = {}" "set a \<inter> set na = {}"
    and ib: "set b \<inter> set na = {}" "set b \<inter> set nb = {}"
  shows "ReplaceAll (ReplaceAll s a na) b nb = ReplaceAll (ReplaceAll s b nb) a na"
proof (induction s rule: length_induct)
  case (1 s)
  have hda: "hd a \<notin> set nb" "hd a \<notin> set na" using ne ia by (cases a; auto)+
  have hdb: "hd b \<notin> set na" "hd b \<notin> set nb" using ne ib by (cases b; auto)+
  show ?case
  proof (cases "prefix a s")
    case True
    then obtain t where s: "s = a @ t" by (auto simp: prefix_def)
    have lt: "length t < length s" using s ne by simp
    have "ReplaceAll (ReplaceAll s a na) b nb = na @ ReplaceAll (ReplaceAll t a na) b nb"
      using ne hdb by (simp add: s ReplaceAll_prefix ReplaceAll_inert)
    moreover have "ReplaceAll s b nb = a @ ReplaceAll t b nb"
      unfolding s by (rule ReplaceAll_skip [OF ne(2)]) (rule apart_no_prefix [OF ab])
    ultimately show ?thesis using 1 lt ne by (simp add: ReplaceAll_prefix)
  next
    case na: False
    show ?thesis
    proof (cases "prefix b s")
      case True
      then obtain t where s: "s = b @ t" by (auto simp: prefix_def)
      have lt: "length t < length s" using s ne by simp
      have "ReplaceAll (ReplaceAll s b nb) a na = nb @ ReplaceAll (ReplaceAll t b nb) a na"
        using ne hda by (simp add: s ReplaceAll_prefix ReplaceAll_inert)
      moreover have "ReplaceAll s a na = b @ ReplaceAll t a na"
        unfolding s by (rule ReplaceAll_skip [OF ne(1)]) (rule apart_no_prefix [OF ba])
      ultimately show ?thesis using 1 lt ne by (simp add: ReplaceAll_prefix)
    next
      case nb: False
      show ?thesis
      proof (cases s)
        case Nil
        then show ?thesis using ne by (cases a; cases b) auto
      next
        case (Cons c t)
        have sa: "ReplaceAll (c # t) a na = c # ReplaceAll t a na"
          using na ne Cons by (simp add: ReplaceAll_Cons_no_prefix)
        have sb: "ReplaceAll (c # t) b nb = c # ReplaceAll t b nb"
          using nb ne Cons by (simp add: ReplaceAll_Cons_no_prefix)
        have "\<not> prefix b (c # ReplaceAll t a na)"
        proof
          assume p: "prefix b (c # ReplaceAll t a na)"
          then obtain b' where b: "b = c # b'" using ne by (cases b) auto
          with p have "prefix b' (ReplaceAll t a na)" by simp
          moreover have "set b' \<inter> set na = {}" using ib b by auto
          ultimately have "prefix b' t" using prefix_ReplaceAll_back [OF ne(1) ne(3)] by blast
          with b nb Cons show False by simp
        qed
        moreover have "\<not> prefix a (c # ReplaceAll t b nb)"
        proof
          assume p: "prefix a (c # ReplaceAll t b nb)"
          then obtain a' where a: "a = c # a'" using ne by (cases a) auto
          with p have "prefix a' (ReplaceAll t b nb)" by simp
          moreover have "set a' \<inter> set nb = {}" using ia a by auto
          ultimately have "prefix a' t" using prefix_ReplaceAll_back [OF ne(2) ne(4)] by blast
          with a na Cons show False by simp
        qed
        ultimately show ?thesis using 1 Cons ne by (simp add: sa sb ReplaceAll_Cons_no_prefix)
      qed
    qed
  qed
qed


lemma rendered_monthNums: "map (\<lambda>(k, v). (k, Sprint v)) monthNums = rendered"
  by (simp add: monthNums_def rendered_def Sprint_def digitChar_def decimal.simps)

lemma separated_rendered: "separated rendered"
  by (simp add: separated_def apart_def suffixes.simps rendered_def)

lemma separatedD:
  assumes "separated tbl" "(a, x) \<in> set tbl" "(b, y) \<in> set tbl"
  shows "a \<noteq> []" "x \<noteq> []" "set a \<inter> set y = {}" "(a, x) \<noteq> (b, y) \<Longrightarrow> apart a b"
proof -
  from assms(1) have 1: "\<forall>p\<in>set tbl. fst p \<noteq> [] \<and> snd p \<noteq> [] \<and>
      (\<forall>q\<in>set tbl. (\<forall>c\<in>set (fst p). c \<notin> set (snd q)) \<and> (p = q \<or> apart (fst p) (fst q)))"
    by (simp add: separated_def list_all_iff)
  from 1 assms(2) have 2: "a \<noteq> [] \<and> x \<noteq> [] \<and>
      (\<forall>q\<in>set tbl. (\<forall>c\<in>set a. c \<notin> set (snd q)) \<and> ((a, x) = q \<or> apart a (fst q)))"
    by (metis fst_conv snd_conv)
  from 2 show "a \<noteq> []" "x \<noteq> []" by simp_all
  from 2 assms(3) have 3: "(\<forall>c\<in>set a. c \<notin> set y) \<and> ((a, x) = (b, y) \<or> apart a b)"
    by (metis fst_conv snd_conv)
  from 3 show "set a \<inter> set y = {}" by blast
  from 3 show "(a, x) \<noteq> (b, y) \<Longrightarrow> apart a b" by blast
qed

lemma separated_commute:
  assumes "separated tbl" "p \<in> set tbl" "q \<in> set tbl"
  shows "(\<lambda>acc. ReplaceAll acc (fst p) (snd p)) \<circ> (\<lambda>acc. ReplaceAll acc (fst q) (snd q))
       = (\<lambda>acc. ReplaceAll acc (fst q) (snd q)) \<circ> (\<lambda>acc. ReplaceAll acc (fst p) (snd p))"
proof (cases "p = q")
  case True
  then show ?thesis by simp
next
  case False
  obtain a x b y where p: "p = (a, x)" and q: "q = (b, y)" by (cases p; cases q) auto
  have pt: "(a, x) \<in> set tbl" and qt: "(b, y) \<in> set tbl" and ne: "(a, x) \<noteq> (b, y)" "(b, y) \<noteq> (a, x)"
    using assms False p q by auto
  have "ReplaceAll (ReplaceAll s a x) b y = ReplaceAll (ReplaceAll s b y) a x" for s
  proof (rule ReplaceAll_commute)
    show "a \<noteq> []" "x \<noteq> []" using separatedD [OF assms(1) pt qt] by simp_all
    show "b \<noteq> []" "y \<noteq> []" using separatedD [OF assms(1) qt pt] by simp_all
    show "apart a b" using separatedD(4) [OF assms(1) pt qt ne(1)] .
    show "apart b a" using separatedD(4) [OF assms(1) qt pt ne(2)] .
    show "set a \<inter> set y = {}" using separatedD(3) [OF assms(1) pt qt] .
    show "set a \<inter> set x = {}" using separatedD(3) [OF assms(1) pt pt] .
    show "set b \<inter> set x = {}" using separatedD(3) [OF assms(1) qt pt] .
    show "set b \<inter> set y = {}" using separatedD(3) [OF assms(1) qt qt] .
  qed
  then show ?thesis by (simp add: p q fun_eq_iff)
qed

lemma normalizeMonths_rendered:
  "normalizeMonths order s = fold (\<lambda>p acc. ReplaceAll acc (fst p) (snd p)) (map (\<lambda>(k, v). (k, Sprint v)) order) s"
  by (simp add: normalizeMonths_def fold_map comp_def case_prod_unfold)

lemma normalizeMonths_order:
  assumes "mset order = mset monthNums"
  shows "normalizeMonths order s = normalizeMonths monthNums s"
proof -
  let ?r = "map (\<lambda>(k, v). (k, Sprint v)) order"
  have m: "mset ?r = mset rendered"
    using assms by (metis mset_map rendered_monthNums)
  then have "set ?r = set rendered" by (rule mset_eq_setD)
  then have "fold (\<lambda>p acc. ReplaceAll acc (fst p) (snd p)) ?r
           = fold (\<lambda>p acc. ReplaceAll acc (fst p) (snd p)) rendered"
    using m separated_rendered by (intro fold_multiset_equiv) (auto intro: separated_commute)
  then show ?thesis by (simp add: normalizeMonths_rendered rendered_monthNums)
qed

lemma normalize_examples:
  "normalizeMonths monthNums ''january:march'' = ''1:3''"
  "normalizeMonths monthNums ''1:3'' = ''1:3''"
  "normalizeMonths monthNums ''1:4'' = ''1:4''"
  "normalizeMonths monthNums ''may:december'' = ''5:12''"
  "normalizeMonths monthNums ''5:12'' = ''5:12''"
  by (simp_all add: normalizeMonths_rendered rendered_monthNums rendered_def)

text \<open>
  C9. Whatever the order in which the table of months is ranged over, and whatever the key
  and the resource data: \<open>january:march\<close> and \<open>1:3\<close> are equivalent, \<open>january:march\<close> and
  \<open>1:4\<close> are not, and two strings are equivalent exactly when they are equal after every
  month name is replaced by its number.
\<close>

theorem suppressMonthDiff_month_names:
  assumes "mset order = mset monthNums"
  shows "suppressMonthDiff order k ''january:march'' ''1:3'' d
       \<and> \<not> suppressMonthDiff order k ''january:march'' ''1:4'' d
       \<and> (suppressMonthDiff order k oldValue newValue d
            \<longleftrightarrow> normalizeMonths monthNums oldValue = normalizeMonths monthNums newValue)"
  by (simp add: suppressMonthDiff_def normalizeMonths_order [OF assms] normalize_examples)

theorem suppressMonthDiff_month_names_witness:
  "mset (rev monthNums) = mset monthNums
   \<and> suppressMonthDiff (rev monthNums) ''intervals.0.months.0'' ''january:march'' ''1:3'' ()
   \<and> \<not> suppressMonthDiff (rev monthNums) ''intervals.0.months.0'' ''january:march'' ''1:4'' ()
   \<and> suppressMonthDiff (rev monthNums) ''intervals.0.months.0'' ''may:december'' ''5:12'' ()"
proof -
  have h: "mset (rev monthNums) = mset monthNums" by simp
  from suppressMonthDiff_month_names [OF h, of "''intervals.0.months.0''" "()" "''may:december''" "''5:12''"]
  show ?thesis by (simp add: normalize_examples)
qed

section \<open>Mute timings: packing and unpacking intervals\<close>

lemma l2s_s2l: "ListToStringSlice (StringSliceToList xs) = xs"
  by (induction xs) (auto simp: ListToStringSlice_def StringSliceToList_def)

text \<open>A packed time range is a \<open>map[string]string\<close>; \<open>unpackTimeRange\<close> asserts a
  \<open>map[string]interface{}\<close>, so it fails on the first packed range it meets.\<close>

lemma mapM_timerange:
  "mapM unpackTimeRange (map packTimeRange ts) = (if ts = [] then Inr [] else Inl TypeAssertion)"
  by (cases ts) (auto simp: unpackTimeRange_def packTimeRange_def)

lemma lookupNonNil_Nil: "lookupNonNil [] k = None"
  by (simp add: lookupNonNil_def)

lemma lookupNonNil_setSome:
  "lookupNonNil (setSome k v m) k' =
     (case v of None \<Rightarrow> lookupNonNil m k'
      | Some x \<Rightarrow> if k' = k then (if x = VNil then None else Some x) else lookupNonNil m k')"
  by (auto simp: lookupNonNil_def setSome_def update_conv' split: option.splits val.splits)

lemma packInterval_block: "packInterval ti = VMap (packedBlock ti)"
  by (simp add: packedBlock_def packInterval_def)

lemma block_times:
  "lookupNonNil (packedBlock ti) ''times'' =
     map_option (\<lambda>ts. VList (map packTimeRange ts)) (Times ti)"
  by (simp add: packedBlock_def packInterval_def lookupNonNil_setSome lookupNonNil_Nil
      split: option.splits)

lemma block_weekdays: "unpackStrings (packedBlock ti) ''weekdays'' = Inr (Weekdays ti)"
  by (simp add: unpackStrings_def packedBlock_def packInterval_def lookupNonNil_setSome
      lookupNonNil_Nil l2s_s2l split: option.splits)

lemma block_days: "unpackStrings (packedBlock ti) ''days_of_month'' = Inr (DaysOfMonth ti)"
  by (simp add: unpackStrings_def packedBlock_def packInterval_def lookupNonNil_setSome
      lookupNonNil_Nil l2s_s2l split: option.splits)

lemma block_months: "unpackStrings (packedBlock ti) ''months'' = Inr (Months ti)"
  by (simp add: unpackStrings_def packedBlock_def packInterval_def lookupNonNil_setSome
      lookupNonNil_Nil l2s_s2l split: option.splits)

lemma block_years: "unpackStrings (packedBlock ti) ''years'' = Inr (Years ti)"
  by (simp add: unpackStrings_def packedBlock_def packInterval_def lookupNonNil_setSome
      lookupNonNil_Nil l2s_s2l split: option.splits)

lemma block_location:
  "lookupNonNil (packedBlock ti) ''location'' =
     (if Location ti = [] then None else Some (VStr (Location ti)))"
  by (simp add: packedBlock_def packInterval_def lookupNonNil_setSome lookupNonNil_Nil
      split: option.splits)

lemma unpack_pack_interval:
  "unpackInterval (packInterval ti) =
     (if Times ti = None \<or> Times ti = Some [] then Inr ti else Inl TypeAssertion)"
  by (cases "Times ti")
     (simp_all add: unpackInterval_def packInterval_block block_times block_weekdays block_days
        block_months block_years block_location mapM_timerange)

lemma mapM_unpack_pack:
  "mapM unpackInterval (map packInterval ts) =
     (if \<forall>ti\<in>set ts. Times ti = None \<or> Times ti = Some [] then Inr ts else Inl TypeAssertion)"
  by (induction ts) (simp_all add: unpack_pack_interval)


text \<open>
  C10, as amended. Unpacking the packed form of a list of intervals returns the list
  itself, the nil list, nil sub-lists and the empty location kept as they are, when the
  \<open>times\<close> of every interval is nil or empty. When some interval has a time range,
  unpacking the packed form panics on the type assertion of \<open>unpackTimeRange\<close>.
\<close>

theorem unpackIntervals_packIntervals:
  "unpackIntervals (packIntervals nts) =
     (if \<forall>ti\<in>set (case nts of None \<Rightarrow> [] | Some ts \<Rightarrow> ts). Times ti = None \<or> Times ti = Some []
      then Inr nts else Inl TypeAssertion)"
  by (cases nts) (simp_all add: unpackIntervals_def packIntervals_def mapM_unpack_pack)

theorem unpackIntervals_packIntervals_witness:
  "unpackIntervals (packIntervals (Some
      [\<lparr>Times = None, Weekdays = Some [''monday:friday''], DaysOfMonth = None,
        Months = Some [''january:march''], Years = None, Location = ''UTC''\<rparr>,
       \<lparr>Times = Some [], Weekdays = None, DaysOfMonth = Some [''-1''], Months = None,
        Years = Some [], Location = []\<rparr>]))
   = Inr (Some
      [\<lparr>Times = None, Weekdays = Some [''monday:friday''], DaysOfMonth = None,
        Months = Some [''january:march''], Years = None, Location = ''UTC''\<rparr>,
       \<lparr>Times = Some [], Weekdays = None, DaysOfMonth = Some [''-1''], Months = None,
        Years = Some [], Location = []\<rparr>])
   \<and> unpackIntervals (packIntervals None) = Inr None"
  using unpackIntervals_packIntervals [of "Some
      [\<lparr>Times = None, Weekdays = Some [''monday:friday''], DaysOfMonth = None,
        Months = Some [''january:march''], Years = None, Location = ''UTC''\<rparr>,
       \<lparr>Times = Some [], Weekdays = None, DaysOfMonth = Some [''-1''], Months = None,
        Years = Some [], Location = []\<rparr>]"]
    unpackIntervals_packIntervals [of None]
  by simp

text \<open>The claim as it was stated fails at one interval with one time range.\<close>

theorem unpackIntervals_packIntervals_counterexample:
  "unpackIntervals (packIntervals (Some
      [\<lparr>Times = Some [\<lparr>StartTime = ''09:00'', EndTime = ''17:00''\<rparr>], Weekdays = None,
        DaysOfMonth = None, Months = None, Years = None, Location = []\<rparr>]))
   = Inl TypeAssertion"
  by (simp add: unpackIntervals_def packIntervals_def packInterval_def unpackInterval_def
      setSome_def lookupNonNil_def packTimeRange_def unpackTimeRange_def)

section \<open>Contact points: the retry of a create call\<close>

lemma createAttempt_eq:
  assumes "PostContactpoints cl gf (backend w) = (r, b)"
  shows "createAttempt cl orgID gf w =
     ((case r of
         Inl err \<Rightarrow>
           if orgID > 1 then
             (case err of
                RuntimeAPIError c s \<Rightarrow> if c = 500 then RetryableError err else NonRetryableError err
              | _ \<Rightarrow> Panicked TypeAssertion)
           else NonRetryableError err
       | Inr resp \<Rightarrow> Succeeded (UID resp)),
      \<lparr>backend = b, calls = calls w @ [(PostCall gf, isl r)]\<rparr>)"
  using assms by (cases r) (simp_all add: createAttempt_def doPost_def perform_eq)

lemma retry_steps:
  assumes "PostContactpoints cl gf (backend w) = (r, b)"
  shows "r = Inl (RuntimeAPIError 500 s) \<Longrightarrow> 1 < orgID \<Longrightarrow> elapsed + max 1 (wait i) < timeout \<Longrightarrow>
           retryLoop timeout wait elapsed i (createAttempt cl orgID gf) w =
           retryLoop timeout wait (elapsed + max 1 (wait i)) (Suc i) (createAttempt cl orgID gf)
             (posted w gf True b)"
    and "r = Inl (RuntimeAPIError 500 s) \<Longrightarrow> 1 < orgID \<Longrightarrow> timeout \<le> elapsed + max 1 (wait i) \<Longrightarrow>
           retryLoop timeout wait elapsed i (createAttempt cl orgID gf) w =
           (Inr (Inl (RuntimeAPIError 500 s)), posted w gf True b)"
    and "r = Inl err \<Longrightarrow> orgID \<le> 1 \<Longrightarrow>
           retryLoop timeout wait elapsed i (createAttempt cl orgID gf) w =
           (Inr (Inl err), posted w gf True b)"
    and "r = Inl (RuntimeAPIError c s) \<Longrightarrow> c \<noteq> 500 \<Longrightarrow>
           retryLoop timeout wait elapsed i (createAttempt cl orgID gf) w =
           (Inr (Inl (RuntimeAPIError c s)), posted w gf True b)"
    and "r = Inl (ResponseError c s) \<or> r = Inl (OtherError s) \<Longrightarrow> 1 < orgID \<Longrightarrow>
           retryLoop timeout wait elapsed i (createAttempt cl orgID gf) w =
           (Inl TypeAssertion, posted w gf True b)"
    and "r = Inr resp \<Longrightarrow>
           retryLoop timeout wait elapsed i (createAttempt cl orgID gf) w =
           (Inr (Inr (UID resp)), posted w gf False b)"
  using assms
  by (auto simp: retryLoop.simps [of timeout wait elapsed i] createAttempt_eq posted_def)

lemma retry_persistent:
  assumes "\<And>b. \<exists>s b'. PostContactpoints cl gf b = (Inl (RuntimeAPIError 500 s), b')"
  shows "\<exists>s w'. retryLoop timeout wait elapsed i (createAttempt cl orgID gf) w =
                  (Inr (Inl (RuntimeAPIError 500 s)), w')"
proof (induction "timeout - elapsed" arbitrary: elapsed i w rule: less_induct)
  case less
  obtain s b where p: "PostContactpoints cl gf (backend w) = (Inl (RuntimeAPIError 500 s), b)"
    using assms [of "backend w"] by blast
  show ?case
  proof (cases "1 < orgID")
    case False
    then show ?thesis using retry_steps(3) [OF p refl, where orgID = orgID] by auto
  next
    case True
    show ?thesis
    proof (cases "timeout \<le> elapsed + max 1 (wait i)")
      case True
      with \<open>1 < orgID\<close> retry_steps(2) [OF p refl, where orgID = orgID and timeout = timeout
          and elapsed = elapsed and wait = wait and i = i]
      show ?thesis by auto
    next
      case False
      then have "timeout - (elapsed + max 1 (wait i)) < timeout - elapsed" by auto
      from less [OF this] False \<open>1 < orgID\<close>
        retry_steps(1) [OF p refl, where orgID = orgID and timeout = timeout
          and elapsed = elapsed and wait = wait and i = i]
      show ?thesis by auto
    qed
  qed
qed


lemma applyPoints_create:
  assumes "map_of (tfState p) ''uid'' = Some (VStr [])"
  shows "applyPoints cl orgID wait (p # ps) done w =
     (case RetryContext (2 * Minute) wait (createAttempt cl orgID (gfState p)) w of
        (Inl e, w') \<Rightarrow> (Inl e, w')
      | (Inr (Inl err), w') \<Rightarrow> (Inr (Inl (FromErr err)), w')
      | (Inr (Inr uid'), w') \<Rightarrow>
          (case applyPoints cl orgID wait ps (done @ [uid']) w' of
             (Inr (Inr (ps', done')), w'') \<Rightarrow>
               (Inr (Inr (p\<lparr>tfState := AList.update ''uid'' (VStr uid') (tfState p)\<rparr> # ps', done')), w'')
           | r \<Rightarrow> r))"
  using assms by simp

text \<open>
  The cases of a create call. Let \<open>p\<close> be a declared instance without UID and \<open>r\<close> the
  result of its create call in the world \<open>w\<close>; \<open>elapsed\<close> is the time used of the budget of
  two minutes and \<open>i\<close> the number of the attempt.
  \<^item> A failure with status 500, with time left: in an organization above 1 the call is made
    again; in the organization 1 (or below) the error is returned at once.
  \<^item> A failure with status 500 with no time left, and an API error of another status, are
    returned as errors; an error that is not a \<open>*runtime.APIError\<close> is returned in the
    organization 1 and makes the type assertion panic in an organization above 1.
  \<^item> When the create of \<open>p\<close> ends in an error or a panic, so does the loop over the
    instances, in the same world: no further call is made; and the reconciliation returns
    the error as its diagnostics.
  \<^item> When every create call fails with status 500, the loop ends with such an error.
  \<^item> Two failures with status 500 and then a success, with the third attempt inside the
    budget, in an organization above 1: the loop succeeds after the three calls, the one
    UID of the response is recorded, and the reconciliation goes on to the read, whose
    outcome is then its outcome.
\<close>

lemma retry_policy_cases:
  assumes post: "PostContactpoints cl gf (backend w) = (r, b)"
    and new: "map_of (tfState p) ''uid'' = Some (VStr [])" "gfState p = gf"
  shows
    "(r = Inl (RuntimeAPIError 500 s) \<and> elapsed + max 1 (wait i) < 2 * Minute \<longrightarrow>
        (1 < orgID \<longrightarrow>
           retryLoop (2 * Minute) wait elapsed i (createAttempt cl orgID gf) w =
           retryLoop (2 * Minute) wait (elapsed + max 1 (wait i)) (Suc i) (createAttempt cl orgID gf)
             (posted w gf True b))
        \<and> (orgID \<le> 1 \<longrightarrow>
           retryLoop (2 * Minute) wait elapsed i (createAttempt cl orgID gf) w =
           (Inr (Inl (RuntimeAPIError 500 s)), posted w gf True b)))
   \<and> (r = Inl (RuntimeAPIError 500 s) \<and> 2 * Minute \<le> elapsed + max 1 (wait i) \<longrightarrow>
        retryLoop (2 * Minute) wait elapsed i (createAttempt cl orgID gf) w =
        (Inr (Inl (RuntimeAPIError 500 s)), posted w gf True b))
   \<and> (r = Inl (RuntimeAPIError c s) \<and> c \<noteq> 500 \<longrightarrow>
        retryLoop (2 * Minute) wait elapsed i (createAttempt cl orgID gf) w =
        (Inr (Inl (RuntimeAPIError c s)), posted w gf True b))
   \<and> (r = Inl err \<and> (err = ResponseError c s \<or> err = OtherError s) \<longrightarrow>
        retryLoop (2 * Minute) wait elapsed i (createAttempt cl orgID gf) w =
        (if 1 < orgID then Inl TypeAssertion else Inr (Inl err), posted w gf True b))
   \<and> (RetryContext (2 * Minute) wait (createAttempt cl orgID gf) w = (Inr (Inl err), w') \<longrightarrow>
        applyPoints cl orgID wait (p # ps) done w = (Inr (Inl (FromErr err)), w'))
   \<and> (RetryContext (2 * Minute) wait (createAttempt cl orgID gf) w = (Inl e, w') \<longrightarrow>
        applyPoints cl orgID wait (p # ps) done w = (Inl e, w'))
   \<and> ((\<forall>b. \<exists>s b'. PostContactpoints cl gf b = (Inl (RuntimeAPIError 500 s), b')) \<longrightarrow>
        (\<exists>s w'. applyPoints cl orgID wait (p # ps) done w =
                  (Inr (Inl (FromErr (RuntimeAPIError 500 s))), w')))
   \<and> (1 < orgID \<and> r = Inl (RuntimeAPIError 500 s)
        \<and> PostContactpoints cl gf b = (Inl (RuntimeAPIError 500 s2), b2)
        \<and> PostContactpoints cl gf b2 = (Inr resp, b3)
        \<and> max 1 (wait 0) + max 1 (wait 1) < 2 * Minute \<longrightarrow>
        applyPoints cl orgID wait [p] [] w =
          (Inr (Inr ([p\<lparr>tfState := AList.update ''uid'' (VStr (UID resp)) (tfState p)\<rparr>], [UID resp])),
           posted (posted (posted w gf True b) gf True b2) gf False b3))
   \<and> (unpackContactPoints N d = Inr (p # ps) \<and> fetchCurrent cl d w0 = (Inr current, w)
        \<and> orgID = OAPIClientFromNewOrgResource cl d
        \<and> RetryContext (2 * Minute) wait (createAttempt cl orgID gf) w = (Inr (Inl err), w') \<longrightarrow>
        updateContactPoint N cl wait order d w0 = (Inr (FromErr err), d, w'))
   \<and> (unpackContactPoints N d = Inr [p] \<and> fetchCurrent cl d w0 = (Inr [], w)
        \<and> orgID = OAPIClientFromNewOrgResource cl d
        \<and> 1 < orgID \<and> r = Inl (RuntimeAPIError 500 s)
        \<and> PostContactpoints cl gf b = (Inl (RuntimeAPIError 500 s2), b2)
        \<and> PostContactpoints cl gf b2 = (Inr resp, b3)
        \<and> max 1 (wait 0) + max 1 (wait 1) < 2 * Minute \<longrightarrow>
        updateContactPoint N cl wait order d w0 =
          readContactPoint N cl order (d\<lparr>Id := MakeOrgResourceID orgID (nameAttr d)\<rparr>)
            (posted (posted (posted w gf True b) gf True b2) gf False b3))"
proof -
  note st = retry_steps [OF post, where orgID = orgID and elapsed = elapsed and wait = wait
      and i = i and timeout = "2 * Minute"]
  have 1: "r = Inl (RuntimeAPIError 500 s) \<and> elapsed + max 1 (wait i) < 2 * Minute \<longrightarrow>
        (1 < orgID \<longrightarrow>
           retryLoop (2 * Minute) wait elapsed i (createAttempt cl orgID gf) w =
           retryLoop (2 * Minute) wait (elapsed + max 1 (wait i)) (Suc i) (createAttempt cl orgID gf)
             (posted w gf True b))
        \<and> (orgID \<le> 1 \<longrightarrow>
           retryLoop (2 * Minute) wait elapsed i (createAttempt cl orgID gf) w =
           (Inr (Inl (RuntimeAPIError 500 s)), posted w gf True b))"
    using st(1) [where s = s] st(3) [where err = "RuntimeAPIError 500 s"] by blast
  have 2: "r = Inl (RuntimeAPIError 500 s) \<and> 2 * Minute \<le> elapsed + max 1 (wait i) \<longrightarrow>
        retryLoop (2 * Minute) wait elapsed i (createAttempt cl orgID gf) w =
        (Inr (Inl (RuntimeAPIError 500 s)), posted w gf True b)"
    using st(2) [where s = s] st(3) [where err = "RuntimeAPIError 500 s"]
    by (cases "1 < orgID") auto
  have 3: "r = Inl (RuntimeAPIError c s) \<and> c \<noteq> 500 \<longrightarrow>
        retryLoop (2 * Minute) wait elapsed i (createAttempt cl orgID gf) w =
        (Inr (Inl (RuntimeAPIError c s)), posted w gf True b)"
    using st(4) [where c = c and s = s] by blast
  have 4: "r = Inl err \<and> (err = ResponseError c s \<or> err = OtherError s) \<longrightarrow>
        retryLoop (2 * Minute) wait elapsed i (createAttempt cl orgID gf) w =
        (if 1 < orgID then Inl TypeAssertion else Inr (Inl err), posted w gf True b)"
    using st(5) [where c = c and s = s] st(3) [where err = "ResponseError c s"]
      st(3) [where err = "OtherError s"]
    by (cases "1 < orgID") auto
  have 5: "RetryContext (2 * Minute) wait (createAttempt cl orgID gf) w = (Inr (Inl err), w') \<longrightarrow>
        applyPoints cl orgID wait (p # ps) done w = (Inr (Inl (FromErr err)), w')"
    by (simp add: applyPoints_create [OF new(1)] new(2) del: applyPoints.simps(2))
  have 6: "RetryContext (2 * Minute) wait (createAttempt cl orgID gf) w = (Inl e, w') \<longrightarrow>
        applyPoints cl orgID wait (p # ps) done w = (Inl e, w')"
    by (simp add: applyPoints_create [OF new(1)] new(2) del: applyPoints.simps(2))
  have 7: "(\<forall>b. \<exists>s b'. PostContactpoints cl gf b = (Inl (RuntimeAPIError 500 s), b')) \<longrightarrow>
        (\<exists>s w'. applyPoints cl orgID wait (p # ps) done w =
                  (Inr (Inl (FromErr (RuntimeAPIError 500 s))), w'))"
  proof
    assume a: "\<forall>b. \<exists>s b'. PostContactpoints cl gf b = (Inl (RuntimeAPIError 500 s), b')"
    then obtain s w' where "RetryContext (2 * Minute) wait (createAttempt cl orgID gf) w =
        (Inr (Inl (RuntimeAPIError 500 s)), w')"
      unfolding RetryContext_def using retry_persistent [of cl gf "2 * Minute" wait 0 0 orgID w]
      by blast
    then have "applyPoints cl orgID wait (p # ps) done w =
                  (Inr (Inl (FromErr (RuntimeAPIError 500 s))), w')"
      by (simp add: applyPoints_create [OF new(1)] new(2) del: applyPoints.simps(2))
    then show "\<exists>s w'. applyPoints cl orgID wait (p # ps) done w =
                  (Inr (Inl (FromErr (RuntimeAPIError 500 s))), w')"
      by blast
  qed
  have 8: "1 < orgID \<and> r = Inl (RuntimeAPIError 500 s)
        \<and> PostContactpoints cl gf b = (Inl (RuntimeAPIError 500 s2), b2)
        \<and> PostContactpoints cl gf b2 = (Inr resp, b3)
        \<and> max 1 (wait 0) + max 1 (wait 1) < 2 * Minute \<longrightarrow>
        applyPoints cl orgID wait [p] [] w =
          (Inr (Inr ([p\<lparr>tfState := AList.update ''uid'' (VStr (UID resp)) (tfState p)\<rparr>], [UID resp])),
           posted (posted (posted w gf True b) gf True b2) gf False b3)"
  proof (intro impI, elim conjE)
    assume o: "1 < orgID" and r: "r = Inl (RuntimeAPIError 500 s)"
      and p2: "PostContactpoints cl gf b = (Inl (RuntimeAPIError 500 s2), b2)"
      and p3: "PostContactpoints cl gf b2 = (Inr resp, b3)"
      and t: "max 1 (wait 0) + max 1 (wait 1) < 2 * Minute"
    let ?w1 = "posted w gf True b"
    let ?w2 = "posted ?w1 gf True b2"
    let ?w3 = "posted ?w2 gf False b3"
    have p2': "PostContactpoints cl gf (backend ?w1) = (Inl (RuntimeAPIError 500 s2), b2)"
      using p2 by (simp add: posted_def)
    have p3': "PostContactpoints cl gf (backend ?w2) = (Inr resp, b3)"
      using p3 by (simp add: posted_def)
    have t1: "0 + max 1 (wait 0) < 2 * Minute"
      and t2: "0 + max 1 (wait 0) + max 1 (wait (Suc 0)) < 2 * Minute"
      using t by (simp_all add: max_def split: if_splits)
    have a1: "retryLoop (2 * Minute) wait 0 0 (createAttempt cl orgID gf) w =
          retryLoop (2 * Minute) wait (0 + max 1 (wait 0)) (Suc 0) (createAttempt cl orgID gf) ?w1"
      by (rule retry_steps(1) [where wait = wait and i = 0 and elapsed = 0, OF post r o t1])
    have a2: "retryLoop (2 * Minute) wait (0 + max 1 (wait 0)) (Suc 0) (createAttempt cl orgID gf) ?w1 =
          retryLoop (2 * Minute) wait (0 + max 1 (wait 0) + max 1 (wait (Suc 0))) (Suc (Suc 0))
            (createAttempt cl orgID gf) ?w2"
      by (rule retry_steps(1) [where wait = wait and i = "Suc 0" and elapsed = "0 + max 1 (wait 0)",
            OF p2' refl o t2])
    have a3: "retryLoop (2 * Minute) wait (0 + max 1 (wait 0) + max 1 (wait (Suc 0))) (Suc (Suc 0))
            (createAttempt cl orgID gf) ?w2 = (Inr (Inr (UID resp)), ?w3)"
      using retry_steps(6) [OF p3' refl] by simp
    have "RetryContext (2 * Minute) wait (createAttempt cl orgID gf) w = (Inr (Inr (UID resp)), ?w3)"
      unfolding RetryContext_def using a1 a2 a3 by simp
    then show "applyPoints cl orgID wait [p] [] w =
          (Inr (Inr ([p\<lparr>tfState := AList.update ''uid'' (VStr (UID resp)) (tfState p)\<rparr>], [UID resp])), ?w3)"
      by (simp add: applyPoints_create [OF new(1)] new(2) del: applyPoints.simps(2))
  qed
  have 9: "unpackContactPoints N d = Inr (p # ps) \<and> fetchCurrent cl d w0 = (Inr current, w)
        \<and> orgID = OAPIClientFromNewOrgResource cl d
        \<and> RetryContext (2 * Minute) wait (createAttempt cl orgID gf) w = (Inr (Inl err), w') \<longrightarrow>
        updateContactPoint N cl wait order d w0 = (Inr (FromErr err), d, w')"
    by (auto simp: updateContactPoint_def Let_def applyPoints_create [OF new(1)] new(2)
        simp del: applyPoints.simps(2))
  have 10: "unpackContactPoints N d = Inr [p] \<and> fetchCurrent cl d w0 = (Inr [], w)
        \<and> orgID = OAPIClientFromNewOrgResource cl d
        \<and> 1 < orgID \<and> r = Inl (RuntimeAPIError 500 s)
        \<and> PostContactpoints cl gf b = (Inl (RuntimeAPIError 500 s2), b2)
        \<and> PostContactpoints cl gf b2 = (Inr resp, b3)
        \<and> max 1 (wait 0) + max 1 (wait 1) < 2 * Minute \<longrightarrow>
        updateContactPoint N cl wait order d w0 =
          readContactPoint N cl order (d\<lparr>Id := MakeOrgResourceID orgID (nameAttr d)\<rparr>)
            (posted (posted (posted w gf True b) gf True b2) gf False b3)"
    using 8 by (auto simp: updateContactPoint_def Let_def simp del: applyPoints.simps)
  from 1 2 3 4 5 6 7 8 9 10 show ?thesis by blast
qed

lemma unpack_slackOnly: "unpackContactPoints exampleMethods (slackOnly org) = Inr [slackPair]"
  by (simp add: unpackContactPoints_def notifiers_def slackOnly_def dataOf_def GetOk_def
      exampleMethods_def exampleMeta_def unpackPoint_def unpackPointConfig_def exampleUnpack_def
      declared_def unpackCommonNotifierFields_def slackPair_def)

lemma org_slackOnly:
  "2 = OAPIClientFromNewOrgResource (memoryClient 2) (slackOnly ''2'')"
  "1 = OAPIClientFromNewOrgResource (memoryClient 1) (slackOnly ''1'')"
  "2 = OAPIClientFromNewOrgResource brokenClient (slackOnly ''2'')"
  by (simp_all add: OAPIClientFromNewOrgResource_def slackOnly_def dataOf_def ParseInt_def
      digitVal_def)

text \<open>The cases at a new contact point with one slack notifier: two failures with status
  500 and a success in the organization 2, a failure with status 500 in the organization 1,
  and a backend whose create calls always fail.\<close>

lemma retry_policy_example:
  "fst (updateContactPoint exampleMethods (memoryClient 2) (\<lambda>i. 100) id (slackOnly ''2'')
         (worldOf [] [boom, boom])) = Inr []
   \<and> map (\<lambda>v. map_of (case v of VMap m \<Rightarrow> m | _ \<Rightarrow> []) ''uid'')
        (instances (fst (snd (updateContactPoint exampleMethods (memoryClient 2) (\<lambda>i. 100) id
           (slackOnly ''2'') (worldOf [] [boom, boom])))) ''slack'') = [Some (VStr ''u'')]
   \<and> map snd (calls (snd (snd (updateContactPoint exampleMethods (memoryClient 2) (\<lambda>i. 100) id
           (slackOnly ''2'') (worldOf [] [boom, boom]))))) = [True, True, False, False]
   \<and> updateContactPoint exampleMethods (memoryClient 1) (\<lambda>i. 100) id (slackOnly ''1'')
         (worldOf [] [boom, boom])
      = (Inr (FromErr boom), slackOnly ''1'',
         posted (worldOf [] [boom, boom]) (gfState slackPair) True
           \<lparr>store = [], postFailures = [boom], timings = []\<rparr>)
   \<and> (\<exists>s w'. applyPoints brokenClient 2 (\<lambda>i. 100) [slackPair] [] (worldOf [] []) =
          (Inr (Inl (FromErr (RuntimeAPIError 500 s))), w'))"
proof -
  let ?gf = "gfState slackPair"
  let ?w = "worldOf [] [boom, boom]"
  let ?b1 = "\<lparr>store = [], postFailures = [boom], timings = []\<rparr>"
  let ?b2 = "\<lparr>store = [], postFailures = [], timings = []\<rparr>"
  let ?resp = "?gf\<lparr>UID := ''u''\<rparr>"
  let ?b3 = "\<lparr>store = [?resp], postFailures = [], timings = []\<rparr>"
  let ?w3 = "posted (posted (posted ?w ?gf True ?b1) ?gf True ?b2) ?gf False ?b3"
  have new: "map_of (tfState slackPair) ''uid'' = Some (VStr [])" "gfState slackPair = ?gf"
    by (simp_all add: slackPair_def)
  have p1: "PostContactpoints (memoryClient org) ?gf (backend ?w) = (Inl boom, ?b1)" for org
    by (simp add: memoryClient_def memPost_def worldOf_def)
  have p2: "PostContactpoints (memoryClient 2) ?gf ?b1 = (Inl boom, ?b2)"
    by (simp add: memoryClient_def memPost_def)
  have p3: "PostContactpoints (memoryClient 2) ?gf ?b2 = (Inr ?resp, ?b3)"
    by (simp add: memoryClient_def memPost_def freshUID_def)
  have f: "fetchCurrent cl (slackOnly org) ?w = (Inr [], ?w)" for cl :: "memory client" and org
    by (simp add: fetchCurrent_def slackOnly_def dataOf_def)
  have t: "max 1 ((\<lambda>i. 100) (0::nat)) + max 1 ((\<lambda>i. 100) (1::nat)) < 2 * Minute"
    by (simp add: Minute_def)
  note T2 = retry_policy_cases [OF p1 [of 2] new, where orgID = 2 and wait = "\<lambda>i. 100" and s = "''alertmanager not ready''"
      and ?s2.0 = "''alertmanager not ready''" and ?b2.0 = ?b2 and resp = ?resp and ?b3.0 = ?b3
      and N = exampleMethods and d = "slackOnly ''2''" and ?w0.0 = ?w and order = id]
  have A: "updateContactPoint exampleMethods (memoryClient 2) (\<lambda>i. 100) id (slackOnly ''2'') ?w =
      readContactPoint exampleMethods (memoryClient 2) id
        ((slackOnly ''2'')\<lparr>Id := MakeOrgResourceID 2 (nameAttr (slackOnly ''2''))\<rparr>) ?w3"
    using T2 unpack_slackOnly [of "''2''"] f [of "memoryClient 2" "''2''"] org_slackOnly(1) p2 p3 t
    by (simp add: boom_def)
  have R: "fst (readContactPoint exampleMethods (memoryClient 2) id
        ((slackOnly ''2'')\<lparr>Id := MakeOrgResourceID 2 (nameAttr (slackOnly ''2''))\<rparr>) ?w3) = Inr []"
    "map (\<lambda>v. map_of (case v of VMap m \<Rightarrow> m | _ \<Rightarrow> []) ''uid'')
        (instances (fst (snd (readContactPoint exampleMethods (memoryClient 2) id
        ((slackOnly ''2'')\<lparr>Id := MakeOrgResourceID 2 (nameAttr (slackOnly ''2''))\<rparr>) ?w3))) ''slack'')
       = [Some (VStr ''u'')]"
    "map snd (calls (snd (snd (readContactPoint exampleMethods (memoryClient 2) id
        ((slackOnly ''2'')\<lparr>Id := MakeOrgResourceID 2 (nameAttr (slackOnly ''2''))\<rparr>) ?w3))))
       = [True, True, False, False]"
    by code_simp+
  note T1 = retry_policy_cases [OF p1 [of 1] new, where orgID = 1 and wait = "\<lambda>i. 100" and s = "''alertmanager not ready''"
      and elapsed = 0 and i = 0 and err = boom and w' = "posted ?w ?gf True ?b1"
      and N = exampleMethods and d = "slackOnly ''1''" and ?w0.0 = ?w and order = id and ps = "[]"]
  have B: "updateContactPoint exampleMethods (memoryClient 1) (\<lambda>i. 100) id (slackOnly ''1'') ?w
      = (Inr (FromErr boom), slackOnly ''1'', posted ?w ?gf True ?b1)"
    using T1 unpack_slackOnly [of "''1''"] f [of "memoryClient 1" "''1''"] org_slackOnly(2)
    by (simp add: boom_def RetryContext_def Minute_def)
  have p4: "PostContactpoints brokenClient ?gf (backend (worldOf [] [])) = (Inl boom, backend (worldOf [] []))"
    by (simp add: brokenClient_def)
  have all: "\<forall>b. \<exists>s b'. PostContactpoints brokenClient ?gf b = (Inl (RuntimeAPIError 500 s), b')"
    by (simp add: brokenClient_def boom_def)
  note T3 = retry_policy_cases [OF p4 new, where orgID = 2 and wait = "\<lambda>i. 100" and ps = "[]" and ?done.0 = "[]"]
  have C: "\<exists>s w'. applyPoints brokenClient 2 (\<lambda>i. 100) [slackPair] [] (worldOf [] []) =
          (Inr (Inl (FromErr (RuntimeAPIError 500 s))), w')"
    using T3 all by blast
  from A R B C show ?thesis by simp
qed

text \<open>
  C3. A create failure that is not a status 500 is to end the reconciliation with the error.
  The function given to the retry evaluates \<open>err.(*runtime.APIError)\<close> in its first
  condition, in an organization above 1, before the branch that returns the error as not
  retryable: an error of another type, such as the typed response of a status 400, makes
  that type assertion panic. For a new contact point with one slack notifier whose create
  call fails with such an error, the reconciliation in the organization 2 ends in the panic
  after the one call, with no diagnostics, while in the organization 1 the same error, and
  in the organization 2 a \<open>*runtime.APIError\<close> of status 400, are returned as the error
  diagnostic.
\<close>

theorem create_error_type_assertion:
  "updateContactPoint exampleMethods (memoryClient 2) (\<lambda>i. 100) id (slackOnly ''2'')
       (worldOf [] [badRequest])
     = (Inl TypeAssertion, slackOnly ''2'',
        posted (worldOf [] [badRequest]) (gfState slackPair) True
          \<lparr>store = [], postFailures = [], timings = []\<rparr>)
   \<and> updateContactPoint exampleMethods (memoryClient 1) (\<lambda>i. 100) id (slackOnly ''1'')
       (worldOf [] [badRequest])
     = (Inr [Diagnostic Error (ErrorText badRequest)], slackOnly ''1'',
        posted (worldOf [] [badRequest]) (gfState slackPair) True
          \<lparr>store = [], postFailures = [], timings = []\<rparr>)
   \<and> updateContactPoint exampleMethods (memoryClient 2) (\<lambda>i. 100) id (slackOnly ''2'')
       (worldOf [] [RuntimeAPIError 400 ''bad request''])
     = (Inr [Diagnostic Error (ErrorText (RuntimeAPIError 400 ''bad request''))], slackOnly ''2'',
        posted (worldOf [] [RuntimeAPIError 400 ''bad request'']) (gfState slackPair) True
          \<lparr>store = [], postFailures = [], timings = []\<rparr>)"
proof -
  have p: "PostContactpoints (memoryClient org) (gfState slackPair) (backend (worldOf [] [e]))
      = (Inl e, \<lparr>store = [], postFailures = [], timings = []\<rparr>)" for org e
    by (simp add: memoryClient_def memPost_def worldOf_def)
  have f: "fetchCurrent cl (slackOnly org) w = (Inr [], w)" for cl :: "memory client" and org w
    by (simp add: fetchCurrent_def slackOnly_def dataOf_def)
  have u: "assertString (case map_of (tfState slackPair) ''uid'' of Some v \<Rightarrow> v | None \<Rightarrow> VNil) = Inr []"
    by (simp add: slackPair_def)
  have a: "applyPoints (memoryClient org) orgID (\<lambda>i. 100) [slackPair] [] (worldOf [] [e]) =
     (case retryLoop (2 * Minute) (\<lambda>i. 100) 0 0 (createAttempt (memoryClient org) orgID (gfState slackPair))
             (worldOf [] [e]) of
        (Inl x, w') \<Rightarrow> (Inl x, w')
      | (Inr (Inl err), w') \<Rightarrow> (Inr (Inl (FromErr err)), w')
      | (Inr (Inr uid'), w') \<Rightarrow>
          (Inr (Inr ([slackPair\<lparr>tfState := AList.update ''uid'' (VStr uid') (tfState slackPair)\<rparr>],
             [uid'])), w'))" for org orgID e
    by (simp add: u RetryContext_def split: prod.splits sum.splits)
  have 1: "updateContactPoint exampleMethods (memoryClient 2) (\<lambda>i. 100) id (slackOnly ''2'')
       (worldOf [] [badRequest])
     = (Inl TypeAssertion, slackOnly ''2'',
        posted (worldOf [] [badRequest]) (gfState slackPair) True
          \<lparr>store = [], postFailures = [], timings = []\<rparr>)"
    using org_slackOnly(1)
    by (simp add: updateContactPoint_def unpack_slackOnly f a
        retry_steps(5) [OF p, where s = "''bad request''" and c = 400] badRequest_def
        del: applyPoints.simps)
  have 2: "updateContactPoint exampleMethods (memoryClient 1) (\<lambda>i. 100) id (slackOnly ''1'')
       (worldOf [] [badRequest])
     = (Inr [Diagnostic Error (ErrorText badRequest)], slackOnly ''1'',
        posted (worldOf [] [badRequest]) (gfState slackPair) True
          \<lparr>store = [], postFailures = [], timings = []\<rparr>)"
    using org_slackOnly(2)
    by (simp add: updateContactPoint_def unpack_slackOnly f a
        retry_steps(3) [OF p] FromErr_def del: applyPoints.simps)
  have 3: "updateContactPoint exampleMethods (memoryClient 2) (\<lambda>i. 100) id (slackOnly ''2'')
       (worldOf [] [RuntimeAPIError 400 ''bad request''])
     = (Inr [Diagnostic Error (ErrorText (RuntimeAPIError 400 ''bad request''))], slackOnly ''2'',
        posted (worldOf [] [RuntimeAPIError 400 ''bad request'']) (gfState slackPair) True
          \<lparr>store = [], postFailures = [], timings = []\<rparr>)"
    using org_slackOnly(1)
    by (simp add: updateContactPoint_def unpack_slackOnly f a
        retry_steps(4) [OF p] FromErr_def del: applyPoints.simps)
  from 1 2 3 show ?thesis by blast
qed

section \<open>identifier round trip\<close>

lemma digitVal_digitChar: "k < 10 \<Longrightarrow> digitVal (digitChar k) = Some k"
proof -
  assume "k < 10"
  then have "k \<in> {0, 1, 2, 3, 4, 5, 6, 7, 8, 9}" by auto
  then show ?thesis
    by (auto simp: digitVal_def digitChar_def)
qed

lemma digitChar_not_colon: "k < 10 \<Longrightarrow> digitChar k \<noteq> CHR '':'' \<and> digitChar k \<noteq> CHR ''-'' \<and> digitChar k \<noteq> CHR ''+''"
proof -
  assume "k < 10"
  then have "k \<in> {0, 1, 2, 3, 4, 5, 6, 7, 8, 9}" by auto
  then show ?thesis
    by (auto simp: digitChar_def)
qed

lemma parseNat_append:
  "parseNat acc (xs @ ys) = (case parseNat acc xs of None \<Rightarrow> None | Some a \<Rightarrow> parseNat a ys)"
  by (induction xs arbitrary: acc) (auto split: option.splits)

lemma parseNat_decimal: "parseNat 0 (decimal n) = Some n"
proof (induction n rule: decimal.induct)
  case (1 n)
  show ?case
  proof (cases "n < 10")
    case True
    then show ?thesis by (simp add: decimal.simps [of n] digitVal_digitChar)
  next
    case False
    then have "parseNat 0 (decimal (n div 10)) = Some (n div 10)" using 1 by simp
    with False show ?thesis
      by (simp add: decimal.simps [of n] parseNat_append digitVal_digitChar)
  qed
qed

lemma decimal_chars: "c \<in> set (decimal n) \<Longrightarrow> c \<noteq> CHR '':'' \<and> c \<noteq> CHR ''-'' \<and> c \<noteq> CHR ''+''"
proof (induction n rule: decimal.induct)
  case (1 n)
  show ?case
  proof (cases "n < 10")
    case True
    with 1(2) show ?thesis using digitChar_not_colon [of n]
      by (simp add: decimal.simps [of n])
  next
    case False
    with 1 show ?thesis using digitChar_not_colon [of "n mod 10"]
      by (auto simp: decimal.simps [of n])
  qed
qed

lemma decimal_nonempty: "decimal n \<noteq> []"
  by (subst decimal.simps) auto

lemma ParseInt_Sprint: "ParseInt (Sprint i) = i"
proof (cases "i < 0")
  case True
  then show ?thesis
    by (simp add: ParseInt_def Sprint_def parseNat_decimal decimal_nonempty)
next
  case False
  obtain c cs where d: "decimal (nat i) = c # cs" using decimal_nonempty [of "nat i"]
    by (cases "decimal (nat i)") auto
  then have "c \<noteq> CHR ''-''" "c \<noteq> CHR ''+''" using decimal_chars [of c "nat i"] by auto
  moreover have "parseNat 0 (c # cs) = Some (nat i)" using parseNat_decimal [of "nat i"] d by simp
  ultimately show ?thesis using False d
    by (simp add: ParseInt_def Sprint_def del: parseNat.simps)
qed

lemma Sprint_no_colon: "CHR '':'' \<notin> set (Sprint i)"
  using decimal_chars by (auto simp: Sprint_def)

lemma Split_Make: "SplitOrgResourceID (MakeOrgResourceID orgID nm) = (orgID, nm)"
proof -
  have t: "takeWhile (\<lambda>c. c \<noteq> CHR '':'') (Sprint orgID @ CHR '':'' # nm) = Sprint orgID"
    using Sprint_no_colon [of orgID] by (simp add: takeWhile_append)
  have d: "dropWhile (\<lambda>c. c \<noteq> CHR '':'') (Sprint orgID @ CHR '':'' # nm) = CHR '':'' # nm"
    using Sprint_no_colon [of orgID] by (simp add: dropWhile_append)
  show ?thesis
    using t d by (simp add: SplitOrgResourceID_def MakeOrgResourceID_def ParseInt_Sprint)
qed

lemma existing_of_new:
  "OAPIClientFromExistingOrgResource cl
     (MakeOrgResourceID (OAPIClientFromNewOrgResource cl d) nm) =
   (OAPIClientFromNewOrgResource cl d, nm)"
  by (simp add: OAPIClientFromExistingOrgResource_def Split_Make OAPIClientFromNewOrgResource_def
      Let_def)

section \<open>The reference backend\<close>

lemma assert_declared:
  "hasUID p \<Longrightarrow>
   assertString (case map_of (tfState p) ''uid'' of Some v \<Rightarrow> v | None \<Rightarrow> VNil) = Inr (declaredUID p)"
  by (auto simp: hasUID_def declaredUID_def split: option.splits val.splits)

lemma map_UID_memReplace: "map UID (memReplace uid p s) = map UID s"
  by (induction s) (auto simp: memReplace_def)

lemma UID_memReplace: "UID ` set (memReplace uid p s) = UID ` set s"
  using map_UID_memReplace [of uid p s] by (metis set_map)

lemma mem_put:
  "uid \<in> UID ` set (store b) \<Longrightarrow>
   doPut (memoryClient org) uid p \<lparr>backend = b, calls = cs\<rparr> =
     (Inr (), \<lparr>backend = b\<lparr>store := memReplace uid p (store b)\<rparr>, calls = cs @ [(PutCall uid p, False)]\<rparr>)"
  by (auto simp: doPut_def perform_def memoryClient_def memPut_def memReplace_def list_ex_iff)

lemma mem_create:
  "postFailures b = [] \<Longrightarrow>
   RetryContext t wait (createAttempt (memoryClient org) orgID p) \<lparr>backend = b, calls = cs\<rparr> =
     (Inr (Inr (freshUID (store b))),
      \<lparr>backend = b\<lparr>store := store b @ [p\<lparr>UID := freshUID (store b)\<rparr>]\<rparr>,
       calls = cs @ [(PostCall p, False)]\<rparr>)"
  by (simp add: RetryContext_def retryLoop.simps [of t wait 0 0] createAttempt_def doPost_def
      perform_def memoryClient_def memPost_def)

lemma memory_apply:
  assumes "postFailures b = []"
    and "\<forall>p\<in>set ps. hasUID p"
    and "\<forall>p\<in>set ps. declaredUID p \<noteq> [] \<longrightarrow> declaredUID p \<in> UID ` set (store b)"
  shows "applyPoints (memoryClient org) orgID wait ps done \<lparr>backend = b, calls = cs\<rparr> =
     (Inr (Inr (map2 withUID (snd (memApply (store b) ps)) ps, done @ snd (memApply (store b) ps))),
      \<lparr>backend = b\<lparr>store := fst (memApply (store b) ps)\<rparr>,
       calls = cs @ map (\<lambda>p. (applyCall p, False)) ps\<rparr>)"
  using assms
proof (induction ps arbitrary: b cs "done")
  case Nil
  then show ?case by simp
next
  case (Cons p ps)
  have a: "assertString (case map_of (tfState p) ''uid'' of Some v \<Rightarrow> v | None \<Rightarrow> VNil) = Inr (declaredUID p)"
    using Cons.prems(2) by (simp add: assert_declared)
  show ?case
  proof (cases "declaredUID p = []")
    case True
    let ?b = "b\<lparr>store := store b @ [(gfState p)\<lparr>UID := freshUID (store b)\<rparr>]\<rparr>"
    have "applyPoints (memoryClient org) orgID wait ps (done @ [freshUID (store b)])
            \<lparr>backend = ?b, calls = cs @ [(PostCall (gfState p), False)]\<rparr> =
          (Inr (Inr (map2 withUID (snd (memApply (store ?b) ps)) ps,
                     (done @ [freshUID (store b)]) @ snd (memApply (store ?b) ps))),
           \<lparr>backend = ?b\<lparr>store := fst (memApply (store ?b) ps)\<rparr>,
            calls = (cs @ [(PostCall (gfState p), False)]) @ map (\<lambda>p. (applyCall p, False)) ps\<rparr>)"
      using Cons.prems by (intro Cons.IH) auto
    with True a Cons.prems(1) show ?thesis
      by (simp add: mem_create applyCall_def withUID_def split: prod.splits)
  next
    case False
    let ?b = "b\<lparr>store := memReplace (declaredUID p) (gfState p) (store b)\<rparr>"
    have in_store: "declaredUID p \<in> UID ` set (store b)" using False Cons.prems(3) by simp
    have "applyPoints (memoryClient org) orgID wait ps (done @ [declaredUID p])
            \<lparr>backend = ?b, calls = cs @ [(PutCall (declaredUID p) (gfState p), False)]\<rparr> =
          (Inr (Inr (map2 withUID (snd (memApply (store ?b) ps)) ps,
                     (done @ [declaredUID p]) @ snd (memApply (store ?b) ps))),
           \<lparr>backend = ?b\<lparr>store := fst (memApply (store ?b) ps)\<rparr>,
            calls = (cs @ [(PutCall (declaredUID p) (gfState p), False)]) @ map (\<lambda>p. (applyCall p, False)) ps\<rparr>)"
      using Cons.prems by (intro Cons.IH) (auto simp: UID_memReplace)
    with False a show ?thesis
      by (simp add: mem_put [OF in_store] applyCall_def withUID_def split: prod.splits)
  qed
qed


lemma mem_list:
  "doGet (memoryClient org) nm \<lparr>backend = b, calls = cs\<rparr> =
     (Inr (case nm of None \<Rightarrow> store b | Some n \<Rightarrow> filter (\<lambda>p. Name p = n) (store b)),
      \<lparr>backend = b, calls = cs @ [(GetCall nm, False)]\<rparr>)"
  by (simp add: doGet_def perform_def memoryClient_def memGet_def)


lemma memory_fetchCurrent:
  "fetchCurrent (memoryClient org) d \<lparr>backend = b, calls = cs\<rparr> =
     (if IsNewResource d then (Inr [], \<lparr>backend = b, calls = cs\<rparr>)
      else (Inr (filter (\<lambda>p. Name p = nameAttr d) (store b)),
            \<lparr>backend = b, calls = cs @ [(GetCall (Some (nameAttr d)), False)]\<rparr>))"
  by (simp add: fetchCurrent_def mem_list)

text \<open>all packs succeed\<close>

lemma packInto_ok:
  assumes "Type p = Some t"
    and "\<forall>n\<in>set ns. ofKind N n p \<longrightarrow> (\<exists>v. pack N n p d = Inr (Inr v))"
  shows "\<exists>acc'. packInto N p d acc ns = Inr (Inr acc')"
  using assms
proof (induction ns arbitrary: acc)
  case Nil
  then show ?case by simp
next
  case (Cons n ns)
  show ?case
  proof (cases "t = typeStr (meta N n)")
    case True
    with Cons.prems obtain v where "pack N n p d = Inr (Inr v)" by (auto simp: ofKind_def)
    with True Cons show ?thesis by simp
  next
    case False
    with Cons show ?thesis by simp
  qed
qed

lemma packAll_ok:
  assumes "\<forall>p\<in>set ps. Type p \<noteq> None"
    and "\<forall>p\<in>set ps. \<forall>n. ofKind N n p \<longrightarrow> (\<exists>v. pack N n p (d\<lparr>nameAttr := Name p\<rparr>) = Inr (Inr v))"
  shows "\<exists>acc'. fst (packAll N ps d acc) = Inr (Inr acc')"
  using assms
proof (induction ps arbitrary: d acc)
  case Nil
  then show ?case by simp
next
  case (Cons p ps)
  from Cons.prems obtain t where t: "Type p = Some t" by auto
  obtain acc1 where a: "packInto N p (d\<lparr>nameAttr := Name p\<rparr>) acc notifiers = Inr (Inr acc1)"
    using packInto_ok [OF t, of notifiers N "d\<lparr>nameAttr := Name p\<rparr>" acc] Cons.prems(2) by auto
  have "\<exists>acc'. fst (packAll N ps (d\<lparr>nameAttr := Name p\<rparr>) acc1) = Inr (Inr acc')"
    using Cons.prems by (intro Cons.IH) auto
  with a show ?case by (simp add: Let_def)
qed

lemma packContactPoints_ok:
  assumes "\<forall>p\<in>set ps. Type p \<noteq> None"
    and "\<forall>p\<in>set ps. \<forall>n. ofKind N n p \<longrightarrow> (\<exists>v. pack N n p (d\<lparr>nameAttr := Name p\<rparr>) = Inr (Inr v))"
    and "distinct (map (\<lambda>n. field (meta N n)) notifiers)"
  shows "fst (packContactPoints N ps d) = Inr (Inr ())"
    and "\<exists>pts. map (\<lambda>v. Inr (Inr v)) pts =
                map (\<lambda>p. pack N n p (d\<lparr>nameAttr := Name p\<rparr>)) (filter (ofKind N n) ps)
          \<and> instances (snd (packContactPoints N ps d)) (field (meta N n)) =
              (if pts = [] then instances d (field (meta N n)) else pts)"
    and "Id (snd (packContactPoints N ps d)) = Id d"
proof -
  obtain acc where a: "fst (packAll N ps d (\<lambda>n. [])) = Inr (Inr acc)"
    using packAll_ok [OF assms(1,2)] by blast
  then obtain d' where p: "packAll N ps d (\<lambda>n. []) = (Inr (Inr acc), d')"
    by (cases "packAll N ps d (\<lambda>n. [])") auto
  show "fst (packContactPoints N ps d) = Inr (Inr ())"
    using p by (simp add: packContactPoints_def)
  have d': "instances d' = instances d" using packAll_instances [of N ps d "\<lambda>n. []"] p by simp
  have "map (\<lambda>v. Inr (Inr v)) (acc n) =
        map (\<lambda>p. pack N n p (d\<lparr>nameAttr := Name p\<rparr>)) (filter (ofKind N n) ps)"
    using packAll_acc [OF a, of n] by simp
  moreover have "instances (snd (packContactPoints N ps d)) (field (meta N n)) =
        (if acc n = [] then instances d (field (meta N n)) else acc n)"
    using p by (simp add: packContactPoints_def setPacked_instances [OF assms(3)] d')
  ultimately show "\<exists>pts. map (\<lambda>v. Inr (Inr v)) pts =
                map (\<lambda>p. pack N n p (d\<lparr>nameAttr := Name p\<rparr>)) (filter (ofKind N n) ps)
          \<and> instances (snd (packContactPoints N ps d)) (field (meta N n)) =
              (if pts = [] then instances d (field (meta N n)) else pts)"
    by blast
  have "Id (snd (packAll N qs e acc0)) = Id e" for qs e acc0
    by (induction qs arbitrary: e acc0) (auto simp: Let_def split: sum.splits)
  moreover have "Id (setPacked N acc0 e) = Id e" for acc0 e
  proof -
    have "Id (fold (\<lambda>n d. SetInstances (field (meta N n)) (acc0 n) d) ns e) = Id e" for ns
      by (induction ns arbitrary: e) (auto simp: SetInstances_def)
    then show ?thesis by (simp add: setPacked_def)
  qed
  ultimately show "Id (snd (packContactPoints N ps d)) = Id d"
    using p by (simp add: packContactPoints_def) (metis snd_conv)
qed

lemma mapM_unpackPoint:
  assumes U: "\<forall>n raw nm pt. unpack N n raw nm = Inr pt \<longrightarrow> Name pt = nm \<and> Type pt = Some (typeStr (meta N n))"
  shows "mapM (unpackPoint N n nm) xs = Inr ys \<Longrightarrow>
     length ys = length xs \<and>
     (\<forall>p\<in>set ys. Name (gfState p) = nm \<and> Type (gfState p) = Some (typeStr (meta N n)))"
proof (induction xs arbitrary: ys)
  case Nil
  then show ?case by simp
next
  case (Cons x xs)
  from Cons.prems obtain y ys' where y: "unpackPoint N n nm x = Inr y"
    and r: "mapM (unpackPoint N n nm) xs = Inr ys'" and ys: "ys = y # ys'"
    by (auto split: sum.splits)
  from y U have "Name (gfState y) = nm \<and> Type (gfState y) = Some (typeStr (meta N n))"
    by (auto simp: unpackPoint_def unpackPointConfig_def split: sum.splits)
  with Cons.IH [OF r] ys show ?case by simp
qed

lemma unpackKinds_tags:
  assumes U: "\<forall>n raw nm pt. unpack N n raw nm = Inr pt \<longrightarrow> Name pt = nm \<and> Type pt = Some (typeStr (meta N n))"
  shows "unpackKinds N d ns = Inr ps \<Longrightarrow>
     (\<forall>p\<in>set ps. Name (gfState p) = nameAttr d \<and> (\<exists>n\<in>set ns. Type (gfState p) = Some (typeStr (meta N n))))
     \<and> (\<forall>n\<in>set ns. instances d (field (meta N n)) \<noteq> [] \<longrightarrow>
           (\<exists>p\<in>set ps. Type (gfState p) = Some (typeStr (meta N n))))
     \<and> length ps = sum_list (map (\<lambda>n. length (instances d (field (meta N n)))) ns)"
proof (induction ns arbitrary: ps)
  case Nil
  then show ?case by simp
next
  case (Cons n ns)
  let ?pts = "instances d (field (meta N n))"
  from Cons.prems obtain here rest where
    h: "(case GetOk d (field (meta N n)) of None \<Rightarrow> Inr []
        | Some points \<Rightarrow> mapM (unpackPoint N n (nameAttr d)) points) = Inr here"
    and r: "unpackKinds N d ns = Inr rest" and ps: "ps = here @ rest"
    by (auto split: sum.splits)
  have here: "length here = length ?pts \<and>
     (\<forall>p\<in>set here. Name (gfState p) = nameAttr d \<and> Type (gfState p) = Some (typeStr (meta N n)))"
  proof (cases "?pts = []")
    case True
    with h show ?thesis by (simp add: GetOk_def)
  next
    case False
    with h have "mapM (unpackPoint N n (nameAttr d)) ?pts = Inr here" by (simp add: GetOk_def)
    then show ?thesis by (rule mapM_unpackPoint [OF U])
  qed
  note IH = Cons.IH [OF r]
  have 1: "\<forall>p\<in>set ps. Name (gfState p) = nameAttr d \<and>
             (\<exists>m\<in>set (n # ns). Type (gfState p) = Some (typeStr (meta N m)))"
    using here IH ps by auto
  have 2: "\<forall>m\<in>set (n # ns). instances d (field (meta N m)) \<noteq> [] \<longrightarrow>
           (\<exists>p\<in>set ps. Type (gfState p) = Some (typeStr (meta N m)))"
  proof
    fix m assume m: "m \<in> set (n # ns)"
    show "instances d (field (meta N m)) \<noteq> [] \<longrightarrow>
           (\<exists>p\<in>set ps. Type (gfState p) = Some (typeStr (meta N m)))"
    proof (cases "m = n")
      case True
      show ?thesis
      proof
        assume "instances d (field (meta N m)) \<noteq> []"
        with True here have "here \<noteq> []" by auto
        then obtain p where "p \<in> set here" by (cases here) auto
        with here True ps show "\<exists>p\<in>set ps. Type (gfState p) = Some (typeStr (meta N m))" by auto
      qed
    next
      case False
      with m IH ps show ?thesis by auto
    qed
  qed
  have 3: "length ps = sum_list (map (\<lambda>n. length (instances d (field (meta N n)))) (n # ns))"
    using here IH ps by simp
  from 1 2 3 show ?case by blast
qed

lemma memApply_new:
  "\<forall>p\<in>set ps. declaredUID p = [] \<Longrightarrow>
   \<exists>cr. memApply s ps = (s @ cr, map UID cr)
       \<and> list_all2 (\<lambda>q p. \<exists>u. u \<noteq> [] \<and> q = (gfState p)\<lparr>UID := u\<rparr>) cr ps"
proof (induction ps arbitrary: s)
  case Nil
  then show ?case by simp
next
  case (Cons p ps)
  let ?q = "(gfState p)\<lparr>UID := freshUID s\<rparr>"
  have "\<forall>p\<in>set ps. declaredUID p = []" using Cons.prems by simp
  from Cons.IH [OF this, of "s @ [?q]"]
  obtain cr where cr: "memApply (s @ [?q]) ps = ((s @ [?q]) @ cr, map UID cr)"
    and l: "list_all2 (\<lambda>q p. \<exists>u. u \<noteq> [] \<and> q = (gfState p)\<lparr>UID := u\<rparr>) cr ps"
    by blast
  have "freshUID s \<noteq> []" by (simp add: freshUID_def)
  then have "\<exists>u. u \<noteq> [] \<and> ?q = (gfState p)\<lparr>UID := u\<rparr>" by blast
  with cr l Cons.prems show ?case
    by (intro exI [of _ "?q # cr"]) simp
qed

section \<open>Creating new instances\<close>

lemma hasUID_empty:
  "map_of (tfState p) ''uid'' = Some (VStr []) \<Longrightarrow> hasUID p \<and> declaredUID p = []"
  by (simp add: hasUID_def declaredUID_def)

lemma ofKind_UID [simp]: "ofKind N n (p\<lparr>UID := u\<rparr>) = ofKind N n p"
  by (simp add: ofKind_def)

text \<open>C1. A desired set of \<open>N\<close> instances that all carry an empty UID, reconciled by
  \<open>updateContactPoint\<close> against a backend that holds no record of the contact point's name
  and whose create calls succeed, gives no diagnostics; the calls are the listing of the
  current set (not made for a new resource), one create call for each instance, in order,
  and the listing of the read: no update call and no delete call; \<open>N\<close> is the number of the
  declared instances, the fields of the kinds of the resulting state hold \<open>N\<close> instances in
  all, and each of them is a block whose \<open>uid\<close> is a non-empty string. The backend is the
  reference backend; the kinds are any whose \<open>unpack\<close> sets the name and the type of the
  kind and whose \<open>pack\<close> succeeds with the UID of the record, no two kinds sharing a type
  or a field.\<close>

theorem new_instances_are_created:
  assumes U: "\<forall>n raw nm pt. unpack N n raw nm = Inr pt \<longrightarrow>
                Name pt = nm \<and> Type pt = Some (typeStr (meta N n))"
    and P: "\<forall>p\<in>set ps. \<forall>n u d'. ofKind N n (gfState p) \<longrightarrow> instances d' = instances d \<longrightarrow>
              (\<exists>m. pack N n ((gfState p)\<lparr>UID := u\<rparr>) d' = Inr (Inr (VMap m))
                   \<and> map_of m ''uid'' = Some (VStr u))"
    and types: "distinct (map (\<lambda>n. typeStr (meta N n)) notifiers)"
    and fields: "distinct (map (\<lambda>n. field (meta N n)) notifiers)"
    and desired: "unpackContactPoints N d = Inr ps" "ps \<noteq> []"
      "\<forall>p\<in>set ps. map_of (tfState p) ''uid'' = Some (VStr [])"
    and remote: "postFailures (backend w) = []" "\<forall>q\<in>set (store (backend w)). Name q \<noteq> nameAttr d"
    and run: "updateContactPoint N (memoryClient org) wait order d w = (r, d', w')"
  shows "r = Inr []
    \<and> calls w' = calls w
         @ (if IsNewResource d then [] else [(GetCall (Some (nameAttr d)), False)])
         @ map (\<lambda>p. (PostCall (gfState p), False)) ps
         @ [(GetCall (Some (nameAttr d)), False)]
    \<and> length ps = sum_list (map (\<lambda>n. length (instances d (field (meta N n)))) notifiers)
    \<and> sum_list (map (\<lambda>n. length (instances d' (field (meta N n)))) notifiers) = length ps
    \<and> (\<forall>n. \<forall>v\<in>set (instances d' (field (meta N n))).
          \<exists>m u. v = VMap m \<and> map_of m ''uid'' = Some (VStr u) \<and> u \<noteq> [])"
proof -
  let ?cl = "memoryClient org"
  let ?nm = "nameAttr d"
  let ?org = "OAPIClientFromNewOrgResource ?cl d"
  obtain b cs where w: "w = \<lparr>backend = b, calls = cs\<rparr>" by (cases w) auto
  have pf: "postFailures b = []" and none: "filter (\<lambda>p. Name p = ?nm) (store b) = []"
    using remote w by (auto simp: filter_empty_conv)
  \<comment> \<open>the declared instances\<close>
  note tags = unpackKinds_tags [OF U desired(1) [unfolded unpackContactPoints_def]]
  have nm: "\<forall>p\<in>set ps. Name (gfState p) = ?nm" using tags by blast
  have ty: "\<forall>p\<in>set ps. \<exists>n. ofKind N n (gfState p)" using tags by (auto simp: ofKind_def)
  have len: "length ps = sum_list (map (\<lambda>n. length (instances d (field (meta N n)))) notifiers)"
    using tags by blast
  have declared: "\<forall>n. instances d (field (meta N n)) \<noteq> [] \<longrightarrow> (\<exists>p\<in>set ps. ofKind N n (gfState p))"
    using tags by (auto simp: ofKind_def all_notifiers)
  have uid: "\<forall>p\<in>set ps. hasUID p" "\<forall>p\<in>set ps. declaredUID p = []"
    using desired(3) hasUID_empty by blast+
  \<comment> \<open>the fetch of the current records\<close>
  define fetch where "fetch = (if IsNewResource d then [] else [(GetCall (Some ?nm), False)])"
  let ?w1 = "\<lparr>backend = b, calls = cs @ fetch\<rparr>"
  have f: "fetchCurrent ?cl d w = (Inr [], ?w1)"
    by (simp add: w memory_fetchCurrent none fetch_def)
  \<comment> \<open>the loop over the instances\<close>
  obtain cr where cr: "memApply (store b) ps = (store b @ cr, map UID cr)"
    and crl: "list_all2 (\<lambda>q p. \<exists>u. u \<noteq> [] \<and> q = (gfState p)\<lparr>UID := u\<rparr>) cr ps"
    using memApply_new [OF uid(2)] by blast
  let ?b2 = "b\<lparr>store := store b @ cr\<rparr>"
  let ?w2 = "\<lparr>backend = ?b2, calls = cs @ fetch @ map (\<lambda>p. (PostCall (gfState p), False)) ps\<rparr>"
  have calls: "map (\<lambda>p. (applyCall p, False)) ps = map (\<lambda>p. (PostCall (gfState p), False)) ps"
    using uid(2) by (simp add: applyCall_def)
  have a: "applyPoints ?cl ?org wait ps [] ?w1 =
      (Inr (Inr (map2 withUID (map UID cr) ps, map UID cr)), ?w2)"
    using memory_apply [OF pf uid(1), where org = org and orgID = ?org and wait = wait
          and ?done.0 = "[]" and cs = "cs @ fetch"] uid(2) cr calls
    by simp
  have del: "deleteStale ?cl (map UID cr) [] ?w2 = ([], ?w2)" by simp
  \<comment> \<open>the read\<close>
  let ?d1 = "d\<lparr>Id := MakeOrgResourceID ?org ?nm\<rparr>"
  have nth: "\<exists>u. u \<noteq> [] \<and> cr ! i = (gfState (ps ! i))\<lparr>UID := u\<rparr>" if "i < length ps" for i
    using crl that by (auto simp: list_all2_conv_all_nth)
  have crn: "\<exists>p\<in>set ps. \<exists>u. u \<noteq> [] \<and> q = (gfState p)\<lparr>UID := u\<rparr>" if "q \<in> set cr" for q
  proof -
    from that obtain i where i: "i < length cr" "q = cr ! i" by (auto simp: in_set_conv_nth)
    moreover have "length cr = length ps" using crl by (rule list_all2_lengthD)
    ultimately show ?thesis using nth [of i] by auto
  qed
  have crq: "Name q = ?nm \<and> UID q \<noteq> [] \<and> Type q \<noteq> None" if "q \<in> set cr" for q
  proof -
    from crn [OF that] obtain p u where p: "p \<in> set ps" "u \<noteq> []" "q = (gfState p)\<lparr>UID := u\<rparr>"
      by blast
    from ty p(1) obtain n where "ofKind N n (gfState p)" by blast
    then have "Type (gfState p) \<noteq> None" by (simp add: ofKind_def)
    with nm p show ?thesis by simp
  qed
  have crlen: "length cr = length ps" using crl by (rule list_all2_lengthD)
  then have crne: "cr \<noteq> []" using desired(2) by auto
  have payload: "filter (\<lambda>p. Name p = ?nm) cr = cr"
    using crq by (simp add: filter_id_conv)
  let ?w3 = "\<lparr>backend = ?b2, calls = cs @ fetch @ map (\<lambda>p. (PostCall (gfState p), False)) ps
                 @ [(GetCall (Some ?nm), False)]\<rparr>"
  have packs: "\<exists>m. pack N n q (?d1\<lparr>nameAttr := Name q\<rparr>) = Inr (Inr (VMap m))
           \<and> map_of m ''uid'' = Some (VStr (UID q))" if q: "q \<in> set cr" and k: "ofKind N n q" for q n
  proof -
    from crn [OF q] obtain p u where p: "p \<in> set ps" "q = (gfState p)\<lparr>UID := u\<rparr>" by blast
    then have "ofKind N n (gfState p)" using k by simp
    with P p(1) have "\<exists>m. pack N n ((gfState p)\<lparr>UID := u\<rparr>) (?d1\<lparr>nameAttr := Name q\<rparr>) = Inr (Inr (VMap m))
           \<and> map_of m ''uid'' = Some (VStr u)"
      by simp
    with p(2) show ?thesis by simp
  qed
  have tyq: "\<forall>q\<in>set cr. Type q \<noteq> None" using crq by blast
  have pkq: "\<forall>q\<in>set cr. \<forall>n. ofKind N n q \<longrightarrow> (\<exists>v. pack N n q (?d1\<lparr>nameAttr := Name q\<rparr>) = Inr (Inr v))"
    using packs by blast
  have pk: "fst (packContactPoints N cr ?d1) = Inr (Inr ())"
    by (rule packContactPoints_ok(1) [OF tyq pkq fields])
  obtain d2 where d2: "packContactPoints N cr ?d1 = (Inr (Inr ()), d2)"
    using pk by (cases "packContactPoints N cr ?d1") auto
  have inst: "\<exists>pts. map (\<lambda>v. Inr (Inr v)) pts =
                map (\<lambda>p. pack N n p (?d1\<lparr>nameAttr := Name p\<rparr>)) (filter (ofKind N n) cr)
          \<and> instances d2 (field (meta N n)) =
              (if pts = [] then instances d (field (meta N n)) else pts)" for n
  proof -
    from packContactPoints_ok(2) [OF tyq pkq fields, of n] obtain pts where
      A: "map (\<lambda>v. Inr (Inr v)) pts =
                map (\<lambda>p. pack N n p (?d1\<lparr>nameAttr := Name p\<rparr>)) (filter (ofKind N n) cr)"
      and B: "instances (snd (packContactPoints N cr ?d1)) (field (meta N n)) =
              (if pts = [] then instances ?d1 (field (meta N n)) else pts)"
      by blast
    from B have "instances d2 (field (meta N n)) =
              (if pts = [] then instances d (field (meta N n)) else pts)"
      by (simp add: d2)
    with A show ?thesis by blast
  qed
  let ?d' = "d2\<lparr>orgIdAttr := Sprint ?org, Id := MakeOrgResourceID ?org (Name (hd cr))\<rparr>"
  have rd: "readContactPoint N ?cl order ?d1 ?w2 = (Inr [], ?d', ?w3)"
    by (simp add: readContactPoint_def existing_of_new mem_list none payload crne d2)
  have "updateContactPoint N ?cl wait order d w = (Inr [], ?d', ?w3)"
    by (simp add: updateContactPoint_def Let_def desired(1) f a del rd)
  with run have r: "r = Inr []" and d': "d' = ?d'" and w': "w' = ?w3" by simp_all
  \<comment> \<open>the instances of the result\<close>
  have per_kind: "length (instances d' (field (meta N n))) = length (filter (ofKind N n) cr)
     \<and> (\<forall>v\<in>set (instances d' (field (meta N n))).
          \<exists>m u. v = VMap m \<and> map_of m ''uid'' = Some (VStr u) \<and> u \<noteq> [])" for n
  proof -
    obtain pts where pts: "map (\<lambda>v. Inr (Inr v)) pts =
                map (\<lambda>p. pack N n p (?d1\<lparr>nameAttr := Name p\<rparr>)) (filter (ofKind N n) cr)"
      and i: "instances d2 (field (meta N n)) =
              (if pts = [] then instances d (field (meta N n)) else pts)"
      using inst [of n] by blast
    have l: "length pts = length (filter (ofKind N n) cr)"
      using arg_cong [OF pts, of length] by simp
    show ?thesis
    proof (cases "pts = []")
      case True
      have "instances d (field (meta N n)) = []"
      proof (rule ccontr)
        assume "instances d (field (meta N n)) \<noteq> []"
        with declared obtain p where p: "p \<in> set ps" "ofKind N n (gfState p)" by blast
        then obtain i where i: "i < length ps" "p = ps ! i" by (auto simp: in_set_conv_nth)
        from nth [OF i(1)] obtain u where u: "cr ! i = (gfState (ps ! i))\<lparr>UID := u\<rparr>" by blast
        have "cr ! i \<in> set cr" using i(1) crlen by (simp only: nth_mem)
        moreover have "ofKind N n (cr ! i)" using p(2) i(2) by (simp add: u)
        ultimately have "cr ! i \<in> set cr" "ofKind N n (cr ! i)" .
        then have "filter (ofKind N n) cr \<noteq> []" by (auto simp: filter_empty_conv)
        with l True show False by simp
      qed
      with True i l show ?thesis by (simp add: d')
    next
      case False
      have "\<exists>m u. v = VMap m \<and> map_of m ''uid'' = Some (VStr u) \<and> u \<noteq> []" if "v \<in> set pts" for v
      proof -
        from that obtain j where j: "j < length pts" "v = pts ! j" by (auto simp: in_set_conv_nth)
        let ?q = "filter (ofKind N n) cr ! j"
        have jl: "j < length (filter (ofKind N n) cr)" using j(1) l by simp
        have "map (\<lambda>v. Inr (Inr v)) pts ! j =
                map (\<lambda>p. pack N n p (?d1\<lparr>nameAttr := Name p\<rparr>)) (filter (ofKind N n) cr) ! j"
          by (simp only: pts)
        then have v: "pack N n ?q (?d1\<lparr>nameAttr := Name ?q\<rparr>) = Inr (Inr v)"
          using j jl by (simp only: nth_map)
        have "?q \<in> set (filter (ofKind N n) cr)" using jl by (rule nth_mem)
        then have q: "?q \<in> set cr" "ofKind N n ?q" by simp_all
        from packs [OF q] obtain m where
          m: "pack N n ?q (?d1\<lparr>nameAttr := Name ?q\<rparr>) = Inr (Inr (VMap m))"
             "map_of m ''uid'' = Some (VStr (UID ?q))"
          by blast
        from v m(1) have "v = VMap m" by (simp only: sum.inject)
        moreover have "UID ?q \<noteq> []" using crq [OF q(1)] by blast
        ultimately show ?thesis using m(2) by blast
      qed
      with False i l show ?thesis by (simp add: d')
    qed
  qed
  have rec: "filter (recognized N) cr = cr"
  proof -
    have "recognized N q" if "q \<in> set cr" for q
    proof -
      from crn [OF that] obtain p u where p: "p \<in> set ps" "q = (gfState p)\<lparr>UID := u\<rparr>" by blast
      from ty p(1) obtain n where "ofKind N n (gfState p)" by blast
      with p(2) show ?thesis
        by (auto simp: recognized_def list_ex_iff ofKind_def all_notifiers)
    qed
    then show ?thesis by (simp add: filter_id_conv)
  qed
  have total: "sum_list (map (\<lambda>n. length (instances d' (field (meta N n)))) notifiers) = length ps"
    using per_kind kinds_count [OF types, of cr] by (simp add: rec crlen)
  have c: "calls w' = calls w
         @ (if IsNewResource d then [] else [(GetCall (Some ?nm), False)])
         @ map (\<lambda>p. (PostCall (gfState p), False)) ps
         @ [(GetCall (Some ?nm), False)]"
    by (simp add: w' w fetch_def)
  from r c len total per_kind show ?thesis by blast
qed

lemma example_unpack_tags:
  "\<forall>n raw nm pt. unpack exampleMethods n raw nm = Inr pt \<longrightarrow>
      Name pt = nm \<and> Type pt = Some (typeStr (meta exampleMethods n))"
  by (auto simp: exampleMethods_def exampleUnpack_def exampleMeta_def split: sum.splits prod.splits)

lemma kindTag_inj: "kindTag n = kindTag m \<Longrightarrow> n = m"
  by (cases n; cases m; simp)

lemma unpack_bothNew: "unpackContactPoints exampleMethods bothNew = Inr newPairs"
  by (simp add: unpackContactPoints_def notifiers_def bothNew_def dataOf_def GetOk_def
      exampleMethods_def exampleMeta_def unpackPoint_def unpackPointConfig_def exampleUnpack_def
      declared_def unpackCommonNotifierFields_def slackPair_def newPairs_def)

lemma example_pack_new:
  assumes d': "instances d' = instances bothNew"
    and p: "p \<in> set newPairs"
    and k: "ofKind exampleMethods n (gfState p)"
  shows "\<exists>m. pack exampleMethods n ((gfState p)\<lparr>UID := u\<rparr>) d' = Inr (Inr (VMap m))
           \<and> map_of m ''uid'' = Some (VStr u)"
proof -
  from p consider "p = slackPair" | "p = newPairs ! 1" by (auto simp: newPairs_def)
  then show ?thesis
  proof cases
    case 1
    with k have "kindTag n = kindTag slackNotifier"
      by (simp add: ofKind_def exampleMethods_def exampleMeta_def slackPair_def)
    then have n: "n = slackNotifier" by (rule kindTag_inj)
    show ?thesis
      by (simp add: 1 n exampleMethods_def examplePack_def packCarryForward_def
          getNotifierConfigFromStateWithUID_def GetOk_def d' bothNew_def dataOf_def exampleMeta_def
          declared_def packCommonNotifierFields_def packSettings_def exampleSyntax_def slackPair_def lookupNonNil_def)
  next
    case 2
    with k have "kindTag n = kindTag webhookNotifier"
      by (simp add: ofKind_def exampleMethods_def exampleMeta_def newPairs_def)
    then have n: "n = webhookNotifier" by (rule kindTag_inj)
    show ?thesis
      by (simp add: 2 n exampleMethods_def examplePack_def packCarryForward_def
          getNotifierConfigFromStateWithUID_def GetOk_def d' bothNew_def dataOf_def exampleMeta_def
          declared_def packCommonNotifierFields_def packSettings_def exampleSyntax_def newPairs_def lookupNonNil_def)
  qed
qed

theorem new_instances_are_created_witness:
  "fst (updateContactPoint exampleMethods (memoryClient 1) (\<lambda>i. 100) id bothNew
          (worldOf [elsewhere] [])) = Inr []
   \<and> calls (snd (snd (updateContactPoint exampleMethods (memoryClient 1) (\<lambda>i. 100) id bothNew
          (worldOf [elsewhere] [])))) =
       [(PostCall (gfState (newPairs ! 0)), False), (PostCall (gfState (newPairs ! 1)), False),
        (GetCall (Some ''ops''), False)]
   \<and> sum_list (map (\<lambda>n. length (instances (fst (snd (updateContactPoint exampleMethods
          (memoryClient 1) (\<lambda>i. 100) id bothNew (worldOf [elsewhere] []))))
            (field (meta exampleMethods n)))) notifiers) = 2
   \<and> map (\<lambda>n. list_all (\<lambda>v. \<exists>m u. v = VMap m \<and> map_of m ''uid'' = Some (VStr u) \<and> u \<noteq> [])
         (instances (fst (snd (updateContactPoint exampleMethods
          (memoryClient 1) (\<lambda>i. 100) id bothNew (worldOf [elsewhere] []))))
            (field (meta exampleMethods n)))) [slackNotifier, webhookNotifier] = [True, True]"
proof -
  let ?X = "updateContactPoint exampleMethods (memoryClient 1) (\<lambda>i. 100) id bothNew
          (worldOf [elsewhere] [])"
  have P: "\<forall>p\<in>set newPairs. \<forall>n u d'. ofKind exampleMethods n (gfState p) \<longrightarrow>
              instances d' = instances bothNew \<longrightarrow>
              (\<exists>m. pack exampleMethods n ((gfState p)\<lparr>UID := u\<rparr>) d' = Inr (Inr (VMap m))
                   \<and> map_of m ''uid'' = Some (VStr u))"
    using example_pack_new by blast
  have ne: "newPairs \<noteq> []" by (simp add: newPairs_def)
  have new: "\<forall>p\<in>set newPairs. map_of (tfState p) ''uid'' = Some (VStr [])"
    by (simp add: newPairs_def slackPair_def)
  have r1: "postFailures (backend (worldOf [elsewhere] [])) = []" by (simp add: worldOf_def)
  have r2: "\<forall>q\<in>set (store (backend (worldOf [elsewhere] []))). Name q \<noteq> nameAttr bothNew"
    by (simp add: worldOf_def elsewhere_def bothNew_def dataOf_def)
  have run: "?X = (fst ?X, fst (snd ?X), snd (snd ?X))" by simp
  note T = new_instances_are_created [OF example_unpack_tags P example_types example_fields
      unpack_bothNew ne new r1 r2 run]
  have 1: "fst ?X = Inr []" using T by blast
  have "calls (snd (snd ?X)) = calls (worldOf [elsewhere] [])
         @ (if IsNewResource bothNew then [] else [(GetCall (Some (nameAttr bothNew)), False)])
         @ map (\<lambda>p. (PostCall (gfState p), False)) newPairs
         @ [(GetCall (Some (nameAttr bothNew)), False)]"
    using T by blast
  then have 2: "calls (snd (snd ?X)) =
       [(PostCall (gfState (newPairs ! 0)), False), (PostCall (gfState (newPairs ! 1)), False),
        (GetCall (Some ''ops''), False)]"
    by (simp add: worldOf_def bothNew_def dataOf_def newPairs_def)
  have "sum_list (map (\<lambda>n. length (instances (fst (snd ?X)) (field (meta exampleMethods n))))
          notifiers) = length newPairs"
    using T by blast
  then have 3: "sum_list (map (\<lambda>n. length (instances (fst (snd ?X)) (field (meta exampleMethods n))))
          notifiers) = 2"
    by (simp add: newPairs_def)
  have 4: "list_all (\<lambda>v. \<exists>m u. v = VMap m \<and> map_of m ''uid'' = Some (VStr u) \<and> u \<noteq> [])
         (instances (fst (snd ?X)) (field (meta exampleMethods n)))" for n
    using T by (simp add: list_all_iff)
  from 1 2 3 4 [of slackNotifier] 4 [of webhookNotifier] show ?thesis by simp
qed

section \<open>Contact points: the reconciliation by UID\<close>













end
